(* ===== verification/Prelude.thy ===== *)
theory Prelude
  imports Main "HOL-Library.Word"
begin

text \<open>
  Shared vocabulary of the development: bytes, Python exceptions, and programs that
  thread a world and may raise. Every handler of the transports is a program; the
  protocol callbacks of the application are programs too, so that a callback may call
  back into the transport (reentrancy) before it returns.

  The combinators follow the control flow of the source: \<open>block\<close> is a sequence of
  statements, \<open>cond\<close> is an \<open>if\<close> on the current state, \<open>try_except\<close> and
  \<open>try_finally\<close> are Python's, \<open>loop\<close> is a \<open>while True\<close> loop whose body either
  continues with new locals or leaves with a result. \<open>loop\<close> carries fuel; running out
  is the distinguished exception \<open>OutOfFuel\<close>, and \<open>loop_fuel_irrelevant\<close> and
  \<open>loop_no_fuel_error\<close> are the two facts every use of it needs.
\<close>

section \<open>Values\<close>

type_synonym byte = "8 word"
type_synonym bytes = "byte list"

text \<open>
  Exception classes the source raises, catches or tests. An \<open>OSError\<close> is identified by
  its errno, which also decides its subclass (\<open>ConnectionResetError\<close>,
  \<open>BlockingIOError\<close> and so on). \<open>UserErr\<close> is whatever an application callback raises.
  \<open>NullDeref\<close> is not an exception of Python: it marks a C-level method call through the
  method table of \<open>None\<close> (the extension is built with \<open>nonecheck=False\<close>), which is
  undefined behaviour. \<open>ExnType c\<close> stands for the class \<open>c\<close> itself where the source passes a
  class and not an instance of it.
\<close>

datatype exn_class =
    KeyboardInterrupt
  | SystemExit
  | CancelledError
  | OSErr int
  | AttributeErr
  | RuntimeErr
  | TypeErr
  | ValueErr
  | IndexErr
  | BufferErr
  | AssertErr
  | ImportErr
  | MemoryErr
  | NotImplementedErr
  | SendfileNotAvailable
  | DNSLookupRequired
  | AsyncioTimeout
  | SSLErr string
  | SSLWantRead
  | SSLWantWrite
  | SSLZeroReturn
  | SSLSyscall
  | UserErr nat
  | OverflowErr
  | UnsupportedOp
  | InvalidStateErr
  | NullDeref
  | OutOfFuel
  | ExceptionGroupErr "exn list"
  | ExnType exn_class
and exn = Exn (exn_cls: exn_class) (exn_info: "string option") (exn_str: string)

text \<open>
  An exception object: its class, the \<open>_aiofastnet_extra_info\<close> attribute and its text, what
  \<open>str()\<close> gives. The text is tracked where the program looks at it, in the connection API;
  everywhere else exceptions are made by \<open>exn_of\<close>.
\<close>

definition exn_of :: "exn_class \<Rightarrow> exn" where
  "exn_of c = Exn c None []"

definition exn_msg :: "exn_class \<Rightarrow> string \<Rightarrow> exn" where
  "exn_msg c s = Exn c None s"

fun is_exit_class :: "exn_class \<Rightarrow> bool" where
  "is_exit_class KeyboardInterrupt = True"
| "is_exit_class SystemExit = True"
| "is_exit_class _ = False"

definition is_exit :: "exn \<Rightarrow> bool" where
  \<comment> \<open>\<open>isinstance(exc, (KeyboardInterrupt, SystemExit))\<close>\<close>
  "is_exit e = is_exit_class (exn_cls e)"

fun is_oserror_class :: "exn_class \<Rightarrow> bool" where
  "is_oserror_class (OSErr _) = True"
| "is_oserror_class _ = False"

definition is_oserror :: "exn \<Rightarrow> bool" where
  "is_oserror e = is_oserror_class (exn_cls e)"

section \<open>Programs\<close>

type_synonym ('w, 'a) prog = "'w \<Rightarrow> (exn + 'a) \<times> 'w"

definition ret :: "'a \<Rightarrow> ('w, 'a) prog" where
  "ret x w = (Inr x, w)"

definition raise :: "exn_class \<Rightarrow> ('w, 'a) prog" where
  "raise c w = (Inl (exn_of c), w)"

definition reraise :: "exn \<Rightarrow> ('w, 'a) prog" where
  "reraise e w = (Inl e, w)"

definition bnd :: "('w, 'a) prog \<Rightarrow> ('a \<Rightarrow> ('w, 'b) prog) \<Rightarrow> ('w, 'b) prog" where
  "bnd m f w = (case m w of (Inl e, w') \<Rightarrow> (Inl e, w') | (Inr a, w') \<Rightarrow> f a w')"

definition andthen :: "('w, 'a) prog \<Rightarrow> ('w, 'b) prog \<Rightarrow> ('w, 'b) prog" where
  "andthen m n = bnd m (\<lambda>_. n)"

definition gets :: "('w \<Rightarrow> 'a) \<Rightarrow> ('w, 'a) prog" where
  "gets f w = (Inr (f w), w)"

definition upd :: "('w \<Rightarrow> 'w) \<Rightarrow> ('w, unit) prog" where
  "upd f w = (Inr (), f w)"

definition lift_result :: "exn + 'a \<Rightarrow> ('w, 'a) prog" where
  "lift_result r w = (r, w)"

definition lift_exn :: "exn_class + 'a \<Rightarrow> ('w, 'a) prog" where
  "lift_exn r = (case r of Inl c \<Rightarrow> raise c | Inr a \<Rightarrow> ret a)"

definition cond :: "('w \<Rightarrow> bool) \<Rightarrow> ('w, 'a) prog \<Rightarrow> ('w, 'a) prog \<Rightarrow> ('w, 'a) prog" where
  "cond c m n w = (if c w then m w else n w)"

definition unless :: "('w \<Rightarrow> bool) \<Rightarrow> ('w, unit) prog \<Rightarrow> ('w, unit) prog" where
  "unless c m = cond c (ret ()) m"

definition only_if :: "('w \<Rightarrow> bool) \<Rightarrow> ('w, unit) prog \<Rightarrow> ('w, unit) prog" where
  "only_if c m = cond c m (ret ())"

fun block :: "('w, unit) prog list \<Rightarrow> ('w, unit) prog" where
  "block [] = ret ()"
| "block [m] = m"
| "block (m # n # ms) = andthen m (block (n # ms))"

definition try_except :: "('w, 'a) prog \<Rightarrow> (exn \<Rightarrow> ('w, 'a) prog) \<Rightarrow> ('w, 'a) prog" where
  "try_except m h w = (case m w of (Inl e, w') \<Rightarrow> h e w' | (Inr a, w') \<Rightarrow> (Inr a, w'))"

definition try_else ::
  "('w, 'a) prog \<Rightarrow> (exn \<Rightarrow> ('w, 'b) prog) \<Rightarrow> ('a \<Rightarrow> ('w, 'b) prog) \<Rightarrow> ('w, 'b) prog" where
  \<comment> \<open>\<open>try: m except e: h else: k\<close>: an exception of \<open>k\<close> is not caught by \<open>h\<close>.\<close>
  "try_else m h k w = (case m w of (Inl e, w') \<Rightarrow> h e w' | (Inr a, w') \<Rightarrow> k a w')"

definition try_finally :: "('w, 'a) prog \<Rightarrow> ('w, unit) prog \<Rightarrow> ('w, 'a) prog" where
  "try_finally m f w =
     (case m w of (r, w') \<Rightarrow>
        (case f w' of (Inl e, w'') \<Rightarrow> (Inl e, w'') | (Inr _, w'') \<Rightarrow> (r, w'')))"

fun for_each :: "'x list \<Rightarrow> ('x \<Rightarrow> ('w, unit) prog) \<Rightarrow> ('w, unit) prog" where
  "for_each [] f = ret ()"
| "for_each (x # xs) f = andthen (f x) (for_each xs f)"

fun loop :: "nat \<Rightarrow> ('l \<Rightarrow> ('w, 'l + 'r) prog) \<Rightarrow> 'l \<Rightarrow> ('w, 'r) prog" where
  "loop 0 b l = raise OutOfFuel"
| "loop (Suc n) b l =
     bnd (b l) (\<lambda>x. case x of Inl l' \<Rightarrow> loop n b l' | Inr r \<Rightarrow> ret r)"

definition continue_with :: "'l \<Rightarrow> ('w, 'l + 'r) prog" where
  "continue_with l = ret (Inl l)"

definition leave_with :: "'r \<Rightarrow> ('w, 'l + 'r) prog" where
  "leave_with r = ret (Inr r)"

lemmas prog_defs =
  ret_def raise_def reraise_def bnd_def andthen_def gets_def upd_def lift_result_def
  cond_def unless_def only_if_def try_except_def try_else_def try_finally_def
  continue_with_def leave_with_def

subsection \<open>Evaluation rules\<close>

named_theorems run "evaluation of programs on a state"

lemma run_ret [simp]: "ret x w = (Inr x, w)"
  by (simp add: ret_def)

lemma run_raise [simp]: "raise c w = (Inl (exn_of c), w)"
  by (simp add: raise_def)

lemma run_reraise [simp]: "reraise e w = (Inl e, w)"
  by (simp add: reraise_def)

lemma run_gets [simp]: "gets f w = (Inr (f w), w)"
  by (simp add: gets_def)

lemma run_upd [simp]: "upd f w = (Inr (), f w)"
  by (simp add: upd_def)

lemma run_lift_result [simp]: "lift_result r w = (r, w)"
  by (simp add: lift_result_def)

lemma run_lift_exn [simp]: "lift_exn (Inl c) = raise c" "lift_exn (Inr a) = ret a"
  by (simp_all add: lift_exn_def)

lemma run_cond [run]: "cond c m n w = (if c w then m w else n w)"
  by (simp add: cond_def)

lemma run_unless [run]: "unless c m w = (if c w then (Inr (), w) else m w)"
  by (simp add: unless_def cond_def)

lemma run_only_if [run]: "only_if c m w = (if c w then m w else (Inr (), w))"
  by (simp add: only_if_def cond_def)

lemma run_bnd [run]:
  "bnd m f w = (case m w of (Inl e, w') \<Rightarrow> (Inl e, w') | (Inr a, w') \<Rightarrow> f a w')"
  by (simp add: bnd_def)

lemma run_andthen [run]:
  "andthen m n w = (case m w of (Inl e, w') \<Rightarrow> (Inl e, w') | (Inr _, w') \<Rightarrow> n w')"
  by (simp add: andthen_def bnd_def)

lemma run_try_except [run]:
  "try_except m h w = (case m w of (Inl e, w') \<Rightarrow> h e w' | (Inr a, w') \<Rightarrow> (Inr a, w'))"
  by (simp add: try_except_def)

lemma run_try_else [run]:
  "try_else m h k w = (case m w of (Inl e, w') \<Rightarrow> h e w' | (Inr a, w') \<Rightarrow> k a w')"
  by (simp add: try_else_def)

lemma run_try_finally [run]:
  "try_finally m f w =
     (case m w of (r, w') \<Rightarrow>
        (case f w' of (Inl e, w'') \<Rightarrow> (Inl e, w'') | (Inr _, w'') \<Rightarrow> (r, w'')))"
  by (simp add: try_finally_def)

lemma snd_try_finally:
  "(\<And>u. fst (f u) = Inr ()) \<Longrightarrow> snd (try_finally m f w) = snd (f (snd (m w)))"
  by (cases "m w"; cases "f (snd (m w))") (metis (no_types, lifting) fst_conv old.prod.case
      old.sum.simps(6) run_try_finally snd_conv)

lemma run_continue_with [simp]: "continue_with l w = (Inr (Inl l), w)"
  by (simp add: continue_with_def)

lemma run_leave_with [simp]: "leave_with r w = (Inr (Inr r), w)"
  by (simp add: leave_with_def)

declare block.simps(3) [simp del, run]

lemma loop_numeral [simp]:
  "loop (numeral v) b l =
     bnd (b l) (\<lambda>x. case x of Inl l' \<Rightarrow> loop (pred_numeral v) b l' | Inr r \<Rightarrow> ret r)"
  by (simp add: numeral_eq_Suc)

subsection \<open>Loops: fuel that is enough stays enough\<close>

lemma loop_fuel_irrelevant:
  fixes m :: "'l \<Rightarrow> 'w \<Rightarrow> nat"
  assumes step: "\<And>l w l' w'. J l w \<Longrightarrow> b l w = (Inr (Inl l'), w') \<Longrightarrow>
                   J l' w' \<and> m l' w' < m l w"
    and "J l w" "m l w < n" "m l w < n'"
  shows "loop n b l w = loop n' b l w"
  using assms(2-4)
proof (induction n arbitrary: n' l w)
  case 0
  then show ?case by simp
next
  case (Suc n)
  from Suc.prems obtain k where k: "n' = Suc k" by (cases n') auto
  show ?case
  proof (cases "b l w")
    case (Pair r w')
    show ?thesis
    proof (cases r)
      case (Inl e)
      with Pair k show ?thesis by (simp add: run)
    next
      case (Inr x)
      show ?thesis
      proof (cases x)
        case (Inl l')
        have d: "J l' w' \<and> m l' w' < m l w"
          using step [OF Suc.prems(1), of l' w'] Pair Inr Inl by simp
        have "loop n b l' w' = loop k b l' w'"
          using Suc.IH [of l' w' k] d Suc.prems k by linarith
        with Pair Inr Inl k show ?thesis by (simp add: run)
      qed (use Pair Inr k in \<open>simp add: run\<close>)
    qed
  qed
qed

lemma loop_no_fuel_error:
  fixes m :: "'l \<Rightarrow> 'w \<Rightarrow> nat"
  assumes step: "\<And>l w l' w'. J l w \<Longrightarrow> b l w = (Inr (Inl l'), w') \<Longrightarrow>
                   J l' w' \<and> m l' w' < m l w"
    and body: "\<And>l w e w'. J l w \<Longrightarrow> b l w = (Inl e, w') \<Longrightarrow> exn_cls e \<noteq> OutOfFuel"
    and "J l w" "m l w < n" "loop n b l w = (Inl e, w')"
  shows "exn_cls e \<noteq> OutOfFuel"
  using assms(3-5)
proof (induction n arbitrary: l w)
  case 0
  then show ?case by simp
next
  case (Suc n)
  show ?case
  proof (cases "b l w")
    case (Pair r v)
    show ?thesis
    proof (cases r)
      case (Inl e')
      with Pair Suc.prems body [of l w e' v] show ?thesis by (simp add: run)
    next
      case (Inr x)
      with Pair Suc.prems obtain l' where l': "x = Inl l'" "loop n b l' v = (Inl e, w')"
        by (cases x) (auto simp: run)
      have "J l' v \<and> m l' v < m l w"
        using step [OF Suc.prems(1), of l' v] Pair Inr l' by simp
      with Suc.IH [of l' v] l' Suc.prems show ?thesis by linarith
    qed
  qed
qed

section \<open>Relations kept by every step of a program\<close>

text \<open>
  \<open>steps_in R m\<close>: whatever \<open>m\<close> does from a state, the state it leaves is related to the
  one it started in by \<open>R\<close>. For a reflexive and transitive \<open>R\<close> the property passes
  through every combinator, so a handler has it as soon as its leaves and the
  application's callbacks have it. An invariant is the relation "if it held, it holds".
\<close>

definition steps_in :: "('w \<Rightarrow> 'w \<Rightarrow> bool) \<Rightarrow> ('w, 'a) prog \<Rightarrow> bool" where
  "steps_in R m = (\<forall>w. R w (snd (m w)))"

definition keeping :: "('w \<Rightarrow> bool) \<Rightarrow> 'w \<Rightarrow> 'w \<Rightarrow> bool" where
  "keeping I w w' = (I w \<longrightarrow> I w')"

lemma keeping_refl: "keeping I w w"
  by (simp add: keeping_def)

lemma keeping_trans: "keeping I w w' \<Longrightarrow> keeping I w' w'' \<Longrightarrow> keeping I w w''"
  by (simp add: keeping_def)

lemma steps_in_keepingD: "steps_in (keeping I) m \<Longrightarrow> I w \<Longrightarrow> I (snd (m w))"
  by (simp add: steps_in_def keeping_def)

locale step_order =
  fixes R :: "'w \<Rightarrow> 'w \<Rightarrow> bool"
  assumes order_refl: "R w w"
    and order_trans: "R w w' \<Longrightarrow> R w' w'' \<Longrightarrow> R w w''"
begin

lemma ret_in: "steps_in R (ret x)"
  by (simp add: steps_in_def order_refl)

lemma raise_in: "steps_in R (raise c)"
  by (simp add: steps_in_def order_refl)

lemma reraise_in: "steps_in R (reraise e)"
  by (simp add: steps_in_def order_refl)

lemma gets_in: "steps_in R (gets f)"
  by (simp add: steps_in_def order_refl)

lemma lift_result_in: "steps_in R (lift_result r)"
  by (simp add: steps_in_def order_refl)

lemma lift_exn_in: "steps_in R (lift_exn r)"
  by (cases r) (auto simp: steps_in_def order_refl)

lemma upd_in: "(\<And>w. R w (f w)) \<Longrightarrow> steps_in R (upd f)"
  by (simp add: steps_in_def)

lemma bnd_in:
  assumes "steps_in R m" and "\<And>a. steps_in R (f a)"
  shows "steps_in R (bnd m f)"
  unfolding steps_in_def
proof
  fix w
  have m: "R w (snd (m w))" using assms(1) by (simp add: steps_in_def)
  have f: "R v (snd (f a v))" for a v using assms(2) by (simp add: steps_in_def)
  show "R w (snd (bnd m f w))"
    using m f order_trans by (fastforce simp: run split: prod.splits sum.splits)
qed

lemma andthen_in: "steps_in R m \<Longrightarrow> steps_in R n \<Longrightarrow> steps_in R (andthen m n)"
  by (simp add: andthen_def bnd_in)

lemma cond_in: "steps_in R m \<Longrightarrow> steps_in R n \<Longrightarrow> steps_in R (cond c m n)"
  by (simp add: steps_in_def run)

lemma unless_in: "steps_in R m \<Longrightarrow> steps_in R (unless c m)"
  by (simp add: steps_in_def run order_refl)

lemma only_if_in: "steps_in R m \<Longrightarrow> steps_in R (only_if c m)"
  by (simp add: steps_in_def run order_refl)

lemma block_in: "(\<And>m. m \<in> set ms \<Longrightarrow> steps_in R m) \<Longrightarrow> steps_in R (block ms)"
  by (induction ms rule: block.induct) (auto simp: block.simps intro: ret_in andthen_in)

lemma block_nil_in: "steps_in R (block [])"
  by (simp add: block.simps ret_in)

lemma block_cons_in: "steps_in R m \<Longrightarrow> steps_in R (block ms) \<Longrightarrow> steps_in R (block (m # ms))"
  by (cases ms) (auto simp: block.simps intro: ret_in andthen_in)

lemma try_except_in:
  assumes "steps_in R m" and "\<And>e. steps_in R (h e)"
  shows "steps_in R (try_except m h)"
  unfolding steps_in_def
proof
  fix w
  have m: "R w (snd (m w))" using assms(1) by (simp add: steps_in_def)
  have f: "R v (snd (h a v))" for a v using assms(2) by (simp add: steps_in_def)
  show "R w (snd (try_except m h w))"
    using m f order_trans by (fastforce simp: run split: prod.splits sum.splits)
qed

lemma try_else_in:
  assumes "steps_in R m" and "\<And>e. steps_in R (h e)" and "\<And>a. steps_in R (k a)"
  shows "steps_in R (try_else m h k)"
  unfolding steps_in_def
proof
  fix w
  have m: "R w (snd (m w))" using assms(1) by (simp add: steps_in_def)
  have f: "R v (snd (h a v))" "R v (snd (k b v))" for a b v
    using assms(2,3) by (simp_all add: steps_in_def)
  show "R w (snd (try_else m h k w))"
    using m f order_trans by (fastforce simp: run split: prod.splits sum.splits)
qed

lemma try_finally_in:
  assumes "steps_in R m" and "steps_in R f"
  shows "steps_in R (try_finally m f)"
  unfolding steps_in_def
proof
  fix w
  have m: "R w (snd (m w))" using assms(1) by (simp add: steps_in_def)
  have f: "R v (snd (f v))" for v using assms(2) by (simp add: steps_in_def)
  show "R w (snd (try_finally m f w))"
    using m f order_trans by (fastforce simp: run split: prod.splits sum.splits)
qed

lemma for_each_in: "(\<And>x. steps_in R (f x)) \<Longrightarrow> steps_in R (for_each xs f)"
  by (induction xs) (auto intro: ret_in andthen_in)

lemma loop_in: "(\<And>l. steps_in R (b l)) \<Longrightarrow> steps_in R (loop n b l)"
  by (induction n arbitrary: l) (auto intro!: raise_in bnd_in ret_in split: sum.splits)

lemma continue_in: "steps_in R (continue_with l)"
  by (simp add: continue_with_def ret_in)

lemma leave_in: "steps_in R (leave_with r)"
  by (simp add: leave_with_def ret_in)

lemmas order_rules =
  ret_in raise_in reraise_in gets_in lift_result_in lift_exn_in bnd_in andthen_in cond_in
  unless_in only_if_in block_nil_in block_cons_in try_except_in try_else_in
  try_finally_in for_each_in loop_in continue_in leave_in

end

interpretation keep: step_order "keeping I" for I
  by unfold_locales (auto simp: keeping_def)

section \<open>Weakest preconditions\<close>

text \<open>
  \<open>wp m Q E w\<close>: run from \<open>w\<close>, the program \<open>m\<close> returns a value and a state in \<open>Q\<close> or
  raises an exception and leaves a state in \<open>E\<close>. The rules in \<open>wps\<close> push it through
  the combinators, so that simplification executes a handler symbolically up to its
  callbacks and loops, which have the rules \<open>wp_weaken\<close> and \<open>wp_loop\<close>.
\<close>

named_theorems wps "weakest preconditions of the combinators"

definition wp :: "('w, 'a) prog \<Rightarrow> ('a \<Rightarrow> 'w \<Rightarrow> bool) \<Rightarrow> (exn \<Rightarrow> 'w \<Rightarrow> bool) \<Rightarrow> 'w \<Rightarrow> bool" where
  "wp m Q E w = (case m w of (Inl e, w') \<Rightarrow> E e w' | (Inr a, w') \<Rightarrow> Q a w')"

lemma wp_ret [wps]: "wp (ret x) Q E = Q x"
  by (rule ext) (simp add: wp_def)

lemma wp_raise [wps]: "wp (raise c) Q E = E (exn_of c)"
  by (rule ext) (simp add: wp_def)

lemma wp_reraise [wps]: "wp (reraise e) Q E = E e"
  by (rule ext) (simp add: wp_def)

lemma wp_gets [wps]: "wp (gets f) Q E w = Q (f w) w"
  by (simp add: wp_def)

lemma wp_upd [wps]: "wp (upd f) Q E w = Q () (f w)"
  by (simp add: wp_def)

lemma wp_lift_exn [wps]:
  "wp (lift_exn r) Q E w = (case r of Inl c \<Rightarrow> E (exn_of c) w | Inr a \<Rightarrow> Q a w)"
  by (simp add: wp_def lift_exn_def split: sum.splits)

lemma wp_cond [wps]: "wp (cond c m n) Q E w = (if c w then wp m Q E w else wp n Q E w)"
  by (simp add: wp_def run)

lemma wp_unless [wps]: "wp (unless c m) Q E w = (if c w then Q () w else wp m Q E w)"
  by (simp add: wp_def run)

lemma wp_only_if [wps]: "wp (only_if c m) Q E w = (if c w then wp m Q E w else Q () w)"
  by (simp add: wp_def run)

lemma wp_bnd [wps]: "wp (bnd m f) Q E = wp m (\<lambda>a. wp (f a) Q E) E"
  by (rule ext) (simp add: wp_def run split: prod.splits sum.splits)

lemma wp_andthen [wps]: "wp (andthen m n) Q E = wp m (\<lambda>_. wp n Q E) E"
  by (rule ext) (simp add: wp_def run split: prod.splits sum.splits)

lemma wp_try_except [wps]: "wp (try_except m h) Q E = wp m Q (\<lambda>e. wp (h e) Q E)"
  by (rule ext) (simp add: wp_def run split: prod.splits sum.splits)

lemma wp_try_else [wps]:
  "wp (try_else m h k) Q E = wp m (\<lambda>a. wp (k a) Q E) (\<lambda>e. wp (h e) Q E)"
  by (rule ext) (simp add: wp_def run split: prod.splits sum.splits)

lemma wp_try_finally [wps]:
  "wp (try_finally m f) Q E = wp m (\<lambda>a. wp f (\<lambda>_. Q a) E) (\<lambda>e. wp f (\<lambda>_. E e) E)"
  by (rule ext) (simp add: wp_def run split: prod.splits sum.splits)

lemma wp_continue_with [wps]: "wp (continue_with l) Q E = Q (Inl l)"
  by (rule ext) (simp add: wp_def)

lemma wp_leave_with [wps]: "wp (leave_with r) Q E = Q (Inr r)"
  by (rule ext) (simp add: wp_def)

lemma wp_if [wps]: "wp (if b then m else n) Q E = (if b then wp m Q E else wp n Q E)"
  by simp

lemma wp_block [wps]:
  "wp (block []) Q E = Q ()"
  "wp (block [m]) Q E = wp m Q E"
  "wp (block (m # n # ms)) Q E = wp m (\<lambda>_. wp (block (n # ms)) Q E) E"
  by (simp_all add: wp_ret wp_andthen block.simps)

lemma wp_weaken:
  "wp m Q E w \<Longrightarrow> (\<And>a v. Q a v \<Longrightarrow> Q' a v) \<Longrightarrow> (\<And>e v. E e v \<Longrightarrow> E' e v) \<Longrightarrow> wp m Q' E' w"
  by (auto simp: wp_def split: prod.splits sum.splits)

lemma wp_snd: "wp m (\<lambda>_. P) (\<lambda>_. P) w \<longleftrightarrow> P (snd (m w))"
  by (auto simp: wp_def split: prod.splits sum.splits)

lemma wp_true: "wp m (\<lambda>_ _. True) (\<lambda>_ _. True) w"
  by (auto simp: wp_def split: prod.splits sum.splits)

lemma wp_conj:
  "wp m Q E w \<Longrightarrow> wp m Q' E' w \<Longrightarrow> wp m (\<lambda>a v. Q a v \<and> Q' a v) (\<lambda>e v. E e v \<and> E' e v) w"
  by (auto simp: wp_def split: prod.splits sum.splits)

lemma wp_steps_in:
  assumes "steps_in R m" and "\<And>a v. R w v \<Longrightarrow> Q a v" and "\<And>e v. R w v \<Longrightarrow> E e v"
  shows "wp m Q E w"
  using assms by (auto simp: wp_def steps_in_def split: prod.splits sum.splits) (metis snd_conv)+

lemma steps_in_wp: "(\<And>w. wp m (\<lambda>_. R w) (\<lambda>_. R w) w) \<Longrightarrow> steps_in R m"
  by (simp add: steps_in_def wp_snd)

lemma steps_in_keeping_wp: "(\<And>w. I w \<Longrightarrow> wp m (\<lambda>_. I) (\<lambda>_. I) w) \<Longrightarrow> steps_in (keeping I) m"
  by (simp add: steps_in_def wp_snd keeping_def)

lemma wp_loop:
  \<comment> \<open>Partial correctness of a loop: \<open>J\<close> at every entry of the body.\<close>
  assumes body: "\<And>l w. J l w \<Longrightarrow>
            wp (b l) (\<lambda>x w'. case x of Inl l' \<Rightarrow> J l' w' | Inr r \<Rightarrow> Q r w') E w"
    and fuel: "\<And>l w. J l w \<Longrightarrow> E (exn_of OutOfFuel) w"
    and "J l w"
  shows "wp (loop n b l) Q E w"
  using assms(3)
proof (induction n arbitrary: l w)
  case 0
  then show ?case by (simp add: wp_def fuel)
next
  case (Suc n)
  show ?case
    by (auto simp: wps intro!: wp_weaken [OF body [OF Suc.prems]] Suc.IH split: sum.splits)
qed

lemma wp_loop_total:
  \<comment> \<open>Total correctness: a measure below the fuel that every round decreases.\<close>
  fixes m :: "'l \<Rightarrow> 'w \<Rightarrow> nat"
  assumes body: "\<And>l w. J l w \<Longrightarrow>
            wp (b l) (\<lambda>x w'. case x of Inl l' \<Rightarrow> J l' w' \<and> m l' w' < m l w | Inr r \<Rightarrow> Q r w') E w"
    and "J l w" and "m l w < n"
  shows "wp (loop n b l) Q E w"
  using assms(2,3)
proof (induction n arbitrary: l w)
  case 0
  then show ?case by simp
next
  case (Suc n)
  show ?case
    using Suc.prems(2)
    by (auto simp: wps intro!: wp_weaken [OF body [OF Suc.prems(1)]] Suc.IH split: sum.splits)
qed

section \<open>Lists\<close>

lemma sum_list_pos_empty_iff:
  fixes f :: "'x \<Rightarrow> int"
  assumes "\<forall>x \<in> set xs. 0 < f x"
  shows "(\<Sum>x\<leftarrow>xs. f x) = 0 \<longleftrightarrow> xs = []"
proof (cases xs)
  case (Cons x ys)
  have "0 \<le> (\<Sum>x\<leftarrow>ys. f x)"
    using assms Cons by (intro sum_list_nonneg) (auto intro: less_imp_le)
  with assms Cons show ?thesis by force
qed simp

lemma sum_list_nonneg_map:
  fixes f :: "'x \<Rightarrow> int"
  shows "\<forall>x \<in> set xs. 0 < f x \<Longrightarrow> 0 \<le> (\<Sum>x\<leftarrow>xs. f x)"
  by (intro sum_list_nonneg) (auto intro: less_imp_le)

lemma length_concat_int: "int (length (concat xss)) = (\<Sum>xs\<leftarrow>xss. int (length xs))"
  by (induction xss) auto

lemma drop_concat_Cons:
  "length x \<le> n \<Longrightarrow> drop n (concat (x # xs)) = drop (n - length x) (concat xs)"
  by simp

end
