(* ===== verification/Buffers.thy ===== *)
theory Buffers
  imports Prelude
begin

text \<open>
  Python buffer objects as the write paths see them (utils.pyx, "aiofn_validate_buffer" to
  "aiofn_maybe_copy_buffer_tail"). A \<open>memoryview\<close> carries its memory in bytes, the size of
  one item (so \<open>len\<close> counts items, not bytes), whether the object it views is a
  \<open>bytes\<close> object, whether it is read-only and whether it is C-contiguous. Views have
  one dimension. \<open>PyOther (Some bs)\<close> is any other exporter of a simple buffer (an
  \<open>array.array\<close>, an \<open>mmap\<close>), \<open>PyOther None\<close> an object without the buffer interface.
\<close>

datatype pybuf =
    PyNone
  | PyBytes bytes
  | PyBytearray bytes
  | PyMemview (mv_on_bytes: bool) (mv_readonly: bool) (mv_contig: bool) (mv_itemsize: nat) (mv_mem: bytes)
  | PyOther "bytes option"

text \<open>\<open>len(obj)\<close>\<close>

fun py_len :: "pybuf \<Rightarrow> exn_class + int" where
  "py_len PyNone = Inl TypeErr"
| "py_len (PyBytes bs) = Inr (int (length bs))"
| "py_len (PyBytearray bs) = Inr (int (length bs))"
| "py_len (PyMemview _ _ _ k bs) = Inr (int (length bs div k))"
| "py_len (PyOther None) = Inl TypeErr"
| "py_len (PyOther (Some bs)) = Inr (int (length bs))"

text \<open>The logical content of the object, its items in order as bytes.\<close>

fun buf_content :: "pybuf \<Rightarrow> bytes" where
  "buf_content PyNone = []"
| "buf_content (PyBytes bs) = bs"
| "buf_content (PyBytearray bs) = bs"
| "buf_content (PyMemview _ _ _ _ bs) = bs"
| "buf_content (PyOther None) = []"
| "buf_content (PyOther (Some bs)) = bs"

definition aiofn_validate_buffer :: "pybuf \<Rightarrow> exn_class + unit" where
  "aiofn_validate_buffer b =
     (case b of PyBytes _ \<Rightarrow> Inr () | PyBytearray _ \<Rightarrow> Inr () | PyMemview _ _ _ _ _ \<Rightarrow> Inr ()
      | _ \<Rightarrow> Inl TypeErr)"

text \<open>
  "aiofn_unpack_simple_buffer": the memory between \<open>ptr\<close> and \<open>ptr + size\<close>, or the
  exception of the branch. \<open>writable\<close> is the \<open>PyBUF_WRITABLE\<close> flag.
\<close>

fun aiofn_unpack_simple_buffer :: "bool \<Rightarrow> pybuf \<Rightarrow> exn_class + bytes" where
  "aiofn_unpack_simple_buffer writable PyNone = Inr []"
| "aiofn_unpack_simple_buffer writable (PyBytes bs) =
     (if writable then Inl BufferErr else Inr bs)"
| "aiofn_unpack_simple_buffer writable (PyBytearray bs) = Inr bs"
| "aiofn_unpack_simple_buffer writable (PyMemview ob ro contig k bs) =
     (if writable \<and> ro then Inl BufferErr
      else if \<not> contig then Inl BufferErr
      else Inr bs)"
| "aiofn_unpack_simple_buffer writable (PyOther None) = Inl TypeErr"
| "aiofn_unpack_simple_buffer writable (PyOther (Some bs)) = Inr bs"

definition aiofn_maybe_copy_buffer :: "pybuf \<Rightarrow> exn_class + pybuf" where
  "aiofn_maybe_copy_buffer b =
     (case b of
        PyBytes _ \<Rightarrow> Inr b
      | PyMemview True _ _ _ _ \<Rightarrow> Inr b
      | PyNone \<Rightarrow> Inl TypeErr
      | PyOther None \<Rightarrow> Inl TypeErr
      | _ \<Rightarrow> Inr (PyBytes (buf_content b)))"

definition aiofn_validate_and_maybe_copy_buffer :: "pybuf \<Rightarrow> exn_class + pybuf" where
  "aiofn_validate_and_maybe_copy_buffer b =
     (case aiofn_validate_buffer b of Inl e \<Rightarrow> Inl e | Inr _ \<Rightarrow> aiofn_maybe_copy_buffer b)"

text \<open>
  Python's start index of a slice \<open>seq[k:]\<close> of a sequence of \<open>n\<close> items: a negative
  index counts from the end and is then clipped to the sequence.
\<close>

definition slice_start :: "int \<Rightarrow> int \<Rightarrow> int" where
  "slice_start n k = (if k < 0 then max 0 (k + n) else min k n)"

text \<open>
  "aiofn_maybe_copy_buffer_tail(buffer, ptr, sz)". The memory at \<open>ptr\<close> of \<open>sz\<close> bytes is
  the argument \<open>tail\<close>. A \<open>bytes\<close> object or a view of one is sliced from
  \<open>len(buffer) - sz\<close>, everything else is copied from the memory.
\<close>

definition aiofn_maybe_copy_buffer_tail :: "pybuf \<Rightarrow> bytes \<Rightarrow> pybuf" where
  "aiofn_maybe_copy_buffer_tail b tail =
     (let sz = int (length tail) in
      case b of
        PyBytes bs \<Rightarrow>
          PyMemview True True True 1
            (drop (nat (slice_start (int (length bs)) (int (length bs) - sz))) bs)
      | PyMemview True ro contig k bs \<Rightarrow>
          (let n = int (length bs div k) in
           PyMemview True ro contig k (drop (nat (slice_start n (n - sz)) * k) bs))
      | _ \<Rightarrow> PyBytes tail)"

section \<open>Properties\<close>

text \<open>An object whose memory the caller can no longer change: it may stay in a backlog.\<close>

fun immutable_buf :: "pybuf \<Rightarrow> bool" where
  "immutable_buf (PyBytes _) = True"
| "immutable_buf (PyMemview ob _ _ _ _) = ob"
| "immutable_buf _ = False"

text \<open>Byte-sized items: the case the tail computation is written for.\<close>

fun byte_items :: "pybuf \<Rightarrow> bool" where
  "byte_items (PyMemview True _ _ k _) = (k = 1)"
| "byte_items _ = True"

lemma maybe_copy_immutable:
  "aiofn_maybe_copy_buffer b = Inr b' \<Longrightarrow> immutable_buf b'"
  by (auto simp: aiofn_maybe_copy_buffer_def split: pybuf.splits bool.splits option.splits)

lemma maybe_copy_content:
  "aiofn_maybe_copy_buffer b = Inr b' \<Longrightarrow> buf_content b' = buf_content b"
  by (auto simp: aiofn_maybe_copy_buffer_def split: pybuf.splits bool.splits option.splits)

lemma unpack_content:
  "aiofn_unpack_simple_buffer wr b = Inr bs \<Longrightarrow> bs = buf_content b"
  by (cases "(wr, b)" rule: aiofn_unpack_simple_buffer.cases) (auto split: if_splits)

lemma unpack_ok_class:
  "aiofn_unpack_simple_buffer wr b = Inl e \<Longrightarrow> e = BufferErr \<or> e = TypeErr"
  by (cases "(wr, b)" rule: aiofn_unpack_simple_buffer.cases) (auto split: if_splits)

lemma maybe_copy_unpack:
  assumes "aiofn_unpack_simple_buffer False b = Inr bs" and "b \<noteq> PyNone"
  shows "\<exists>b'. aiofn_maybe_copy_buffer b = Inr b' \<and> aiofn_unpack_simple_buffer False b' = Inr bs"
  using assms
  by (cases "(False, b)" rule: aiofn_unpack_simple_buffer.cases)
     (auto simp: aiofn_maybe_copy_buffer_def split: bool.splits if_splits)

lemma tail_immutable: "immutable_buf (aiofn_maybe_copy_buffer_tail b tail)"
  by (auto simp: aiofn_maybe_copy_buffer_tail_def Let_def split: pybuf.splits bool.splits)

lemma slice_start_tail: "n \<le> m \<Longrightarrow> slice_start (int m) (int m - int (m - n)) = int n"
  by (auto simp: slice_start_def)

lemma tail_content:
  assumes "byte_items b" and "aiofn_unpack_simple_buffer False b = Inr bs" and "n \<le> length bs"
  shows "aiofn_unpack_simple_buffer False (aiofn_maybe_copy_buffer_tail b (drop n bs)) = Inr (drop n bs)"
proof -
  have s: "nat (slice_start (int (length bs)) (int (length bs) - int (length (drop n bs)))) = n"
    using slice_start_tail [OF assms(3)] by simp
  show ?thesis
    using assms(1,2) s
    by (cases b) (auto simp: aiofn_maybe_copy_buffer_tail_def Let_def split: if_splits bool.splits)
qed

lemma tail_byte_items: "byte_items b \<Longrightarrow> byte_items (aiofn_maybe_copy_buffer_tail b tail)"
  by (cases b) (auto simp: aiofn_maybe_copy_buffer_tail_def Let_def split: bool.splits)

lemma maybe_copy_byte_items:
  "byte_items b \<Longrightarrow> aiofn_maybe_copy_buffer b = Inr b' \<Longrightarrow> byte_items b'"
  by (auto simp: aiofn_maybe_copy_buffer_def split: pybuf.splits bool.splits option.splits)

lemma tail_content_general:
  \<comment> \<open>With any item size, the stored tail is a suffix of the data and never too short.\<close>
  assumes "aiofn_unpack_simple_buffer False b = Inr bs" and "n \<le> length bs"
    and "b = PyMemview True ro True k bs" "0 < k" "k dvd length bs" "k dvd n"
  shows "buf_content (aiofn_maybe_copy_buffer_tail b (drop n bs)) =
           drop (nat (slice_start (int (length bs div k))
                       (int (length bs div k) - int (length bs - n))) * k) bs"
  using assms by (simp add: aiofn_maybe_copy_buffer_tail_def Let_def)

lemma slice_tail_short:
  \<comment> \<open>The slice of a non-empty tail is not empty, whatever the item size.\<close>
  fixes l j :: nat
  assumes "0 < l" "0 < sz"
  shows "nat (slice_start (int (l div j)) (int (l div j) - int sz)) * j < l"
proof -
  define n where "n = l div j"
  have s: "nat (slice_start (int n) (int n - int sz)) < n \<or>
           nat (slice_start (int n) (int n - int sz)) = 0"
    using assms(2) by (auto simp: slice_start_def)
  have "i * j < l" if "i < n" for i
  proof -
    have "0 < j" using that n_def by (cases j) auto
    then have "i * j < n * j" using that by simp
    also have "\<dots> \<le> l" by (simp add: n_def)
    finally show ?thesis .
  qed
  with s assms(1) show ?thesis unfolding n_def [symmetric] by auto
qed

lemma tail_nonempty_content:
  assumes "aiofn_unpack_simple_buffer False d = Inr m" "n < length m"
    and "aiofn_unpack_simple_buffer False (aiofn_maybe_copy_buffer_tail d (drop n m)) = Inr r"
  shows "r \<noteq> []"
proof -
  have "0 < length m" "0 < length (drop n m)" using assms(2) by auto
  note short = slice_tail_short [OF this]
  from short [of 1] short [of "mv_itemsize d"] assms show ?thesis
    by (cases d) (auto simp: aiofn_maybe_copy_buffer_tail_def Let_def not_le
        split: if_splits bool.splits)
qed

end
