(* ===== verification/Syscalls.thy ===== *)
theory Syscalls
  imports Prelude
begin

text \<open>
  The retry loops around the socket system calls (utils.pyx, "aiofn_read" to
  "aiofn_writev"), on a POSIX build. The kernel is a parameter: the list of outcomes it
  will produce for the coming calls on the descriptor. An exhausted list answers
  \<open>EAGAIN\<close>. Documented behaviour of the kernel that the model builds in: a send accepts at
  most the bytes it was given; a receive returns at most the bytes asked for and leaves
  the rest of a stream chunk for the next call.

  The functions return the value the C code returns (-1 for "would block") or the
  exception it sets, with the outcomes left.
\<close>

section \<open>errno\<close>

definition EINTR :: int where "EINTR = 4"
definition EIO :: int where "EIO = 5"
definition EAGAIN :: int where "EAGAIN = 11"
definition EWOULDBLOCK :: int where "EWOULDBLOCK = 11"
definition EPIPE :: int where "EPIPE = 32"
definition ENOBUFS :: int where "ENOBUFS = 105"
definition ENFILE :: int where "ENFILE = 23"
definition EMFILE :: int where "EMFILE = 24"
definition ENOMEM :: int where "ENOMEM = 12"
definition ECONNABORTED :: int where "ECONNABORTED = 103"
definition ECONNRESET :: int where "ECONNRESET = 104"
definition EINPROGRESS :: int where "EINPROGRESS = 115"
definition EALREADY :: int where "EALREADY = 114"
definition EADDRINUSE :: int where "EADDRINUSE = 98"
definition EADDRNOTAVAIL :: int where "EADDRNOTAVAIL = 99"
definition ENOENT :: int where "ENOENT = 2"

lemmas errno_defs =
  EINTR_def EIO_def EAGAIN_def EWOULDBLOCK_def EPIPE_def ENOBUFS_def ENFILE_def EMFILE_def
  ENOMEM_def ECONNABORTED_def ECONNRESET_def EINPROGRESS_def EALREADY_def EADDRINUSE_def
  EADDRNOTAVAIL_def ENOENT_def

definition ConnectionResetError :: exn_class where "ConnectionResetError = OSErr ECONNRESET"
definition ConnectionAbortedError :: exn_class where "ConnectionAbortedError = OSErr ECONNABORTED"
definition BrokenPipeError :: exn_class where "BrokenPipeError = OSErr EPIPE"

lemmas os_error_defs = ConnectionResetError_def ConnectionAbortedError_def BrokenPipeError_def

definition is_blocking_io :: "exn_class \<Rightarrow> bool" where
  \<comment> \<open>\<open>BlockingIOError\<close>: EAGAIN, EWOULDBLOCK, EALREADY, EINPROGRESS\<close>
  "is_blocking_io c = (c \<in> {OSErr EAGAIN, OSErr EWOULDBLOCK, OSErr EALREADY, OSErr EINPROGRESS})"

definition is_interrupted :: "exn_class \<Rightarrow> bool" where
  "is_interrupted c = (c = OSErr EINTR)"

section \<open>Sending\<close>

datatype sysret = SysOk nat | SysErr int

definition would_block :: "int \<Rightarrow> bool" where
  "would_block e = (e \<in> {EWOULDBLOCK, EAGAIN})"

fun aiofn_write :: "sysret list \<Rightarrow> nat \<Rightarrow> (exn_class + int) \<times> sysret list" where
  "aiofn_write [] len = (Inr (-1), [])"
| "aiofn_write (SysOk n # rs) len =
     (if 0 < min n len then (Inr (int (min n len)), rs) else (Inl RuntimeErr, rs))"
| "aiofn_write (SysErr e # rs) len =
     (if would_block e then (Inr (-1), rs)
      else if e = EINTR then aiofn_write rs len
      else (Inl (OSErr e), rs))"

text \<open>"aiofn_writev" has the same loop over the total length of the buffers.\<close>

fun aiofn_writev :: "sysret list \<Rightarrow> nat list \<Rightarrow> (exn_class + int) \<times> sysret list" where
  "aiofn_writev [] lens = (Inr (-1), [])"
| "aiofn_writev (SysOk n # rs) lens =
     (if 0 < min n (sum_list lens) then (Inr (int (min n (sum_list lens))), rs)
      else (Inl RuntimeErr, rs))"
| "aiofn_writev (SysErr e # rs) lens =
     (if would_block e then (Inr (-1), rs)
      else if e = EINTR then aiofn_writev rs lens
      else (Inl (OSErr e), rs))"

text \<open>"aiofn_sendto": a datagram is sent whole, and zero bytes are no error.\<close>

fun aiofn_sendto :: "sysret list \<Rightarrow> nat \<Rightarrow> (exn_class + int) \<times> sysret list" where
  "aiofn_sendto [] len = (Inr (-1), [])"
| "aiofn_sendto (SysOk n # rs) len = (Inr (int len), rs)"
| "aiofn_sendto (SysErr e # rs) len =
     (if would_block e then (Inr (-1), rs)
      else if e = EINTR then aiofn_sendto rs len
      else (Inl (OSErr e), rs))"

section \<open>Receiving\<close>

datatype 'a recvret = RecvOk bytes 'a | RecvErr int

text \<open>A stream: the data of an outcome that did not fit stays at the head of the list.\<close>

fun aiofn_read :: "unit recvret list \<Rightarrow> nat \<Rightarrow> (exn_class + bytes option) \<times> unit recvret list" where
  "aiofn_read [] len = (Inr None, [])"
| "aiofn_read (RecvOk bs u # rs) len =
     (Inr (Some (take len bs)), (if length bs \<le> len then rs else RecvOk (drop len bs) u # rs))"
| "aiofn_read (RecvErr e # rs) len =
     (if would_block e then (Inr None, rs)
      else if e = EINTR then aiofn_read rs len
      else (Inl (OSErr e), rs))"

text \<open>
  The result \<open>None\<close> stands for -1, \<open>Some []\<close> for 0 (end of file). "aiofn_simple_read" allocates a
  bytes object of the maximal size, reads into it and shrinks it to what was read.
\<close>

definition aiofn_simple_read ::
  "unit recvret list \<Rightarrow> nat \<Rightarrow> (exn_class + (bytes \<times> int)) \<times> unit recvret list" where
  "aiofn_simple_read rs max_size =
     (case aiofn_read rs max_size of
        (Inl e, rs') \<Rightarrow> (Inl e, rs')
      | (Inr None, rs') \<Rightarrow> (Inr ([], -1), rs')
      | (Inr (Some bs), rs') \<Rightarrow> (Inr (bs, int (length bs)), rs'))"

text \<open>A datagram that does not fit is cut and its rest is lost.\<close>

fun aiofn_recvfrom ::
  "'a recvret list \<Rightarrow> nat \<Rightarrow> (exn_class + (bytes \<times> 'a) option) \<times> 'a recvret list" where
  "aiofn_recvfrom [] len = (Inr None, [])"
| "aiofn_recvfrom (RecvOk bs a # rs) len = (Inr (Some (take len bs, a)), rs)"
| "aiofn_recvfrom (RecvErr e # rs) len =
     (if would_block e then (Inr None, rs)
      else if e = EINTR then aiofn_recvfrom rs len
      else (Inl (OSErr e), rs))"

section \<open>Properties\<close>

text \<open>The bytes a kernel outcome list still holds for a stream reader.\<close>

fun stream_of :: "unit recvret list \<Rightarrow> bytes" where
  "stream_of [] = []"
| "stream_of (RecvOk bs _ # rs) = bs @ stream_of rs"
| "stream_of (RecvErr _ # rs) = stream_of rs"

lemma stream_of_append [simp]: "stream_of (xs @ ys) = stream_of xs @ stream_of ys"
  by (induction xs rule: stream_of.induct) simp_all

lemma aiofn_write_bound:
  "aiofn_write rs len = (Inr r, rs') \<Longrightarrow> r = -1 \<or> (0 < r \<and> r \<le> int len)"
  by (induction rs len rule: aiofn_write.induct) (auto split: if_splits)

lemma aiofn_writev_is_write: "aiofn_writev rs lens = aiofn_write rs (sum_list lens)"
  by (induction rs lens rule: aiofn_writev.induct) simp_all

lemma aiofn_sendto_result:
  "aiofn_sendto rs len = (Inr r, rs') \<Longrightarrow> r = -1 \<or> r = int len"
  by (induction rs len rule: aiofn_sendto.induct) (auto split: if_splits)

lemma aiofn_write_error_class:
  "aiofn_write rs len = (Inl e, rs') \<Longrightarrow>
     e = RuntimeErr \<or> (\<exists>n. e = OSErr n \<and> \<not> would_block n \<and> n \<noteq> EINTR)"
  by (induction rs len rule: aiofn_write.induct) (auto split: if_splits)

lemma aiofn_read_length:
  "aiofn_read rs len = (Inr (Some bs), rs') \<Longrightarrow> length bs \<le> len"
  by (induction rs len rule: aiofn_read.induct) (auto split: if_splits)

lemma aiofn_read_stream:
  "aiofn_read rs len = (Inr (Some bs), rs') \<Longrightarrow> stream_of rs = bs @ stream_of rs'"
  by (induction rs len rule: aiofn_read.induct) (auto split: if_splits)

lemma aiofn_read_stream_none:
  "aiofn_read rs len = (Inr None, rs') \<Longrightarrow> stream_of rs = stream_of rs'"
  by (induction rs len rule: aiofn_read.induct) (auto split: if_splits)

lemma aiofn_read_stream_err:
  "aiofn_read rs len = (Inl e, rs') \<Longrightarrow> stream_of rs = stream_of rs' \<and> (\<exists>n. e = OSErr n)"
  by (induction rs len rule: aiofn_read.induct) (auto split: if_splits)

lemma aiofn_simple_read_stream:
  "aiofn_simple_read rs n = (Inr (bs, k), rs') \<Longrightarrow>
     stream_of rs = bs @ stream_of rs' \<and> length bs \<le> n \<and> (k = int (length bs) \<or> k = -1 \<and> bs = [])"
  by (auto simp: aiofn_simple_read_def dest: aiofn_read_stream aiofn_read_stream_none aiofn_read_length
           split: prod.splits sum.splits option.splits)

text \<open>Every call only consumes outcomes.\<close>

lemma aiofn_write_outcomes: "set (snd (aiofn_write rs len)) \<subseteq> set rs"
  by (induction rs len rule: aiofn_write.induct) auto

lemma aiofn_write_zero:
  "aiofn_write rs len = (Inl RuntimeErr, rs') \<Longrightarrow> 0 < len \<Longrightarrow> SysOk 0 \<in> set rs"
  by (induction rs len rule: aiofn_write.induct) (auto split: if_splits)

end
