(* ===== verification/Sockaddr.thy ===== *)
theory Sockaddr
  imports Prelude
begin

unbundle bit_operations_syntax

text \<open>
  Conversion between Python addresses and raw socket addresses (utils.pyx,
  "aiofn_set_ipv4_sockaddr" to "aiofn_sockaddr_to_pyaddr" and "aiofn_pyaddr_to_sockaddr"), on
  a little-endian POSIX build. \<open>inet_pton\<close> and \<open>inet_ntop\<close> are the C library's, arguments
  of the model; \<open>None\<close> is their failure. A \<open>str\<close> is the list of the bytes of its file
  system (UTF-8) encoding.
\<close>

section \<open>Values\<close>

datatype pyelem = ElStr string | ElInt int | ElOther

datatype pyaddr =
    AddrNone
  | AddrStr string
  | AddrBytes bytes
  | AddrTuple "pyelem list"
  | AddrOther

datatype family = AF_INET | AF_INET6 | AF_UNIX | AF_OTHER

text \<open>
  The raw structure: multi-byte fields hold what the C code stores, that is, network
  order. For \<open>AF_UNIX\<close> the first component is the 108 bytes of \<open>sun_path\<close>.
\<close>

datatype sockaddr =
    SaIn bytes "16 word"
  | SaIn6 bytes "16 word" "32 word" "32 word"
  | SaUn bytes
  | SaOther

definition htons :: "16 word \<Rightarrow> 16 word" where
  "htons w = (push_bit 8 w) OR (drop_bit 8 w)"

definition htonl :: "32 word \<Rightarrow> 32 word" where
  "htonl w = push_bit 24 (take_bit 8 w) OR push_bit 16 (take_bit 8 (drop_bit 8 w)) OR
             push_bit 8 (take_bit 8 (drop_bit 16 w)) OR take_bit 8 (drop_bit 24 w)"

definition os_fsencode :: "string \<Rightarrow> bytes" where
  "os_fsencode s = map (\<lambda>c. word_of_nat (of_char c)) s"

definition os_fsdecode :: "bytes \<Rightarrow> string" where
  "os_fsdecode bs = map (\<lambda>b. char_of (unat b)) bs"

definition c_string :: "string \<Rightarrow> string" where
  \<comment> \<open>what a C function reads of the UTF-8 pointer: everything before the first NUL\<close>
  "c_string s = takeWhile (\<lambda>c. c \<noteq> CHR 0x00) s"

section \<open>From Python\<close>

definition long_max :: int where "long_max = 2 ^ 63 - 1"

fun to_long :: "pyelem \<Rightarrow> int option" where
  "to_long (ElInt n) = (if - long_max - 1 \<le> n \<and> n \<le> long_max then Some n else None)"
| "to_long _ = None"

definition aiofn_set_ipv4_sockaddr ::
  "(family \<Rightarrow> string \<Rightarrow> bytes option) \<Rightarrow> string \<Rightarrow> int \<Rightarrow> (sockaddr \<times> int) option" where
  "aiofn_set_ipv4_sockaddr pton host port =
     (case pton AF_INET (c_string host) of
        None \<Rightarrow> None
      | Some a \<Rightarrow> Some (SaIn a (htons (word_of_int port)), 16))"

definition aiofn_set_ipv6_sockaddr ::
  "(family \<Rightarrow> string \<Rightarrow> bytes option) \<Rightarrow> string \<Rightarrow> int \<Rightarrow> int \<Rightarrow> int \<Rightarrow> (sockaddr \<times> int) option" where
  "aiofn_set_ipv6_sockaddr pton host port flowinfo scope_id =
     (case pton AF_INET6 (c_string host) of
        None \<Rightarrow> None
      | Some a \<Rightarrow>
          Some (SaIn6 a (htons (word_of_int port)) (htonl (word_of_int flowinfo))
                  (word_of_int scope_id), 28))"

definition sun_path_offset :: int where "sun_path_offset = 2"
definition sun_path_size :: nat where "sun_path_size = 108"

definition aiofn_set_unix_sockaddr :: "bytes \<Rightarrow> exn_class + sockaddr \<times> int" where
  "aiofn_set_unix_sockaddr path =
     (let pathlen = length path; named = (0 < pathlen \<and> hd path \<noteq> 0) in
      if pathlen > sun_path_size \<or>
         (named \<and> (pathlen = sun_path_size \<or> 0 \<in> set path))
      then Inl ValueErr
      else Inr (SaUn (path @ replicate (sun_path_size - pathlen) 0),
                sun_path_offset + int pathlen + (if named then 1 else 0)))"

definition invalid_tuple_size :: "family \<Rightarrow> nat \<Rightarrow> bool" where
  "invalid_tuple_size family n =
     ((family = AF_INET \<and> n \<noteq> 2) \<or> (family = AF_INET6 \<and> n \<notin> {2, 4}))"

definition parse_numbers :: "pyelem list \<Rightarrow> exn_class + int \<times> int \<times> int" where
  "parse_numbers es =
     (case (if length es = 4
            then (to_long (es ! 1), to_long (es ! 2), to_long (es ! 3))
            else (to_long (es ! 1), Some 0, Some 0)) of
        (Some port, Some flowinfo, Some scope_id) \<Rightarrow>
          if port < 0 \<or> port > 65535 \<or> flowinfo < 0 \<or> scope_id < 0 then Inl ValueErr
          else Inr (port, flowinfo, scope_id)
      | _ \<Rightarrow> Inl ValueErr)"

definition aiofn_pyaddr_to_sockaddr ::
  "(family \<Rightarrow> string \<Rightarrow> bytes option) \<Rightarrow> family \<Rightarrow> pyaddr \<Rightarrow> exn_class + sockaddr \<times> int" where
  "aiofn_pyaddr_to_sockaddr pton family addr =
     (if family = AF_UNIX then
        (case addr of
           AddrStr s \<Rightarrow> aiofn_set_unix_sockaddr (os_fsencode s)
         | AddrBytes bs \<Rightarrow> aiofn_set_unix_sockaddr bs
         | _ \<Rightarrow> Inl TypeErr)
      else
        (case addr of
           AddrTuple es \<Rightarrow>
             if invalid_tuple_size family (length es) then Inl ValueErr
             else if family \<notin> {AF_INET, AF_INET6} then Inl ValueErr
             else
               (case es ! 0 of
                  ElStr host \<Rightarrow>
                    (case parse_numbers es of
                       Inl e \<Rightarrow> Inl e
                     | Inr (port, flowinfo, scope_id) \<Rightarrow>
                         (case (if family = AF_INET
                                then aiofn_set_ipv4_sockaddr pton host port
                                else aiofn_set_ipv6_sockaddr pton host port flowinfo scope_id) of
                            None \<Rightarrow> Inl DNSLookupRequired
                          | Some r \<Rightarrow> Inr r))
                | _ \<Rightarrow> Inl ValueErr)
         | _ \<Rightarrow> Inl TypeErr))"

section \<open>To Python\<close>

definition aiofn_strnlen :: "bytes \<Rightarrow> nat \<Rightarrow> nat" where
  "aiofn_strnlen value maxlen = length (takeWhile (\<lambda>b. b \<noteq> 0) (take maxlen value))"

definition aiofn_sockaddr_to_pyaddr ::
  "(family \<Rightarrow> bytes \<Rightarrow> string option) \<Rightarrow> int \<Rightarrow> sockaddr \<Rightarrow> int \<Rightarrow> exn_class + pyaddr" where
  \<comment> \<open>the second argument is the errno of a failing \<open>inet_ntop\<close>; "i" formats a C int\<close>
  "aiofn_sockaddr_to_pyaddr ntop err sa addrlen =
     (case sa of
        SaIn a port \<Rightarrow>
          (case ntop AF_INET a of
             None \<Rightarrow> Inl (OSErr err)
           | Some host \<Rightarrow> Inr (AddrTuple [ElStr host, ElInt (uint (htons port))]))
      | SaIn6 a port flowinfo scope_id \<Rightarrow>
          (case ntop AF_INET6 a of
             None \<Rightarrow> Inl (OSErr err)
           | Some host \<Rightarrow>
               Inr (AddrTuple [ElStr host, ElInt (uint (htons port)),
                               ElInt (sint (htonl flowinfo)), ElInt (sint scope_id)]))
      | SaUn path \<Rightarrow>
          (let pathlen = (if addrlen > sun_path_offset then nat (addrlen - sun_path_offset) else 0) in
           if pathlen = 0 then Inr (AddrStr '''')
           else if hd path = 0 then Inr (AddrBytes (take pathlen path))
           else Inr (AddrStr (os_fsdecode (take (aiofn_strnlen path pathlen) path))))
      | SaOther \<Rightarrow> Inr AddrNone)"

section \<open>Properties\<close>

lemma htons_htons [simp]: "htons (htons w) = w"
  by (rule bit_word_eqI) (auto simp: htons_def bit_simps)

lemma bit_htonl:
  "bit (htonl w) n \<longleftrightarrow>
     (if n < 8 then bit w (n + 24) else if n < 16 then bit w (n + 8)
      else if n < 24 then bit w (n - 8) else n < 32 \<and> bit w (n - 24))"
  unfolding htonl_def bit_or_iff bit_push_bit_iff bit_take_bit_iff bit_drop_bit_eq o_def
  by (cases "n < 8"; cases "n < 16"; cases "n < 24"; cases "n < 32")
     (auto simp: possible_bit_def add.commute bit_word_def dest: bit_imp_le_length)

lemma htonl_htonl [simp]: "htonl (htonl w) = w"
proof (rule bit_word_eqI)
  fix n
  assume n: "n < LENGTH(32)"
  consider "n < 8" | "8 \<le> n" "n < 16" | "16 \<le> n" "n < 24" | "24 \<le> n" "n < 32"
    using n by fastforce
  then show "bit (htonl (htonl w)) n = bit w n"
    by cases (auto simp: bit_htonl)
qed

lemma os_fsdecode_fsencode [simp]: "os_fsdecode (os_fsencode s) = s"
proof -
  have c: "char_of (unat (word_of_nat (of_char c) :: byte)) = c" for c
  proof -
    have "of_char c < (2::nat) ^ 8" by (simp add: of_char_def)
    then have "unat (word_of_nat (of_char c) :: byte) = of_char c"
      by (simp add: unat_of_nat take_bit_nat_eq_self)
    then show ?thesis by simp
  qed
  show ?thesis by (simp add: os_fsdecode_def os_fsencode_def o_def c)
qed

lemma port_word: "0 \<le> p \<Longrightarrow> p \<le> 65535 \<Longrightarrow> uint (word_of_int p :: 16 word) = p"
  by (simp add: uint_word_of_int)

lemma small_sint: "0 \<le> n \<Longrightarrow> n < 2 ^ 31 \<Longrightarrow> sint (word_of_int n :: 32 word) = n"
  by (simp add: sint_sbintrunc' signed_take_bit_int_eq_self)

lemma inet6_roundtrip_words:
  assumes "aiofn_pyaddr_to_sockaddr pton AF_INET6
             (AddrTuple [ElStr h, ElInt p, ElInt f, ElInt s]) = Inr (sa, n)"
    and "\<And>a. pton AF_INET6 (c_string h) = Some a \<Longrightarrow> ntop AF_INET6 a = Some h'"
  shows "aiofn_sockaddr_to_pyaddr ntop err sa n =
           Inr (AddrTuple [ElStr h', ElInt p, ElInt (sint (word_of_int f :: 32 word)),
                           ElInt (sint (word_of_int s :: 32 word))])"
  using assms
  by (auto simp: aiofn_pyaddr_to_sockaddr_def aiofn_sockaddr_to_pyaddr_def invalid_tuple_size_def
      parse_numbers_def aiofn_set_ipv6_sockaddr_def port_word
      split: if_splits option.splits sum.splits)

lemma inet4_roundtrip:
  assumes "aiofn_pyaddr_to_sockaddr pton AF_INET (AddrTuple [ElStr h, ElInt p]) = Inr (sa, n)"
    and "\<And>a. pton AF_INET (c_string h) = Some a \<Longrightarrow> ntop AF_INET a = Some h'"
  shows "aiofn_sockaddr_to_pyaddr ntop err sa n = Inr (AddrTuple [ElStr h', ElInt p])"
  using assms
  by (auto simp: aiofn_pyaddr_to_sockaddr_def aiofn_sockaddr_to_pyaddr_def invalid_tuple_size_def
      parse_numbers_def aiofn_set_ipv4_sockaddr_def port_word
      split: if_splits option.splits sum.splits)

lemma strnlen_padded:
  assumes "0 \<notin> set path"
  shows "take (aiofn_strnlen (path @ replicate k 0) (length path + Suc 0)) (path @ replicate k 0) = path"
proof -
  have "takeWhile (\<lambda>b. b \<noteq> 0) (path @ replicate j 0) = path" for j
    using assms by (subst takeWhile_append2) (auto simp: takeWhile_replicate)
  then show ?thesis by (simp add: aiofn_strnlen_def take_replicate min_def)
qed

lemma unix_str_roundtrip:
  assumes "aiofn_set_unix_sockaddr path = Inr (sa, n)" and "path \<noteq> []" "hd path \<noteq> 0"
  shows "aiofn_sockaddr_to_pyaddr ntop err sa n = Inr (AddrStr (os_fsdecode path))"
proof -
  from assms have l: "length path < sun_path_size" "0 \<notin> set path"
    and sa: "sa = SaUn (path @ replicate (sun_path_size - length path) 0)"
    and n: "n = sun_path_offset + int (length path) + 1"
    by (auto simp: aiofn_set_unix_sockaddr_def Let_def split: if_splits)
  have "nat (n - sun_path_offset) = length path + Suc 0" using n by simp
  then show ?thesis
    using assms(2,3) l strnlen_padded [OF l(2)] n
    by (simp add: sa aiofn_sockaddr_to_pyaddr_def)
qed

lemma unix_bytes_roundtrip:
  assumes "aiofn_set_unix_sockaddr path = Inr (sa, n)" and "path \<noteq> []" "hd path = 0"
  shows "aiofn_sockaddr_to_pyaddr ntop err sa n = Inr (AddrBytes path)"
  using assms
  by (auto simp: aiofn_set_unix_sockaddr_def aiofn_sockaddr_to_pyaddr_def Let_def split: if_splits)

lemma unix_unnamed_roundtrip:
  "aiofn_set_unix_sockaddr [] = Inr (sa, n) \<Longrightarrow>
     aiofn_sockaddr_to_pyaddr ntop err sa n = Inr (AddrStr [])"
  by (auto simp: aiofn_set_unix_sockaddr_def aiofn_sockaddr_to_pyaddr_def Let_def split: if_splits)

end
