(* ===== verification/World.thy ===== *)
theory World
  imports Buffers Syscalls Sockaddr
begin

text \<open>
  What a transport sees around it: the event loop (reader and writer registrations of its
  descriptor, the queue of \<open>call_soon\<close> callbacks, futures, the exception handler), the
  kernel side of the descriptor, the files, and the application's protocol objects. The
  event loop and the application are not code of the repository: the loop is these
  records and the few operations below, the application is a function from protocol
  identities to records of programs (\<open>app\<close>), which run on the same world and may call
  the transport again.

  \<open>trace\<close> logs, oldest first, every call the transport makes into the application, the
  exception handler, the server and the log. \<open>ObBufferUpdated\<close> carries the bytes that the
  application finds at the start of its buffer. Debug-only logging is left out.
\<close>

section \<open>Observations and the event loop\<close>

text \<open>The object passed under the key \<open>transport\<close> of an exception handler context.\<close>

datatype handler_ctx = CtxTransport | CtxWatermarks | CtxServer

datatype obs =
    ObConnectionMade
  | ObConnectionLost "exn option"
  | ObDataReceived bytes
  | ObEofReceived
  | ObGetBuffer
  | ObBufferUpdated bytes
  | ObPauseWriting
  | ObResumeWriting
  | ObDatagramReceived bytes pyaddr
  | ObErrorReceived exn
  | ObExceptionHandler string exn handler_ctx
  | ObServerDetach
  | ObLogWarning string

datatype soon =
    SoonConnectionMade
  | SoonAddReader
  | SoonSetResult nat
  | SoonFinalizeClose "exn option"
  | SoonRetrySslRead
  | SoonReadReady
  | SoonBufferUpdated
  | SoonConnectionLost "nat option" "exn option"

datatype future = FutPending | FutResult | FutException exn | FutCancelled

record pyworld =
  thread_now :: nat
  reader_on :: bool
  writer_on :: bool
  soon :: "soon list"
  trace :: "obs list"
  k_send :: "sysret list"
  k_recv :: "unit recvret list"
  wire :: bytes
  shutdown_wr :: bool
  shutdown_result :: "int option"
  files :: "int \<Rightarrow> bytes option"
  futures :: "future list"

definition log :: "obs \<Rightarrow> ('a pyworld_scheme, unit) prog" where
  "log ob = upd (\<lambda>w. w\<lparr>trace := trace w @ [ob]\<rparr>)"

definition call_soon :: "soon \<Rightarrow> ('a pyworld_scheme, unit) prog" where
  "call_soon s = upd (\<lambda>w. w\<lparr>soon := soon w @ [s]\<rparr>)"

definition call_exception_handler ::
  "string \<Rightarrow> exn \<Rightarrow> handler_ctx \<Rightarrow> ('a pyworld_scheme, unit) prog" where
  "call_exception_handler msg e ctx = log (ObExceptionHandler msg e ctx)"

definition add_reader :: "('a pyworld_scheme, unit) prog" where
  "add_reader = upd (\<lambda>w. w\<lparr>reader_on := True\<rparr>)"

definition remove_reader :: "('a pyworld_scheme, unit) prog" where
  "remove_reader = upd (\<lambda>w. w\<lparr>reader_on := False\<rparr>)"

definition add_writer :: "('a pyworld_scheme, unit) prog" where
  "add_writer = upd (\<lambda>w. w\<lparr>writer_on := True\<rparr>)"

definition remove_writer :: "('a pyworld_scheme, unit) prog" where
  "remove_writer = upd (\<lambda>w. w\<lparr>writer_on := False\<rparr>)"

text \<open>A future is its index; \<open>done()\<close> is "not pending".\<close>

definition create_future :: "('a pyworld_scheme, nat) prog" where
  "create_future w = (Inr (length (futures w)), w\<lparr>futures := futures w @ [FutPending]\<rparr>)"

definition fut_done :: "nat \<Rightarrow> 'a pyworld_scheme \<Rightarrow> bool" where
  "fut_done i w = (i < length (futures w) \<and> futures w ! i \<noteq> FutPending)"

definition fut_set :: "nat \<Rightarrow> future \<Rightarrow> ('a pyworld_scheme, unit) prog" where
  \<comment> \<open>\<open>set_result\<close> and \<open>set_exception\<close> raise \<open>InvalidStateError\<close> on a future that is done\<close>
  "fut_set i s =
     cond (fut_done i) (raise InvalidStateErr) (upd (\<lambda>w. w\<lparr>futures := (futures w)[i := s]\<rparr>))"

definition fut_cancel :: "nat \<Rightarrow> ('a pyworld_scheme, unit) prog" where
  "fut_cancel i = unless (fut_done i) (upd (\<lambda>w. w\<lparr>futures := (futures w)[i := FutCancelled]\<rparr>))"

definition aiofn_set_result_unless_cancelled :: "nat \<Rightarrow> ('a pyworld_scheme, unit) prog" where
  "aiofn_set_result_unless_cancelled i =
     unless (\<lambda>w. i < length (futures w) \<and> futures w ! i = FutCancelled) (fut_set i FutResult)"

section \<open>System calls on the descriptor\<close>

text \<open>
  One call of the kernel wrappers, with the bytes it accepted appended to \<open>wire\<close>. The
  write result is the C value: the number of bytes, or -1.
\<close>

definition sys_write :: "bytes \<Rightarrow> ('a pyworld_scheme, int) prog" where
  "sys_write bs w =
     (case aiofn_write (k_send w) (length bs) of
        (Inl c, ks) \<Rightarrow> (Inl (exn_of c), w\<lparr>k_send := ks\<rparr>)
      | (Inr n, ks) \<Rightarrow> (Inr n, w\<lparr>k_send := ks, wire := wire w @ take (nat n) bs\<rparr>))"

definition sys_writev :: "bytes list \<Rightarrow> ('a pyworld_scheme, int) prog" where
  "sys_writev bss w =
     (case aiofn_writev (k_send w) (map length bss) of
        (Inl c, ks) \<Rightarrow> (Inl (exn_of c), w\<lparr>k_send := ks\<rparr>)
      | (Inr n, ks) \<Rightarrow> (Inr n, w\<lparr>k_send := ks, wire := wire w @ take (nat n) (concat bss)\<rparr>))"

text \<open>
  \<open>os.sendfile(out, in, offset, count)\<close>: Python retries \<open>EINTR\<close> itself; the bytes of the
  file from \<open>offset\<close> that the kernel takes go to the wire, and past the end of the file
  the call returns 0.
\<close>

fun sendfile_ret :: "sysret list \<Rightarrow> nat \<Rightarrow> (exn_class + nat) \<times> sysret list" where
  "sendfile_ret [] len = (Inl (OSErr EAGAIN), [])"
| "sendfile_ret (SysOk n # rs) len = (Inr (min n len), rs)"
| "sendfile_ret (SysErr e # rs) len =
     (if e = EINTR then sendfile_ret rs len else (Inl (OSErr e), rs))"

definition file_bytes :: "'a pyworld_scheme \<Rightarrow> int \<Rightarrow> bytes" where
  "file_bytes w fd = (case files w fd of None \<Rightarrow> [] | Some bs \<Rightarrow> bs)"

definition os_sendfile :: "int \<Rightarrow> int \<Rightarrow> int \<Rightarrow> ('a pyworld_scheme, int) prog" where
  "os_sendfile fd offset count w =
     (let avail = take (nat count) (drop (nat offset) (file_bytes w fd)) in
      case sendfile_ret (k_send w) (length avail) of
        (Inl c, ks) \<Rightarrow> (Inl (exn_of c), w\<lparr>k_send := ks\<rparr>)
      | (Inr n, ks) \<Rightarrow> (Inr (int n), w\<lparr>k_send := ks, wire := wire w @ take n avail\<rparr>))"

definition sys_read :: "nat \<Rightarrow> ('a pyworld_scheme, bytes option) prog" where
  "sys_read len w =
     (case aiofn_read (k_recv w) len of
        (Inl c, ks) \<Rightarrow> (Inl (exn_of c), w\<lparr>k_recv := ks\<rparr>)
      | (Inr r, ks) \<Rightarrow> (Inr r, w\<lparr>k_recv := ks\<rparr>))"

definition sys_simple_read :: "nat \<Rightarrow> ('a pyworld_scheme, bytes \<times> int) prog" where
  "sys_simple_read len w =
     (case aiofn_simple_read (k_recv w) len of
        (Inl c, ks) \<Rightarrow> (Inl (exn_of c), w\<lparr>k_recv := ks\<rparr>)
      | (Inr r, ks) \<Rightarrow> (Inr r, w\<lparr>k_recv := ks\<rparr>))"

definition sock_shutdown_wr :: "('a pyworld_scheme, unit) prog" where
  \<comment> \<open>\<open>sock.shutdown(SHUT_WR)\<close>; \<open>shutdown_result\<close> is the errno it fails with, if any\<close>
  "sock_shutdown_wr w =
     (case shutdown_result w of
        Some e \<Rightarrow> (Inl (exn_of (OSErr e)), w)
      | None \<Rightarrow> (Inr (), w\<lparr>shutdown_wr := True\<rparr>))"

section \<open>Applications\<close>

record 'w app =
  app_buffered :: bool
  app_aiofn :: bool
  on_connection_made :: "('w, unit) prog"
  on_connection_lost :: "exn option \<Rightarrow> ('w, unit) prog"
  on_data_received :: "bytes \<Rightarrow> ('w, unit) prog"
  on_eof_received :: "('w, bool) prog"
  on_get_buffer :: "int \<Rightarrow> ('w, pybuf) prog"
  on_buffer_updated :: "int \<Rightarrow> ('w, unit) prog"
  on_pause_writing :: "('w, unit) prog"
  on_resume_writing :: "('w, unit) prog"
  on_datagram_received :: "bytes \<Rightarrow> pyaddr \<Rightarrow> ('w, unit) prog"
  on_error_received :: "exn \<Rightarrow> ('w, unit) prog"
  on_local_write_buffer_size :: "('w, int) prog"

text \<open>Every callback of the application moves the world by \<open>R\<close> only.\<close>

definition app_in :: "('w \<Rightarrow> 'w \<Rightarrow> bool) \<Rightarrow> 'w app \<Rightarrow> bool" where
  "app_in R a =
     (steps_in R (on_connection_made a) \<and> (\<forall>e. steps_in R (on_connection_lost a e)) \<and>
      (\<forall>d. steps_in R (on_data_received a d)) \<and> steps_in R (on_eof_received a) \<and>
      (\<forall>n. steps_in R (on_get_buffer a n)) \<and> (\<forall>n. steps_in R (on_buffer_updated a n)) \<and>
      steps_in R (on_pause_writing a) \<and> steps_in R (on_resume_writing a) \<and>
      (\<forall>d ad. steps_in R (on_datagram_received a d ad)) \<and> (\<forall>e. steps_in R (on_error_received a e)) \<and>
      steps_in R (on_local_write_buffer_size a))"

definition apps_in :: "('w \<Rightarrow> 'w \<Rightarrow> bool) \<Rightarrow> (nat \<Rightarrow> 'w app) \<Rightarrow> bool" where
  "apps_in R apps = (\<forall>p. app_in R (apps p))"

lemma apps_inD:
  assumes "apps_in R apps"
  shows "steps_in R (on_connection_made (apps p))" "steps_in R (on_connection_lost (apps p) e)"
    "steps_in R (on_data_received (apps p) d)" "steps_in R (on_eof_received (apps p))"
    "steps_in R (on_get_buffer (apps p) n)" "steps_in R (on_buffer_updated (apps p) n)"
    "steps_in R (on_pause_writing (apps p))" "steps_in R (on_resume_writing (apps p))"
    "steps_in R (on_datagram_received (apps p) d ad)" "steps_in R (on_error_received (apps p) e')"
    "steps_in R (on_local_write_buffer_size (apps p))"
  using assms by (auto simp: apps_in_def app_in_def)

text \<open>The application that does nothing: no reentrancy.\<close>

definition idle_app :: "'w app" where
  "idle_app = \<lparr>app_buffered = False, app_aiofn = False, on_connection_made = ret (),
     on_connection_lost = (\<lambda>_. ret ()), on_data_received = (\<lambda>_. ret ()),
     on_eof_received = ret False, on_get_buffer = (\<lambda>_. ret (PyBytearray (replicate 4 0))),
     on_buffer_updated = (\<lambda>_. ret ()), on_pause_writing = ret (), on_resume_writing = ret (),
     on_datagram_received = (\<lambda>_ _. ret ()), on_error_received = (\<lambda>_. ret ()),
     on_local_write_buffer_size = ret 0\<rparr>"

lemma idle_app_in:
  assumes "step_order R"
  shows "app_in R idle_app"
  by (simp add: app_in_def idle_app_def step_order.ret_in [OF assms])

end
