(* ===== verification/Watermarks.thy ===== *)
theory Watermarks
  imports World
begin

text \<open>
  Write-buffer limits and the pause/resume handshake with the protocol (transport.pyx,
  class \<open>WriteWatermarks\<close>). The object is a field of its owner, reached through a getter
  \<open>g\<close> and an updater \<open>p\<close>, because both \<open>WritableTransport\<close> and the TLS transport own
  one. The protocol argument is the call that reaches it: \<open>None\<close> is a transport whose
  protocol was already released, on which the attribute lookup fails.
\<close>

record watermarks =
  low_water :: int
  high_water :: int
  wm_paused :: bool

definition py_ssize_max :: int where "py_ssize_max = 2 ^ 63 - 1"

definition set_write_buffer_limits_raw ::
  "int option \<Rightarrow> int option \<Rightarrow> watermarks \<Rightarrow> exn_class + watermarks" where
  "set_write_buffer_limits_raw high low wm =
     (let high' = (case high of Some h \<Rightarrow> h
                   | None \<Rightarrow> (case low of None \<Rightarrow> 64 * 1024 | Some l \<Rightarrow> 4 * l));
          low' = (case low of Some l \<Rightarrow> l | None \<Rightarrow> high' div 4)
      in if \<not> (high' \<ge> low' \<and> low' \<ge> 0) then Inl ValueErr
         else if high' > py_ssize_max then Inl OverflowErr
         else Inr (wm\<lparr>high_water := high', low_water := low'\<rparr>))"

definition watermarks_new :: watermarks where
  "watermarks_new =
     (case set_write_buffer_limits_raw None None \<lparr>low_water = 0, high_water = 0, wm_paused = False\<rparr> of
        Inl _ \<Rightarrow> \<lparr>low_water = 0, high_water = 0, wm_paused = False\<rparr>
      | Inr wm \<Rightarrow> wm)"

definition get_write_buffer_limits_raw :: "watermarks \<Rightarrow> int \<times> int" where
  "get_write_buffer_limits_raw wm = (low_water wm, high_water wm)"

text \<open>
  \<open>call_flow ob cb msg ctx\<close> is the guarded callback both directions share: exits
  propagate, everything else goes to the loop's exception handler.
\<close>

definition call_flow ::
  "obs \<Rightarrow> ('a pyworld_scheme app \<Rightarrow> ('a pyworld_scheme, unit) prog) \<Rightarrow> string \<Rightarrow> handler_ctx \<Rightarrow>
     'a pyworld_scheme app option \<Rightarrow> ('a pyworld_scheme, unit) prog" where
  "call_flow ob cb msg ctx proto =
     try_except
       (block [log ob, case proto of None \<Rightarrow> raise AttributeErr | Some a \<Rightarrow> cb a])
       (\<lambda>e. if is_exit e then reraise e else call_exception_handler msg e ctx)"

definition maybe_pause_protocol_raw ::
  "('a pyworld_scheme \<Rightarrow> watermarks) \<Rightarrow>
   ((watermarks \<Rightarrow> watermarks) \<Rightarrow> 'a pyworld_scheme \<Rightarrow> 'a pyworld_scheme) \<Rightarrow>
     'a pyworld_scheme app option \<Rightarrow> int \<Rightarrow> ('a pyworld_scheme, unit) prog" where
  "maybe_pause_protocol_raw g p proto write_buffer_size =
     unless (\<lambda>w. write_buffer_size \<le> high_water (g w))
       (unless (\<lambda>w. wm_paused (g w))
          (block [
            upd (p (\<lambda>wm. wm\<lparr>wm_paused := True\<rparr>)),
            call_flow ObPauseWriting on_pause_writing ''protocol.pause_writing() failed''
              CtxTransport proto]))"

definition maybe_resume_protocol_raw ::
  "('a pyworld_scheme \<Rightarrow> watermarks) \<Rightarrow>
   ((watermarks \<Rightarrow> watermarks) \<Rightarrow> 'a pyworld_scheme \<Rightarrow> 'a pyworld_scheme) \<Rightarrow>
     'a pyworld_scheme app option \<Rightarrow> int \<Rightarrow> ('a pyworld_scheme, unit) prog" where
  "maybe_resume_protocol_raw g p proto write_buffer_size =
     only_if (\<lambda>w. wm_paused (g w) \<and> write_buffer_size \<le> low_water (g w))
       (block [
         upd (p (\<lambda>wm. wm\<lparr>wm_paused := False\<rparr>)),
         call_flow ObResumeWriting on_resume_writing ''protocol.resume_writing() failed''
           CtxWatermarks proto])"

definition set_write_buffer_limits_wm ::
  "('a pyworld_scheme \<Rightarrow> watermarks) \<Rightarrow>
   ((watermarks \<Rightarrow> watermarks) \<Rightarrow> 'a pyworld_scheme \<Rightarrow> 'a pyworld_scheme) \<Rightarrow>
     'a pyworld_scheme app option \<Rightarrow> int \<Rightarrow> int option \<Rightarrow> int option \<Rightarrow> ('a pyworld_scheme, unit) prog" where
  "set_write_buffer_limits_wm g p proto write_buffer_size high low =
     block [
       bnd (gets (\<lambda>w. set_write_buffer_limits_raw high low (g w)))
         (\<lambda>r. bnd (lift_exn r) (\<lambda>wm. upd (p (\<lambda>_. wm)))),
       maybe_pause_protocol_raw g p proto write_buffer_size,
       maybe_resume_protocol_raw g p proto write_buffer_size]"

section \<open>Properties of the limits\<close>

definition limits_ok :: "watermarks \<Rightarrow> bool" where
  "limits_ok wm = (0 \<le> low_water wm \<and> low_water wm \<le> high_water wm \<and> high_water wm \<le> py_ssize_max)"

lemma watermarks_new_eq:
  "watermarks_new = \<lparr>low_water = 16384, high_water = 65536, wm_paused = False\<rparr>"
  by (simp add: watermarks_new_def set_write_buffer_limits_raw_def py_ssize_max_def)

lemma limits_new: "limits_ok watermarks_new"
  by (simp add: watermarks_new_eq limits_ok_def py_ssize_max_def)

lemma set_limits_ok:
  "set_write_buffer_limits_raw high low wm = Inr wm' \<Longrightarrow> limits_ok wm' \<and> wm_paused wm' = wm_paused wm"
  by (auto simp: set_write_buffer_limits_raw_def limits_ok_def Let_def split: option.splits if_splits)

lemma limits_ok_paused [simp]: "limits_ok (wm\<lparr>wm_paused := b\<rparr>) = limits_ok wm"
  by (simp add: limits_ok_def)

section \<open>The handshake alternates\<close>

text \<open>
  \<open>flow_run b tr\<close> reads a trace from "paused = b": \<open>None\<close> when two calls of the same kind
  follow each other, the final state otherwise.
\<close>

fun flow_run :: "bool \<Rightarrow> obs list \<Rightarrow> bool option" where
  "flow_run b [] = Some b"
| "flow_run b (ObPauseWriting # tr) = (if b then None else flow_run True tr)"
| "flow_run b (ObResumeWriting # tr) = (if b then flow_run False tr else None)"
| "flow_run b (ob # tr) = flow_run b tr"

lemma flow_run_append:
  "flow_run b (xs @ ys) = (case flow_run b xs of None \<Rightarrow> None | Some b' \<Rightarrow> flow_run b' ys)"
  by (induction b xs rule: flow_run.induct) auto

definition flow_inv :: "('a pyworld_scheme \<Rightarrow> watermarks) \<Rightarrow> 'a pyworld_scheme \<Rightarrow> bool" where
  "flow_inv g w = (flow_run False (trace w) = Some (wm_paused (g w)))"

text \<open>
  The contract of an object that owns watermarks. Its laws are what the getter and the
  updater of a record field satisfy; its lemmas hold for every owner and for callbacks
  that call the owner again.
\<close>

locale watermark_owner =
  fixes g :: "'a pyworld_scheme \<Rightarrow> watermarks"
    and p :: "(watermarks \<Rightarrow> watermarks) \<Rightarrow> 'a pyworld_scheme \<Rightarrow> 'a pyworld_scheme"
  assumes get_put: "g (p f w) = f (g w)"
    and put_trace: "trace (p f w) = trace w"
    and get_trace: "g (w\<lparr>trace := t\<rparr>) = g w"
begin

lemma handler_flow: "steps_in (keeping (flow_inv g)) (call_exception_handler msg e ctx)"
  by (simp add: steps_in_def keeping_def call_exception_handler_def log_def flow_inv_def
      flow_run_append get_trace)

lemma call_flow_wp:
  assumes "\<And>a. proto = Some a \<Longrightarrow> steps_in (keeping (flow_inv g)) (cb a)"
    and "flow_inv g (w\<lparr>trace := trace w @ [ob]\<rparr>)"
  shows "flow_inv g (snd (call_flow ob cb msg ctx proto w))"
proof -
  have c: "steps_in (keeping (flow_inv g))
             (case proto of None \<Rightarrow> raise AttributeErr | Some a \<Rightarrow> cb a)"
    using assms(1) by (auto intro: keep.raise_in split: option.splits)
  have h: "steps_in (keeping (flow_inv g))
             (if is_exit e then reraise e else call_exception_handler msg e ctx)" for e
    by (auto intro: keep.reraise_in handler_flow)
  have "steps_in (keeping (flow_inv g))
          (try_except (case proto of None \<Rightarrow> raise AttributeErr | Some a \<Rightarrow> cb a)
             (\<lambda>e. if is_exit e then reraise e else call_exception_handler msg e ctx))"
    by (intro keep.try_except_in c h)
  from steps_in_keepingD [OF this assms(2)] show ?thesis
    by (simp add: call_flow_def log_def run)
qed

lemma pause_flow:
  assumes "\<And>a. proto = Some a \<Longrightarrow> steps_in (keeping (flow_inv g)) (on_pause_writing a)"
  shows "steps_in (keeping (flow_inv g)) (maybe_pause_protocol_raw g p proto n)"
  unfolding steps_in_def keeping_def
proof (intro allI impI)
  fix w
  assume "flow_inv g w"
  then have "\<not> wm_paused (g w) \<Longrightarrow>
      flow_inv g (snd (call_flow ObPauseWriting on_pause_writing ''protocol.pause_writing() failed''
        CtxTransport proto (p (\<lambda>wm. wm\<lparr>wm_paused := True\<rparr>) w)))"
    by (intro call_flow_wp assms)
       (simp_all add: flow_inv_def flow_run_append get_put put_trace get_trace)
  with \<open>flow_inv g w\<close> show "flow_inv g (snd (maybe_pause_protocol_raw g p proto n w))"
    by (simp add: maybe_pause_protocol_raw_def run)
qed

lemma resume_flow:
  assumes "\<And>a. proto = Some a \<Longrightarrow> steps_in (keeping (flow_inv g)) (on_resume_writing a)"
  shows "steps_in (keeping (flow_inv g)) (maybe_resume_protocol_raw g p proto n)"
  unfolding steps_in_def keeping_def
proof (intro allI impI)
  fix w
  assume "flow_inv g w"
  then have "wm_paused (g w) \<Longrightarrow>
      flow_inv g (snd (call_flow ObResumeWriting on_resume_writing ''protocol.resume_writing() failed''
        CtxWatermarks proto (p (\<lambda>wm. wm\<lparr>wm_paused := False\<rparr>) w)))"
    by (intro call_flow_wp assms)
       (simp_all add: flow_inv_def flow_run_append get_put put_trace get_trace)
  with \<open>flow_inv g w\<close> show "flow_inv g (snd (maybe_resume_protocol_raw g p proto n w))"
    by (simp add: maybe_resume_protocol_raw_def run)
qed

lemma set_limits_flow:
  assumes "\<And>a. proto = Some a \<Longrightarrow> steps_in (keeping (flow_inv g)) (on_pause_writing a)"
    and "\<And>a. proto = Some a \<Longrightarrow> steps_in (keeping (flow_inv g)) (on_resume_writing a)"
  shows "steps_in (keeping (flow_inv g)) (set_write_buffer_limits_wm g p proto n high low)"
proof -
  have s: "steps_in (keeping (flow_inv g))
      (bnd (gets (\<lambda>w. set_write_buffer_limits_raw high low (g w)))
         (\<lambda>r. bnd (lift_exn r) (\<lambda>wm. upd (p (\<lambda>_. wm)))))"
    by (rule steps_in_keeping_wp)
       (auto simp: wps flow_inv_def get_put put_trace dest: set_limits_ok split: sum.splits)
  show ?thesis
    unfolding set_write_buffer_limits_wm_def
    by (intro keep.order_rules s pause_flow resume_flow assms)
qed

lemma pause_effect:
  \<comment> \<open>Whatever the callback does, the flag was set before it, whenever the size is too big.\<close>
  "proto = Some a \<Longrightarrow> on_pause_writing a = ret () \<Longrightarrow>
     wm_paused (g (snd (maybe_pause_protocol_raw g p proto n w))) =
       (wm_paused (g w) \<or> high_water (g w) < n)"
  by (auto simp: maybe_pause_protocol_raw_def call_flow_def log_def run get_put get_trace)

end

end
