(* ===== verification/Transport.thy ===== *)
theory Transport
  imports Watermarks
begin

text \<open>
  The common transport base and the descriptor-owning base (transport.pyx, classes
  \<open>Transport\<close> and \<open>FDTransport\<close>). The record chain follows the class chain. Methods that a
  subclass overrides are the fields of a \<open>methods\<close> record, the model's method table;
  everything else is a definition per method.

  Every protocol call is logged when it is attempted. A call through an attribute of a
  released protocol (\<open>None\<close>) raises \<open>AttributeError\<close>; the C-level calls, taken when
  \<open>t_aiofn\<close> is set, have undefined behaviour there.
\<close>

section \<open>State\<close>

record transport = pyworld +
  t_thread_id :: nat
  t_protocol :: "nat option"
  t_buffered :: bool
  t_aiofn :: bool
  t_connected :: bool
  t_eof_received :: bool
  t_read_paused :: bool
  t_closing :: bool
  t_finalizing :: bool

record fd_transport = transport +
  f_open :: bool
  f_fileno :: int
  f_is_socket :: bool

record 'w methods =
  m_force_close :: "exn option \<Rightarrow> ('w, unit) prog"
  m_start_reading :: "('w, unit) prog"
  m_stop_reading :: "('w, unit) prog"
  m_should_report :: "exn \<Rightarrow> bool"

section \<open>Construction\<close>

text \<open>
  The constructors of the class chain: each adds its fields to what the base constructor made,
  over a world \<open>w\<close>.
\<close>

definition transport_init :: "pyworld \<Rightarrow> transport" where
  "transport_init w =
     pyworld.extend w
       (transport.fields (thread_now w) None False False False False False False False)"

definition fd_transport_init :: "int \<Rightarrow> bool \<Rightarrow> pyworld \<Rightarrow> fd_transport" where
  "fd_transport_init fd is_socket w =
     transport.extend (transport_init w) (fd_transport.fields True fd is_socket)"

section \<open>Transport: checks, protocol, reading\<close>

definition check_thread :: "('a transport_scheme, unit) prog" where
  "check_thread = only_if (\<lambda>w. t_thread_id w \<noteq> thread_now w) (raise RuntimeErr)"

definition set_protocol_nocheck ::
  "(nat \<Rightarrow> 'a transport_scheme app) \<Rightarrow> nat \<Rightarrow> ('a transport_scheme, unit) prog" where
  "set_protocol_nocheck apps p =
     upd (\<lambda>w. w\<lparr>t_protocol := Some p, t_buffered := app_buffered (apps p),
               t_aiofn := app_aiofn (apps p)\<rparr>)"

definition set_protocol ::
  "(nat \<Rightarrow> 'a transport_scheme app) \<Rightarrow> nat \<Rightarrow> ('a transport_scheme, unit) prog" where
  "set_protocol apps p = block [check_thread, set_protocol_nocheck apps p]"

definition get_protocol :: "('a transport_scheme, nat option) prog" where
  "get_protocol = andthen check_thread (gets t_protocol)"

definition is_closing :: "('a transport_scheme, bool) prog" where
  "is_closing = andthen check_thread (gets t_closing)"

definition is_reading :: "('a transport_scheme, bool) prog" where
  "is_reading = andthen check_thread (gets (\<lambda>w. \<not> t_closing w \<and> \<not> t_read_paused w))"

definition set_read_paused :: "bool \<Rightarrow> ('a transport_scheme, unit) prog" where
  "set_read_paused b = upd (\<lambda>w. w\<lparr>t_read_paused := b\<rparr>)"

definition pause_reading_nocheck ::
  "'a transport_scheme methods \<Rightarrow> ('a transport_scheme, unit) prog" where
  "pause_reading_nocheck vt =
     unless t_read_paused
       (block [
         set_read_paused True,
         try_except (m_stop_reading vt) (\<lambda>e. block [set_read_paused False, reraise e])])"

definition pause_reading ::
  "'a transport_scheme methods \<Rightarrow> ('a transport_scheme, unit) prog" where
  "pause_reading vt =
     block [
       check_thread,
       unless (\<lambda>w. t_closing w \<or> t_read_paused w) (pause_reading_nocheck vt)]"

definition resume_reading ::
  "'a transport_scheme methods \<Rightarrow> ('a transport_scheme, unit) prog" where
  "resume_reading vt =
     block [
       check_thread,
       unless (\<lambda>w. t_closing w \<or> \<not> t_read_paused w)
         (block [
           set_read_paused False,
           try_except (m_start_reading vt) (\<lambda>e. block [set_read_paused True, reraise e])])]"

definition abort ::
  "'a transport_scheme methods \<Rightarrow> ('a transport_scheme, unit) prog" where
  "abort vt = block [check_thread, m_force_close vt None]"

definition schedule_finalize_close :: "exn option \<Rightarrow> ('a transport_scheme, unit) prog" where
  "schedule_finalize_close exc =
     block [upd (\<lambda>w. w\<lparr>t_finalizing := True\<rparr>), call_soon (SoonFinalizeClose exc)]"

section \<open>Errors\<close>

definition report_protocol_exception :: "exn \<Rightarrow> string \<Rightarrow> ('a transport_scheme, unit) prog" where
  "report_protocol_exception e msg = call_exception_handler msg e CtxTransport"

definition fatal_error ::
  "'a transport_scheme methods \<Rightarrow> exn \<Rightarrow> string \<Rightarrow> ('a transport_scheme, unit) prog" where
  "fatal_error vt e msg =
     block [
       (if m_should_report vt e then report_protocol_exception e msg else ret ()),
       m_force_close vt (Some e)]"

definition handle_error ::
  "'a transport_scheme methods \<Rightarrow> string \<Rightarrow> exn \<Rightarrow> ('a transport_scheme, unit) prog" where
  "handle_error vt msg e =
     (if is_exit e then reraise e
      else fatal_error vt e (case exn_info e of Some info \<Rightarrow> info | None \<Rightarrow> msg))"

definition aiofn_add_info_and_reraise :: "string \<Rightarrow> exn \<Rightarrow> ('w, 'b) prog" where
  "aiofn_add_info_and_reraise info e = reraise (Exn (exn_cls e) (Some info) (exn_str e))"

section \<open>Calls into the protocol\<close>

text \<open>\<open>self._protocol.m(...)\<close>, and the form that goes through the C method table.\<close>

definition call_protocol ::
  "(nat \<Rightarrow> 'a transport_scheme app) \<Rightarrow> obs \<Rightarrow>
     ('a transport_scheme app \<Rightarrow> ('a transport_scheme, 'b) prog) \<Rightarrow> ('a transport_scheme, 'b) prog" where
  "call_protocol apps ob cb =
     andthen (log ob)
       (bnd (gets t_protocol) (\<lambda>p. case p of None \<Rightarrow> raise AttributeErr | Some i \<Rightarrow> cb (apps i)))"

definition call_protocol_c ::
  "(nat \<Rightarrow> 'a transport_scheme app) \<Rightarrow> obs \<Rightarrow>
     ('a transport_scheme app \<Rightarrow> ('a transport_scheme, 'b) prog) \<Rightarrow> ('a transport_scheme, 'b) prog" where
  "call_protocol_c apps ob cb =
     cond (\<lambda>w. t_aiofn w \<and> t_protocol w = None) (andthen (log ob) (raise NullDeref))
       (call_protocol apps ob cb)"

definition call_protocol_connection_made ::
  "(nat \<Rightarrow> 'a transport_scheme app) \<Rightarrow> ('a transport_scheme, unit) prog" where
  "call_protocol_connection_made apps =
     unless (\<lambda>w. t_connected w \<or> t_finalizing w)
       (block [
         upd (\<lambda>w. w\<lparr>t_connected := True\<rparr>),
         call_protocol apps ObConnectionMade on_connection_made])"

definition call_protocol_connection_lost ::
  "(nat \<Rightarrow> 'a transport_scheme app) \<Rightarrow> exn option \<Rightarrow> ('a transport_scheme, unit) prog" where
  "call_protocol_connection_lost apps exc =
     only_if t_connected
       (block [
         upd (\<lambda>w. w\<lparr>t_connected := False\<rparr>),
         call_protocol apps (ObConnectionLost exc) (\<lambda>a. on_connection_lost a exc)])"

definition call_protocol_data_received ::
  "(nat \<Rightarrow> 'a transport_scheme app) \<Rightarrow> bytes \<Rightarrow> ('a transport_scheme, unit) prog" where
  "call_protocol_data_received apps d =
     try_except
       (call_protocol_c apps (ObDataReceived d) (\<lambda>a. on_data_received a d))
       (aiofn_add_info_and_reraise ''Fatal error: protocol.data_received() call failed.'')"

definition call_protocol_eof_received ::
  "(nat \<Rightarrow> 'a transport_scheme app) \<Rightarrow> ('a transport_scheme, bool) prog" where
  \<comment> \<open>\<open>None\<close> and every falsy result are \<open>False\<close>: the callers only test the truth value\<close>
  "call_protocol_eof_received apps =
     cond (\<lambda>w. \<not> t_connected w \<or> t_eof_received w) (ret False)
       (andthen (upd (\<lambda>w. w\<lparr>t_eof_received := True\<rparr>))
         (try_except
           (call_protocol apps ObEofReceived on_eof_received)
           (aiofn_add_info_and_reraise ''Fatal error: protocol.eof_received() call failed.'')))"

definition call_protocol_get_buffer ::
  "(nat \<Rightarrow> 'a transport_scheme app) \<Rightarrow> ('a transport_scheme, nat) prog" where
  \<comment> \<open>the result is the size of the writable memory; its address carries no information\<close>
  "call_protocol_get_buffer apps =
     try_except
       (bnd (call_protocol_c apps ObGetBuffer (\<lambda>a. on_get_buffer a (-1)))
         (\<lambda>buf. bnd (lift_exn (aiofn_unpack_simple_buffer True buf))
           (\<lambda>mem. if length mem = 0 then raise RuntimeErr else ret (length mem))))
       (aiofn_add_info_and_reraise ''Fatal error: protocol.get_buffer() call failed.'')"

definition call_protocol_buffer_updated ::
  "(nat \<Rightarrow> 'a transport_scheme app) \<Rightarrow> bytes \<Rightarrow> ('a transport_scheme, unit) prog" where
  \<comment> \<open>the argument is what the read put into the buffer; the callback gets its length\<close>
  "call_protocol_buffer_updated apps bs =
     try_except
       (call_protocol_c apps (ObBufferUpdated bs) (\<lambda>a. on_buffer_updated a (int (length bs))))
       (aiofn_add_info_and_reraise ''Fatal error: protocol.buffer_updated() call failed.'')"

definition call_protocol_datagram_received ::
  "(nat \<Rightarrow> 'a transport_scheme app) \<Rightarrow> bytes \<Rightarrow> pyaddr \<Rightarrow> ('a transport_scheme, unit) prog" where
  "call_protocol_datagram_received apps d addr =
     try_except
       (call_protocol apps (ObDatagramReceived d addr) (\<lambda>a. on_datagram_received a d addr))
       (\<lambda>e. if is_exit e then reraise e
            else report_protocol_exception e
                   ''Fatal error: protocol.datagram_received() call failed.'')"

definition call_protocol_error_received ::
  "(nat \<Rightarrow> 'a transport_scheme app) \<Rightarrow> exn \<Rightarrow> ('a transport_scheme, unit) prog" where
  "call_protocol_error_received apps exc =
     try_except
       (call_protocol apps (ObErrorReceived exc) (\<lambda>a. on_error_received a exc))
       (\<lambda>e. if is_exit e then reraise e
            else report_protocol_exception e
                   ''Fatal error: protocol.error_received() call failed.'')"

section \<open>Public write entry points\<close>

definition transport_write ::
  "(pybuf \<Rightarrow> ('a transport_scheme, unit) prog) \<Rightarrow> pybuf \<Rightarrow> ('a transport_scheme, unit) prog" where
  "transport_write write_nocheck data =
     block [check_thread, lift_exn (aiofn_validate_buffer data), write_nocheck data]"

definition transport_writelines ::
  "(pybuf list \<Rightarrow> ('a transport_scheme, unit) prog) \<Rightarrow> pybuf list \<Rightarrow> ('a transport_scheme, unit) prog" where
  "transport_writelines writelines_nocheck list_of_data =
     block [
       check_thread,
       (if list_of_data = [] then ret ()
        else block [
          for_each list_of_data (\<lambda>d. lift_exn (aiofn_validate_buffer d)),
          writelines_nocheck list_of_data])]"

definition transport_sendto ::
  "(pybuf \<Rightarrow> pyaddr \<Rightarrow> ('a transport_scheme, unit) prog) \<Rightarrow> pybuf \<Rightarrow> pyaddr \<Rightarrow>
     ('a transport_scheme, unit) prog" where
  "transport_sendto sendto_nocheck data addr =
     block [check_thread, lift_exn (aiofn_validate_buffer data), sendto_nocheck data addr]"

section \<open>FDTransport\<close>

definition fd_start_reading :: "('a fd_transport_scheme, unit) prog" where
  "fd_start_reading = add_reader"

definition fd_stop_reading :: "('a fd_transport_scheme, unit) prog" where
  "fd_stop_reading = remove_reader"

definition fd_should_report_fatal_error :: "exn \<Rightarrow> bool" where
  "fd_should_report_fatal_error e = (\<not> is_oserror e)"

definition fd_methods_base :: "'a fd_transport_scheme methods" where
  \<comment> \<open>the reading half of the table, which is all that pausing needs\<close>
  "fd_methods_base = \<lparr>m_force_close = (\<lambda>_. raise NotImplementedErr),
     m_start_reading = fd_start_reading, m_stop_reading = fd_stop_reading,
     m_should_report = fd_should_report_fatal_error\<rparr>"

definition fd_force_close :: "exn option \<Rightarrow> ('a fd_transport_scheme, unit) prog" where
  "fd_force_close exc =
     unless t_finalizing
       (block [
         unless t_closing
           (block [
             upd (\<lambda>w. w\<lparr>t_closing := True\<rparr>),
             pause_reading_nocheck fd_methods_base]),
         schedule_finalize_close exc])"

definition fd_finalize_close ::
  "(nat \<Rightarrow> 'a fd_transport_scheme app) \<Rightarrow> exn option \<Rightarrow> ('a fd_transport_scheme, unit) prog" where
  "fd_finalize_close apps exc =
     try_finally
       (call_protocol_connection_lost apps exc)
       (cond f_open
          (upd (\<lambda>w. w\<lparr>f_open := False, t_protocol := None\<rparr>))
          (raise AttributeErr))"

definition fd_methods :: "'a fd_transport_scheme methods" where
  "fd_methods = fd_methods_base\<lparr>m_force_close := fd_force_close\<rparr>"

end
