(* ===== verification/Writable.thy ===== *)
theory Writable
  imports Transport
begin

text \<open>
  Transports with a write backlog (transport.pyx, class \<open>WritableTransport\<close>, and the
  request objects that a backlog holds). A \<open>WriteRequest\<close> is the memory between its
  \<open>ptr\<close> and \<open>ptr + size\<close>: the object it keeps alive is immutable, so the memory is its
  content. A \<open>SendFileRequest\<close> is mutable and shared between the deque and the call that
  created it, so it has an identity, \<open>sf_id\<close>. A datagram is its buffer and address.
\<close>

section \<open>Requests\<close>

record sendfile_request =
  sf_id :: nat
  sf_fd :: int
  sf_offset :: int
  sf_count :: int
  sf_waiter :: "nat option"

datatype item =
    WriteReq bytes
  | SendFile sendfile_request
  | Datagram pybuf pyaddr

definition make_write_request :: "pybuf \<Rightarrow> exn_class + bytes" where
  "make_write_request data =
     (case aiofn_maybe_copy_buffer data of
        Inl c \<Rightarrow> Inl c
      | Inr d \<Rightarrow> aiofn_unpack_simple_buffer False d)"

definition make_write_request_from_ptr :: "bytes \<Rightarrow> bytes" where
  "make_write_request_from_ptr mem = mem"

definition make_write_request_tail :: "pybuf \<Rightarrow> bytes \<Rightarrow> exn_class + bytes" where
  "make_write_request_tail data mem =
     aiofn_unpack_simple_buffer False (aiofn_maybe_copy_buffer_tail data mem)"

text \<open>
  A Python file object as \<open>make_sendfile_request\<close> sees it: what \<open>fileno()\<close> gives and the
  \<open>mode\<close> attribute, and a Python argument that should be an int.
\<close>

record pyfile =
  pf_fileno :: "exn_class + int"
  pf_mode :: "string option"

datatype pyint_arg = ArgInt int | ArgNone | ArgOther

definition make_sendfile_request ::
  "(int \<Rightarrow> bytes option) \<Rightarrow> nat \<Rightarrow> pyfile \<Rightarrow> pyint_arg \<Rightarrow> pyint_arg \<Rightarrow> exn_class + sendfile_request" where
  "make_sendfile_request fs i file offset count =
     (case offset of
        ArgInt off \<Rightarrow>
          if off < 0 then Inl ValueErr
          else if count = ArgOther then Inl TypeErr
          else if (case count of ArgInt n \<Rightarrow> n \<le> 0 | _ \<Rightarrow> False) then Inl ValueErr
          else
            (case pf_fileno file of
               Inl c \<Rightarrow> if c = AttributeErr \<or> c = UnsupportedOp then Inl SendfileNotAvailable else Inl c
             | Inr fd \<Rightarrow>
                 if (case pf_mode file of Some m \<Rightarrow> CHR ''b'' \<notin> set m | None \<Rightarrow> False)
                 then Inl ValueErr
                 else
                   (case fs fd of
                      None \<Rightarrow> Inl SendfileNotAvailable
                    | Some content \<Rightarrow>
                        (let available = max 0 (int (length content) - off);
                             n = (case count of ArgInt k \<Rightarrow> min k available | _ \<Rightarrow> available)
                         in Inr \<lparr>sf_id = i, sf_fd = fd, sf_offset = off, sf_count = n,
                                 sf_waiter = None\<rparr>)))
      | _ \<Rightarrow> Inl TypeErr)"

section \<open>State\<close>

record writable_transport = fd_transport +
  w_watermarks :: watermarks
  w_backlog :: "item list"
  w_size :: int
  w_closed_count :: nat
  w_registered :: bool
  w_next_request :: nat

definition writable_init :: "int \<Rightarrow> bool \<Rightarrow> pyworld \<Rightarrow> writable_transport" where
  "writable_init fd is_socket w =
     fd_transport.extend (fd_transport_init fd is_socket w)
       (writable_transport.fields watermarks_new [] 0 0 False 0)"

definition LOG_THRESHOLD_FOR_CONNLOST_WRITES :: nat where
  "LOG_THRESHOLD_FOR_CONNLOST_WRITES = 5"

section \<open>Operations\<close>

definition current_app ::
  "(nat \<Rightarrow> 'a transport_scheme app) \<Rightarrow> 'a transport_scheme \<Rightarrow> 'a transport_scheme app option" where
  "current_app apps w = map_option apps (t_protocol w)"

definition get_write_buffer_size_nocheck ::
  "(nat \<Rightarrow> 'a writable_transport_scheme app) \<Rightarrow> ('a writable_transport_scheme, int) prog" where
  "get_write_buffer_size_nocheck apps =
     bnd (gets w_size) (\<lambda>total.
       cond t_aiofn
         (bnd (gets (current_app apps)) (\<lambda>p. case p of
            None \<Rightarrow> raise NullDeref
          | Some a \<Rightarrow> bnd (on_local_write_buffer_size a) (\<lambda>n. ret (total + n))))
         (ret total))"

definition get_write_buffer_size ::
  "(nat \<Rightarrow> 'a writable_transport_scheme app) \<Rightarrow> ('a writable_transport_scheme, int) prog" where
  "get_write_buffer_size apps = andthen check_thread (get_write_buffer_size_nocheck apps)"

definition get_write_buffer_limits :: "('a writable_transport_scheme, int \<times> int) prog" where
  "get_write_buffer_limits =
     andthen check_thread (gets (\<lambda>w. get_write_buffer_limits_raw (w_watermarks w)))"

definition maybe_pause_protocol ::
  "(nat \<Rightarrow> 'a writable_transport_scheme app) \<Rightarrow> ('a writable_transport_scheme, unit) prog" where
  "maybe_pause_protocol apps =
     bnd (gets (current_app apps)) (\<lambda>proto.
       bnd (get_write_buffer_size_nocheck apps)
         (maybe_pause_protocol_raw w_watermarks w_watermarks_update proto))"

definition maybe_resume_protocol ::
  "(nat \<Rightarrow> 'a writable_transport_scheme app) \<Rightarrow> ('a writable_transport_scheme, unit) prog" where
  "maybe_resume_protocol apps =
     bnd (gets (current_app apps)) (\<lambda>proto.
       bnd (get_write_buffer_size_nocheck apps)
         (maybe_resume_protocol_raw w_watermarks w_watermarks_update proto))"

definition set_write_buffer_limits ::
  "(nat \<Rightarrow> 'a writable_transport_scheme app) \<Rightarrow> int option \<Rightarrow> int option \<Rightarrow>
     ('a writable_transport_scheme, unit) prog" where
  "set_write_buffer_limits apps high low =
     andthen check_thread
       (bnd (gets (current_app apps)) (\<lambda>proto.
         bnd (get_write_buffer_size_nocheck apps)
           (\<lambda>n. set_write_buffer_limits_wm w_watermarks w_watermarks_update proto n high low)))"

text \<open>The future of an unfinished file transfer is cancelled, or gets the exception.\<close>

definition release_waiter :: "exn option \<Rightarrow> item \<Rightarrow> ('a pyworld_scheme, unit) prog" where
  "release_waiter exc it =
     (case it of
        SendFile r \<Rightarrow>
          (case sf_waiter r of
             None \<Rightarrow> ret ()
           | Some i \<Rightarrow>
               unless (fut_done i)
                 (case exc of None \<Rightarrow> fut_cancel i | Some e \<Rightarrow> fut_set i (FutException e)))
      | _ \<Rightarrow> ret ())"

definition clear_write_backlog :: "exn option \<Rightarrow> ('a writable_transport_scheme, unit) prog" where
  "clear_write_backlog exc =
     block [
       bnd (gets w_backlog) (\<lambda>q. for_each q (release_waiter exc)),
       upd (\<lambda>w. w\<lparr>w_backlog := [], w_size := 0\<rparr>)]"

definition start_backlog_writing :: "('a writable_transport_scheme, unit) prog" where
  "start_backlog_writing =
     unless (\<lambda>w. t_finalizing w \<or> w_registered w)
       (block [upd (\<lambda>w. w\<lparr>w_registered := True\<rparr>), add_writer])"

definition stop_backlog_writing :: "('a writable_transport_scheme, unit) prog" where
  "stop_backlog_writing =
     only_if w_registered
       (block [upd (\<lambda>w. w\<lparr>w_registered := False\<rparr>), remove_writer])"

definition writable_close :: "('a writable_transport_scheme, unit) prog" where
  "writable_close =
     block [
       check_thread,
       unless t_closing
         (block [
           upd (\<lambda>w. w\<lparr>t_closing := True\<rparr>),
           pause_reading_nocheck fd_methods_base,
           only_if (\<lambda>w. w_size w = 0) (schedule_finalize_close None)])]"

definition writable_force_close :: "exn option \<Rightarrow> ('a writable_transport_scheme, unit) prog" where
  "writable_force_close exc =
     unless t_finalizing
       (block [
         unless t_closing
           (block [
             upd (\<lambda>w. w\<lparr>t_closing := True\<rparr>),
             pause_reading_nocheck fd_methods_base]),
         stop_backlog_writing,
         clear_write_backlog exc,
         schedule_finalize_close exc])"

definition writable_methods :: "'a writable_transport_scheme methods" where
  "writable_methods = fd_methods_base\<lparr>m_force_close := writable_force_close\<rparr>"

interpretation wt: watermark_owner
  "w_watermarks :: 'a writable_transport_scheme \<Rightarrow> watermarks" w_watermarks_update
  by unfold_locales simp_all

section \<open>Properties\<close>

definition item_size :: "item \<Rightarrow> int" where
  "item_size it = (case it of WriteReq m \<Rightarrow> int (length m) | SendFile r \<Rightarrow> sf_count r | Datagram _ _ \<Rightarrow> 0)"

lemma item_size_simps [simp]:
  "item_size (WriteReq m) = int (length m)"
  "item_size (SendFile r) = sf_count r"
  by (simp_all add: item_size_def)

lemma make_write_request_content:
  "make_write_request d = Inr m \<Longrightarrow> m = buf_content d"
  by (auto simp: make_write_request_def dest!: unpack_content dest: maybe_copy_content split: sum.splits)

lemma make_write_request_tail_content:
  "byte_items d \<Longrightarrow> aiofn_unpack_simple_buffer False d = Inr m \<Longrightarrow> n \<le> length m \<Longrightarrow>
     make_write_request_tail d (drop n m) = Inr (drop n m)"
  by (simp add: make_write_request_tail_def tail_content)

lemma make_sendfile_request_ok:
  "make_sendfile_request fs i file offset count = Inr r \<Longrightarrow>
     sf_id r = i \<and> 0 \<le> sf_count r \<and> 0 \<le> sf_offset r \<and> sf_waiter r = None \<and>
     (\<exists>content. fs (sf_fd r) = Some content \<and>
        sf_offset r + sf_count r \<le> max (sf_offset r) (int (length content)))"
  by (auto simp: make_sendfile_request_def Let_def split: pyint_arg.splits sum.splits option.splits if_splits)

end
