(* ===== verification/Stream.thy ===== *)
theory Stream
  imports Writable
begin

text \<open>
  The ordered byte-stream transport (transport.pyx, class \<open>StreamTransport\<close>): immediate
  writes, the backlog drained on writability, vectored writes in batches of
  \<open>AIOFN_MAX_IOVEC\<close>, sendfile requests in between, end of file and the close sequence.

  The two Python loops of the class carry fuel. One round of "_try_sendfile" lowers the
  request's count, so \<open>count + 1\<close> rounds are enough; one round of "_write_ready" that sent
  everything pops at least the first request, so the length of the backlog plus two is.
\<close>

section \<open>State\<close>

record stream_transport = writable_transport +
  s_server :: bool
  s_write_eof :: bool
  s_sendfile_compatible :: bool
  s_has_os_sendfile :: bool
  s_darwin :: bool

text \<open>A build with \<open>os.sendfile\<close>, not on macOS.\<close>

definition stream_init ::
  "(nat \<Rightarrow> stream_transport app) \<Rightarrow> nat \<Rightarrow> bool \<Rightarrow> int \<Rightarrow> bool \<Rightarrow> pyworld \<Rightarrow> stream_transport" where
  "stream_init apps p server fd is_socket w =
     snd (set_protocol_nocheck apps p
       (writable_transport.extend (writable_init fd is_socket w)
          (stream_transport.fields server False False True False)))"

definition AIOFN_MAX_IOVEC :: nat where "AIOFN_MAX_IOVEC = 256"

section \<open>Writing: one buffer\<close>

definition pre_write_check :: "string \<Rightarrow> ('a stream_transport_scheme, bool) prog" where
  "pre_write_check meth =
     cond s_write_eof (raise RuntimeErr)
       (cond t_finalizing
          (andthen
            (block [
              only_if (\<lambda>w. w_closed_count w \<ge> LOG_THRESHOLD_FOR_CONNLOST_WRITES)
                (log (ObLogWarning (meth @ ''() called after connection lost.''))),
              upd (\<lambda>w. w\<lparr>w_closed_count := w_closed_count w + 1\<rparr>)])
            (ret False))
          (ret True))"

definition append_request :: "bytes \<Rightarrow> ('a stream_transport_scheme, unit) prog" where
  "append_request m =
     upd (\<lambda>w. w\<lparr>w_backlog := w_backlog w @ [WriteReq m], w_size := w_size w + int (length m)\<rparr>)"

definition try_write :: "pybuf option \<Rightarrow> bytes \<Rightarrow> ('a stream_transport_scheme, bytes option) prog" where
  "try_write data mem =
     bnd (sys_write mem) (\<lambda>bytes_sent.
       if bytes_sent = int (length mem) then ret None
       else
         let tail = (if bytes_sent > 0 then drop (nat bytes_sent) mem else mem) in
         (case data of
            None \<Rightarrow> ret (Some (make_write_request_from_ptr tail))
          | Some d \<Rightarrow> bnd (lift_exn (make_write_request_tail d tail)) (\<lambda>r. ret (Some r))))"

definition queue_request ::
  "(nat \<Rightarrow> 'a stream_transport_scheme app) \<Rightarrow> bytes option \<Rightarrow> ('a stream_transport_scheme, unit) prog" where
  \<comment> \<open>the common tail of \<open>write_nocheck\<close> and \<open>write_c\<close>; \<open>None\<close> is their early return\<close>
  "queue_request apps request =
     (case request of
        None \<Rightarrow> ret ()
      | Some r \<Rightarrow> block [append_request r, start_backlog_writing, maybe_pause_protocol apps])"

definition stream_methods :: "'a stream_transport_scheme methods" where
  "stream_methods = writable_methods"

definition write_nocheck ::
  "(nat \<Rightarrow> 'a stream_transport_scheme app) \<Rightarrow> pybuf \<Rightarrow> ('a stream_transport_scheme, unit) prog" where
  "write_nocheck apps data =
     bnd (pre_write_check ''write'') (\<lambda>ok.
       if \<not> ok then ret ()
       else
         try_except
           (bnd
             (cond (\<lambda>w. w_size w = 0)
               (bnd (lift_exn (aiofn_unpack_simple_buffer False data)) (\<lambda>mem.
                  if mem = [] then ret None else try_write (Some data) mem))
               (bnd (lift_exn (make_write_request data)) (\<lambda>m.
                  if m = [] then ret None else ret (Some m))))
             (queue_request apps))
           (handle_error stream_methods ''Fatal write error on transport''))"

definition write_c ::
  "(nat \<Rightarrow> 'a stream_transport_scheme app) \<Rightarrow> bytes \<Rightarrow> ('a stream_transport_scheme, unit) prog" where
  "write_c apps mem =
     bnd (pre_write_check ''write_c'') (\<lambda>ok.
       if \<not> ok then ret ()
       else if mem = [] then ret ()
       else
         try_except
           (bnd
             (cond (\<lambda>w. w_size w = 0)
               (try_write None mem)
               (ret (Some (make_write_request_from_ptr mem))))
             (queue_request apps))
           (handle_error stream_methods ''Fatal write error on transport''))"

section \<open>Writing: many buffers\<close>

text \<open>
  What the loop of "_try_writelines" does with the next element: use its memory, skip it,
  stop before it, or fail.
\<close>

datatype iov = IovMem bytes | IovSkip | IovBreak | IovErr exn_class

definition iov_of_data :: "pybuf \<Rightarrow> iov" where
  "iov_of_data d =
     (case aiofn_unpack_simple_buffer False d of
        Inl c \<Rightarrow> IovErr c
      | Inr m \<Rightarrow> if m = [] then IovSkip else IovMem m)"

definition iov_of_item :: "item \<Rightarrow> iov" where
  "iov_of_item it =
     (case it of SendFile _ \<Rightarrow> IovBreak | WriteReq m \<Rightarrow> IovMem m | Datagram _ _ \<Rightarrow> IovErr AssertErr)"

definition flush_iovecs :: "bytes list \<Rightarrow> ('a stream_transport_scheme, int) prog" where
  "flush_iovecs iovecs = sys_writev iovecs"

definition total_size :: "bytes list \<Rightarrow> int" where
  "total_size bss = int (length (concat bss))"

definition finish_writelines ::
  "bytes list \<Rightarrow> int \<Rightarrow> ('a stream_transport_scheme, bool \<times> int) prog" where
  "finish_writelines iovecs sent =
     (if iovecs = [] then ret (True, sent)
      else bnd (flush_iovecs iovecs) (\<lambda>n. ret (n = total_size iovecs, sent + max 0 n)))"

text \<open>
  \<open>iovecs\<close> is the filled part of \<open>_write_buffers\<close>, \<open>sent\<close> the out parameter. The result is
  the return value and the out parameter.
\<close>

fun try_writelines_from ::
  "('x \<Rightarrow> iov) \<Rightarrow> 'x list \<Rightarrow> bytes list \<Rightarrow> int \<Rightarrow> ('a stream_transport_scheme, bool \<times> int) prog" where
  "try_writelines_from iov_of [] iovecs sent = finish_writelines iovecs sent"
| "try_writelines_from iov_of (x # xs) iovecs sent =
     (case iov_of x of
        IovErr c \<Rightarrow> raise c
      | IovBreak \<Rightarrow> finish_writelines iovecs sent
      | IovSkip \<Rightarrow> try_writelines_from iov_of xs iovecs sent
      | IovMem m \<Rightarrow>
          let iovecs' = iovecs @ [m] in
          if length iovecs' < AIOFN_MAX_IOVEC
          then try_writelines_from iov_of xs iovecs' sent
          else bnd (flush_iovecs iovecs') (\<lambda>n.
                 if n \<noteq> total_size iovecs' then ret (False, sent + max 0 n)
                 else try_writelines_from iov_of xs [] (sent + max 0 n)))"

definition try_writelines ::
  "('x \<Rightarrow> iov) \<Rightarrow> 'x list \<Rightarrow> ('a stream_transport_scheme, bool \<times> int) prog" where
  "try_writelines iov_of xs = try_writelines_from iov_of xs [] 0"

fun append_lines_tail :: "pybuf list \<Rightarrow> int \<Rightarrow> ('a stream_transport_scheme, unit) prog" where
  "append_lines_tail [] bytes_sent = ret ()"
| "append_lines_tail (d # ds) bytes_sent =
     bnd (lift_exn (aiofn_unpack_simple_buffer False d)) (\<lambda>mem.
       if int (length mem) \<le> bytes_sent then append_lines_tail ds (bytes_sent - int (length mem))
       else if bytes_sent \<noteq> 0 then
         bnd (lift_exn (make_write_request_tail d (drop (nat bytes_sent) mem)))
           (\<lambda>m. andthen (append_request m) (append_lines_tail ds 0))
       else if mem \<noteq> [] then
         bnd (lift_exn (make_write_request d))
           (\<lambda>m. andthen (append_request m) (append_lines_tail ds bytes_sent))
       else append_lines_tail ds bytes_sent)"

definition writelines_nocheck ::
  "(nat \<Rightarrow> 'a stream_transport_scheme app) \<Rightarrow> pybuf list \<Rightarrow> ('a stream_transport_scheme, unit) prog" where
  "writelines_nocheck apps list_of_data =
     bnd (pre_write_check ''writelines'') (\<lambda>ok.
       if \<not> ok then ret ()
       else
         try_except
           (bnd
             (cond (\<lambda>w. w_size w = 0)
               (try_writelines iov_of_data list_of_data)
               (ret (False, 0)))
             (\<lambda>(all_sent, total_bytes_sent).
               if all_sent then ret ()
               else block [
                 append_lines_tail list_of_data total_bytes_sent,
                 start_backlog_writing,
                 maybe_pause_protocol apps]))
           (handle_error stream_methods ''Fatal write error on transport''))"

text \<open>
  "_consume_write_backlog": requests that were sent whole leave the deque, the first that was
  not is advanced. The exception, if any, comes with the deque as it was left.
\<close>

fun drop_sent :: "item list \<Rightarrow> int \<Rightarrow> exn_class option \<times> item list" where
  "drop_sent [] n = (if n = 0 then None else Some IndexErr, [])"
| "drop_sent (WriteReq m # q) n =
     (if n = 0 then (None, WriteReq m # q)
      else if int (length m) \<le> n then drop_sent q (n - int (length m))
      else (None, WriteReq (drop (nat n) m) # q))"
| "drop_sent (it # q) n = (if n = 0 then None else Some TypeErr, it # q)"

definition consume_write_backlog :: "int \<Rightarrow> ('a stream_transport_scheme, unit) prog" where
  "consume_write_backlog bytes_sent =
     cond (\<lambda>w. \<not> (0 \<le> bytes_sent \<and> bytes_sent \<le> w_size w)) (raise AssertErr)
       (andthen
         (upd (\<lambda>w. w\<lparr>w_size := w_size w - bytes_sent\<rparr>))
         (bnd (gets (\<lambda>w. drop_sent (w_backlog w) bytes_sent)) (\<lambda>(err, q).
            andthen (upd (\<lambda>w. w\<lparr>w_backlog := q\<rparr>))
              (case err of None \<Rightarrow> ret () | Some c \<Rightarrow> raise c))))"

section \<open>File transfers\<close>

text \<open>
  "_try_sendfile". The request is an object: \<open>sync\<close> is what a mutation of it does to the
  backlog (nothing for a request that is not queued yet).
\<close>

definition os_sendfile_error ::
  "bool \<Rightarrow> sendfile_request \<Rightarrow> exn \<Rightarrow>
     ('a stream_transport_scheme, sendfile_request + bool \<times> sendfile_request) prog" where
  "os_sendfile_error darwin r e =
     (if is_blocking_io (exn_cls e) then leave_with (False, r)
      else if darwin \<and> exn_cls e = OSErr 57 then raise ConnectionResetError
      else reraise e)"

definition sendfile_step ::
  "(sendfile_request \<Rightarrow> ('a stream_transport_scheme, unit) prog) \<Rightarrow> sendfile_request \<Rightarrow>
     ('a stream_transport_scheme, sendfile_request + bool \<times> sendfile_request) prog" where
  "sendfile_step sync r =
     (if sf_count r = 0 then leave_with (True, r)
      else
        bnd (gets s_darwin) (\<lambda>darwin.
          try_else (os_sendfile (sf_fd r) (sf_offset r) (sf_count r))
            (os_sendfile_error darwin r)
            (\<lambda>bytes_sent.
               if bytes_sent = 0 then
                 let r' = r\<lparr>sf_count := 0\<rparr> in andthen (sync r') (leave_with (True, r'))
               else
                 let r' = r\<lparr>sf_offset := sf_offset r + bytes_sent, sf_count := sf_count r - bytes_sent\<rparr>
                 in andthen (sync r') (continue_with r'))))"

definition try_sendfile ::
  "(sendfile_request \<Rightarrow> ('a stream_transport_scheme, unit) prog) \<Rightarrow> sendfile_request \<Rightarrow>
     ('a stream_transport_scheme, bool \<times> sendfile_request) prog" where
  "try_sendfile sync r =
     cond (\<lambda>w. \<not> s_has_os_sendfile w) (raise NotImplementedErr)
       (loop (nat (sf_count r) + 1) (sendfile_step sync) r)"

definition sync_top :: "sendfile_request \<Rightarrow> ('a stream_transport_scheme, unit) prog" where
  "sync_top r = upd (\<lambda>w. w\<lparr>w_backlog := SendFile r # drop 1 (w_backlog w)\<rparr>)"

definition try_sendfile_from_backlog_top ::
  "sendfile_request \<Rightarrow> ('a stream_transport_scheme, bool) prog" where
  "try_sendfile_from_backlog_top r =
     bnd (try_sendfile sync_top r) (\<lambda>(all_sent, r').
       andthen
         (block [
           (if all_sent then
              block [
                upd (\<lambda>w. w\<lparr>w_backlog := drop 1 (w_backlog w)\<rparr>),
                (case sf_waiter r' of
                   None \<Rightarrow> raise AttributeErr
                 | Some i \<Rightarrow> unless (fut_done i) (fut_set i FutResult))]
            else ret ()),
           upd (\<lambda>w. w\<lparr>w_size := w_size w - (sf_count r - sf_count r')\<rparr>)])
         (ret all_sent))"

definition set_request_waiter :: "nat \<Rightarrow> nat \<Rightarrow> item \<Rightarrow> item" where
  "set_request_waiter rid i it =
     (case it of
        SendFile r \<Rightarrow> if sf_id r = rid then SendFile (r\<lparr>sf_waiter := Some i\<rparr>) else it
      | _ \<Rightarrow> it)"

definition new_sendfile_request ::
  "pyfile \<Rightarrow> pyint_arg \<Rightarrow> pyint_arg \<Rightarrow> ('a stream_transport_scheme, sendfile_request) prog" where
  "new_sendfile_request file offset count =
     bnd (gets (\<lambda>w. make_sendfile_request (files w) (w_next_request w) file offset count)) (\<lambda>r.
       bnd (lift_exn r) (\<lambda>request.
         andthen (upd (\<lambda>w. w\<lparr>w_next_request := w_next_request w + 1\<rparr>)) (ret request)))"

definition queue_sendfile ::
  "(nat \<Rightarrow> 'a stream_transport_scheme app) \<Rightarrow> sendfile_request \<Rightarrow>
     ('a stream_transport_scheme, nat option) prog" where
  "queue_sendfile apps request =
     andthen
       (block [
         upd (\<lambda>w. w\<lparr>w_backlog := w_backlog w @ [SendFile request],
                   w_size := w_size w + sf_count request\<rparr>),
         start_backlog_writing,
         maybe_pause_protocol apps])
       (bnd create_future (\<lambda>i.
         andthen
           (upd (\<lambda>w. w\<lparr>w_backlog := map (set_request_waiter (sf_id request) i) (w_backlog w)\<rparr>))
           (ret (Some i))))"

definition send_or_queue ::
  "(nat \<Rightarrow> 'a stream_transport_scheme app) \<Rightarrow> sendfile_request \<Rightarrow>
     ('a stream_transport_scheme, nat option) prog" where
  "send_or_queue apps request =
     bnd
       (cond (\<lambda>w. w_size w = 0) (try_sendfile (\<lambda>_. ret ()) request) (ret (False, request)))
       (\<lambda>(sent, request'). if sent then ret None else queue_sendfile apps request')"

text \<open>The result is \<open>None\<close>, or the future that completes with the transfer.\<close>

definition stream_sendfile ::
  "(nat \<Rightarrow> 'a stream_transport_scheme app) \<Rightarrow> pyfile \<Rightarrow> pyint_arg \<Rightarrow> pyint_arg \<Rightarrow>
     ('a stream_transport_scheme, nat option) prog" where
  "stream_sendfile apps file offset count =
     andthen
       (block [
         check_thread,
         unless s_sendfile_compatible (raise NotImplementedErr),
         only_if s_write_eof (raise RuntimeErr),
         only_if (\<lambda>w. t_closing w \<or> t_finalizing w) (raise RuntimeErr)])
       (bnd (new_sendfile_request file offset count) (\<lambda>request.
         if sf_count request = 0 then ret None
         else
           try_except (send_or_queue apps request)
             (\<lambda>e. andthen (handle_error stream_methods ''Fatal sendfile error on transport'' e)
                    (reraise e))))"

section \<open>Readiness, end of file, close\<close>

definition write_eof_now :: "('a stream_transport_scheme, unit) prog" where
  "write_eof_now = cond f_is_socket sock_shutdown_wr writable_close"

definition write_eof :: "('a stream_transport_scheme, unit) prog" where
  "write_eof =
     block [
       check_thread,
       unless (\<lambda>w. t_closing w \<or> s_write_eof w)
         (block [
           upd (\<lambda>w. w\<lparr>s_write_eof := True\<rparr>),
           only_if (\<lambda>w. w_size w = 0) write_eof_now])]"

definition drain_step :: "bool \<Rightarrow> ('a stream_transport_scheme, bool + unit) prog" where
  "drain_step all_sent =
     cond (\<lambda>w. w_size w > 0 \<and> all_sent)
       (bnd
         (bnd (gets w_backlog) (\<lambda>q.
           case q of
             [] \<Rightarrow> raise IndexErr
           | SendFile r # _ \<Rightarrow> try_sendfile_from_backlog_top r
           | _ \<Rightarrow>
               bnd (try_writelines iov_of_item q) (\<lambda>(ok, bytes_sent).
                 andthen (consume_write_backlog bytes_sent) (ret ok))))
         continue_with)
       (leave_with ())"

definition drain_backlog :: "('a stream_transport_scheme, unit) prog" where
  "drain_backlog =
     bnd (gets (\<lambda>w. length (w_backlog w) + 2)) (\<lambda>n. loop n drain_step True)"

definition after_drain ::
  "(nat \<Rightarrow> 'a stream_transport_scheme app) \<Rightarrow> ('a stream_transport_scheme, unit) prog" where
  "after_drain apps =
     block [
       maybe_resume_protocol apps,
       only_if (\<lambda>w. w_size w = 0)
         (block [
           stop_backlog_writing,
           cond t_closing
             (unless t_finalizing (schedule_finalize_close None))
             (only_if s_write_eof write_eof_now)])]"

definition write_ready ::
  "(nat \<Rightarrow> 'a stream_transport_scheme app) \<Rightarrow> ('a stream_transport_scheme, unit) prog" where
  "write_ready apps =
     unless t_finalizing
       (try_else drain_backlog
         (handle_error stream_methods ''Fatal write error on transport'')
         (\<lambda>_. after_drain apps))"

definition finalize_close ::
  "(nat \<Rightarrow> 'a stream_transport_scheme app) \<Rightarrow> exn option \<Rightarrow> ('a stream_transport_scheme, unit) prog" where
  "finalize_close apps exc =
     try_finally
       (call_protocol_connection_lost apps exc)
       (block [
         upd (\<lambda>w. w\<lparr>f_open := False, t_protocol := None\<rparr>),
         only_if s_server
           (block [log ObServerDetach, upd (\<lambda>w. w\<lparr>s_server := False\<rparr>)])])"

end
