(* ===== verification/StreamInv.thy ===== *)
theory StreamInv
  imports Stream "HOL-Library.Sublist"
begin

text \<open>
  The invariant of the stream transport and the relation every operation moves it by, for
  applications that may call the transport from any callback. \<open>stream_rel\<close> is reflexive and
  transitive, so it passes through the combinators (\<open>step_order\<close>) and through callbacks
  that satisfy it themselves.
\<close>

section \<open>Invariant and relation\<close>

fun stream_item :: "item \<Rightarrow> bool" where
  "stream_item (WriteReq _) = True"
| "stream_item (SendFile r) = (0 \<le> sf_offset r)"
| "stream_item (Datagram _ _) = False"

definition backlog_ok :: "item list \<Rightarrow> int \<Rightarrow> bool" where
  "backlog_ok q n =
     (n = (\<Sum>it\<leftarrow>q. item_size it) \<and> (\<forall>it \<in> set q. stream_item it \<and> 0 < item_size it))"

definition finalize_count :: "'a pyworld_scheme \<Rightarrow> nat" where
  "finalize_count w = length (filter (\<lambda>s. case s of SoonFinalizeClose _ \<Rightarrow> True | _ \<Rightarrow> False) (soon w))"

definition stream_inv :: "'a stream_transport_scheme \<Rightarrow> bool" where
  "stream_inv w =
     (backlog_ok (w_backlog w) (w_size w) \<and>
      w_registered w = writer_on w \<and>
      (t_finalizing w \<longrightarrow> t_closing w \<and> w_backlog w = []) \<and>
      (w_backlog w \<noteq> [] \<longrightarrow> w_registered w) \<and>
      (t_closing w \<and> \<not> t_finalizing w \<longrightarrow> w_registered w) \<and>
      finalize_count w \<le> (if t_finalizing w then 1 else 0) \<and>
      limits_ok (w_watermarks w))"

text \<open>The bytes a backlog still owes the peer, and the whole outgoing stream.\<close>

definition item_bytes :: "(int \<Rightarrow> bytes option) \<Rightarrow> item \<Rightarrow> bytes" where
  "item_bytes fs it =
     (case it of
        WriteReq m \<Rightarrow> m
      | SendFile r \<Rightarrow>
          take (nat (sf_count r)) (drop (nat (sf_offset r))
            (case fs (sf_fd r) of None \<Rightarrow> [] | Some bs \<Rightarrow> bs))
      | Datagram _ _ \<Rightarrow> [])"

definition pending :: "'a stream_transport_scheme \<Rightarrow> bytes" where
  "pending w = concat (map (item_bytes (files w)) (w_backlog w))"

definition stream_out :: "'a stream_transport_scheme \<Rightarrow> bytes" where
  "stream_out w = wire w @ pending w"

text \<open>
  The callbacks that only the event loop starts: connection made and lost, input and end
  of file. No operation that an application calls makes one of them.
\<close>

definition is_life :: "obs \<Rightarrow> bool" where
  "is_life ob =
     (case ob of
        ObConnectionMade \<Rightarrow> True | ObConnectionLost _ \<Rightarrow> True | ObDataReceived _ \<Rightarrow> True
      | ObEofReceived \<Rightarrow> True | ObGetBuffer \<Rightarrow> True | ObBufferUpdated _ \<Rightarrow> True
      | ObDatagramReceived _ _ \<Rightarrow> True | ObErrorReceived _ \<Rightarrow> True | _ \<Rightarrow> False)"

definition life :: "obs list \<Rightarrow> obs list" where
  "life tr = filter is_life tr"

definition kernel_ok :: "'a pyworld_scheme \<Rightarrow> bool" where
  \<comment> \<open>the kernel never answers 0 to a call that has bytes to send\<close>
  "kernel_ok w = (SysOk 0 \<notin> set (k_send w))"

definition stream_frame :: "'a stream_transport_scheme \<Rightarrow> 'a stream_transport_scheme \<Rightarrow> bool" where
  "stream_frame w w' =
     ((t_closing w \<longrightarrow> t_closing w') \<and> (t_finalizing w \<longrightarrow> t_finalizing w') \<and>
      (s_write_eof w \<longrightarrow> s_write_eof w') \<and>
      files w' = files w \<and> k_recv w' = k_recv w \<and> t_eof_received w' = t_eof_received w \<and>
      set (k_send w') \<subseteq> set (k_send w) \<and>
      t_connected w' = t_connected w \<and> life (trace w') = life (trace w) \<and>
      (t_finalizing w \<and> t_closing w \<longrightarrow> finalize_count w' = finalize_count w) \<and>
      f_open w' = f_open w \<and> f_is_socket w' = f_is_socket w \<and> s_server w' = s_server w \<and>
      t_thread_id w' = t_thread_id w \<and> prefix (wire w) (wire w'))"

definition stream_rel :: "'a stream_transport_scheme \<Rightarrow> 'a stream_transport_scheme \<Rightarrow> bool" where
  "stream_rel w w' =
     (stream_inv w \<longrightarrow>
        stream_frame w w' \<and> stream_inv w' \<and>
        (flow_inv w_watermarks w \<longrightarrow> flow_inv w_watermarks w') \<and>
        (kernel_ok w \<and> \<not> t_finalizing w' \<longrightarrow> prefix (stream_out w) (stream_out w')))"

lemma stream_frame_refl: "stream_frame w w"
  by (simp add: stream_frame_def)

lemma stream_frame_trans: "stream_frame w w' \<Longrightarrow> stream_frame w' w'' \<Longrightarrow> stream_frame w w''"
  unfolding stream_frame_def
  by (elim conjE, intro conjI; (simp; fail | blast | erule (1) prefix_order.trans))

lemma stream_rel_refl: "stream_rel w w"
  by (simp add: stream_rel_def stream_frame_refl)

lemma kernel_ok_frame: "stream_frame w w' \<Longrightarrow> kernel_ok w \<Longrightarrow> kernel_ok w'"
  by (auto simp: kernel_ok_def stream_frame_def)

lemma stream_rel_trans:
  assumes "stream_rel w w'" "stream_rel w' w''"
  shows "stream_rel w w''"
  unfolding stream_rel_def
proof
  assume "stream_inv w"
  with assms have a: "stream_frame w w'" "stream_inv w'" "stream_frame w' w''" "stream_inv w''"
    unfolding stream_rel_def by blast+
  have "prefix (stream_out w) (stream_out w'')" if "kernel_ok w" "\<not> t_finalizing w''"
  proof -
    have "\<not> t_finalizing w'" using a(3) that(2) by (auto simp: stream_frame_def)
    moreover have "kernel_ok w'" using a(1) that(1) by (rule kernel_ok_frame)
    ultimately show ?thesis
      using assms \<open>stream_inv w\<close> a(2) that prefix_order.trans unfolding stream_rel_def by blast
  qed
  with assms \<open>stream_inv w\<close> a show "stream_frame w w'' \<and> stream_inv w'' \<and>
      (flow_inv w_watermarks w \<longrightarrow> flow_inv w_watermarks w'') \<and>
      (kernel_ok w \<and> \<not> t_finalizing w'' \<longrightarrow> prefix (stream_out w) (stream_out w''))"
    using stream_frame_trans unfolding stream_rel_def by blast
qed

lemma rel_wpI:
  "(\<And>w. stream_inv w \<Longrightarrow> wp m (\<lambda>_. stream_rel w) (\<lambda>_. stream_rel w) w) \<Longrightarrow> steps_in stream_rel m"
  by (auto simp: steps_in_def wp_snd stream_rel_def)

interpretation st: step_order stream_rel
  by unfold_locales (rule stream_rel_refl, rule stream_rel_trans)

section \<open>Leaves\<close>

lemma backlog_ok_empty [simp]: "backlog_ok [] n \<longleftrightarrow> n = 0"
  by (simp add: backlog_ok_def)

lemma backlog_ok_zero: "backlog_ok q 0 \<longleftrightarrow> q = []"
  using sum_list_pos_empty_iff [of q item_size] by (auto simp: backlog_ok_def)

lemma backlog_ok_append:
  "backlog_ok q n \<Longrightarrow> stream_item it \<Longrightarrow> 0 < item_size it \<Longrightarrow> backlog_ok (q @ [it]) (n + item_size it)"
  by (auto simp: backlog_ok_def)

lemma inv_size_zero: "stream_inv w \<Longrightarrow> w_size w = 0 \<longleftrightarrow> w_backlog w = []"
  by (metis backlog_ok_empty backlog_ok_zero stream_inv_def)

lemma inv_nonneg: "stream_inv w \<Longrightarrow> 0 \<le> w_size w"
  using sum_list_nonneg_map [of "w_backlog w" item_size]
  by (auto simp: stream_inv_def backlog_ok_def)

text \<open>
  Updates of the fields that neither the invariant nor the frame reads are all instances
  of this.
\<close>

lemma rel_same:
  assumes "w_backlog w' = w_backlog w" "w_size w' = w_size w" "w_registered w' = w_registered w"
    "writer_on w' = writer_on w" "t_finalizing w' = t_finalizing w" "t_closing w' = t_closing w"
    "finalize_count w' = finalize_count w" "w_watermarks w' = w_watermarks w"
    "s_write_eof w \<longrightarrow> s_write_eof w'" "files w' = files w" "k_recv w' = k_recv w"
    "t_eof_received w' = t_eof_received w" "k_send w' = k_send w" "wire w' = wire w"
    "t_connected w' = t_connected w" "life (trace w') = life (trace w)"
    "flow_run False (trace w') = flow_run False (trace w)" "f_open w' = f_open w"
    "f_is_socket w' = f_is_socket w" "s_server w' = s_server w" "t_thread_id w' = t_thread_id w"
  shows "stream_rel w w'"
  using assms
  by (auto simp: stream_rel_def stream_frame_def stream_inv_def stream_out_def pending_def flow_inv_def)

lemma log_in_rel:
  "\<not> is_life ob \<Longrightarrow> ob \<noteq> ObPauseWriting \<Longrightarrow> ob \<noteq> ObResumeWriting \<Longrightarrow> steps_in stream_rel (log ob)"
proof -
  assume a: "\<not> is_life ob" "ob \<noteq> ObPauseWriting" "ob \<noteq> ObResumeWriting"
  have f: "flow_run b (tr @ [ob]) = flow_run b tr" for b tr
    using a by (cases ob) (auto simp: flow_run_append split: option.splits)
  show ?thesis
    using a unfolding steps_in_def log_def
    by (intro allI rel_same) (auto simp: life_def f finalize_count_def)
qed

lemma handler_in_rel: "steps_in stream_rel (call_exception_handler msg e ctx)"
  unfolding call_exception_handler_def by (rule log_in_rel) (simp_all add: is_life_def)

lemma upd_same_in_rel:
  assumes "\<And>w. stream_rel w (f w)"
  shows "steps_in stream_rel (upd f)"
  by (rule st.upd_in) (rule assms)

lemma check_thread_in_rel: "steps_in stream_rel check_thread"
  unfolding check_thread_def by (intro st.order_rules)

lemma reading_in_rel:
  "steps_in stream_rel add_reader" "steps_in stream_rel remove_reader"
  "steps_in stream_rel (set_read_paused b)"
  unfolding add_reader_def remove_reader_def set_read_paused_def
  by (intro upd_same_in_rel rel_same; simp add: finalize_count_def)+

lemma pause_reading_nocheck_in_rel:
  "steps_in stream_rel (pause_reading_nocheck fd_methods_base)"
  unfolding pause_reading_nocheck_def fd_methods_base_def fd_stop_reading_def
  by (simp, intro st.order_rules reading_in_rel)

lemma set_protocol_in_rel: "steps_in stream_rel (set_protocol_nocheck apps p)"
  unfolding set_protocol_nocheck_def
  by (intro upd_same_in_rel rel_same; simp add: finalize_count_def)

end
