(* ===== verification/StreamOps.thy ===== *)
theory StreamOps
  imports StreamInv
begin

text \<open>
  Every operation of the stream transport moves the state by \<open>stream_rel\<close>, for every
  application whose callbacks do. First the parts that have no callback, executed
  symbolically; then the operations, by the rules of the combinators.
\<close>

lemma wp_rel_trans:
  "stream_rel u w \<Longrightarrow> wp m (\<lambda>_. stream_rel w) (\<lambda>_. stream_rel w) w \<Longrightarrow>
     wp m (\<lambda>_. stream_rel u) (\<lambda>_. stream_rel u) w"
  by (erule wp_weaken) (auto intro: stream_rel_trans)

lemma wp_rel_steps:
  "stream_rel u w \<Longrightarrow> steps_in stream_rel m \<Longrightarrow> wp m (\<lambda>_. stream_rel u) (\<lambda>_. stream_rel u) w"
  by (rule wp_rel_trans, assumption) (rule wp_steps_in)

section \<open>Closing\<close>

lemma release_waiter_futures:
  "\<exists>f. release_waiter exc it w = (Inr (), w\<lparr>futures := f\<rparr>)"
proof -
  have s: "\<exists>f. w = w\<lparr>futures := f\<rparr>" by (rule exI [of _ "futures w"]) simp
  show ?thesis
    by (auto simp: release_waiter_def run fut_cancel_def fut_set_def s
             split: item.splits option.splits)
qed

lemma release_all_futures:
  "\<exists>f. for_each q (release_waiter exc) w = (Inr (), w\<lparr>futures := f\<rparr>)"
proof (induction q arbitrary: w)
  case Nil
  show ?case by simp (rule exI [of _ "futures w"], simp)
next
  case (Cons it q)
  obtain f where "release_waiter exc it w = (Inr (), w\<lparr>futures := f\<rparr>)"
    using release_waiter_futures by blast
  moreover obtain f' where
    "for_each q (release_waiter exc) (w\<lparr>futures := f\<rparr>) = (Inr (), w\<lparr>futures := f\<rparr>\<lparr>futures := f'\<rparr>)"
    using Cons.IH by blast
  ultimately show ?case by (simp add: run) blast
qed

lemma release_all_wp:
  "(\<And>f. Q () (w\<lparr>futures := f\<rparr>)) \<Longrightarrow> wp (for_each q (release_waiter exc)) Q E w"
  using release_all_futures [of q exc w] by (auto simp: wp_def)

lemma pause_reading_wp:
  \<comment> \<open>Removing the reader does not raise, so pausing is two field updates.\<close>
  "(\<And>b. Q () (w\<lparr>t_read_paused := True, reader_on := b\<rparr>)) \<Longrightarrow>
     wp (pause_reading_nocheck fd_methods_base) Q E w"
proof -
  assume q: "\<And>b. Q () (w\<lparr>t_read_paused := True, reader_on := b\<rparr>)"
  have "Q () w" if "t_read_paused w"
  proof -
    have "w\<lparr>t_read_paused := True, reader_on := reader_on w\<rparr> = w" using that by (cases w) simp
    with q [of "reader_on w"] show ?thesis by simp
  qed
  with q [of False] show ?thesis
    by (auto simp: pause_reading_nocheck_def wps fd_methods_base_def fd_stop_reading_def
        set_read_paused_def remove_reader_def)
qed

lemma force_close_in_rel: "steps_in stream_rel (writable_force_close exc)"
proof (rule steps_in_wp)
  fix w :: "'a stream_transport_scheme"
  have nochange: "stream_rel w w" by (rule stream_rel_refl)
  show "wp (writable_force_close exc) (\<lambda>_. stream_rel w) (\<lambda>_. stream_rel w) w"
    unfolding writable_force_close_def stop_backlog_writing_def clear_write_backlog_def
      schedule_finalize_close_def call_soon_def remove_writer_def
    by (auto simp: wps nochange stream_rel_def stream_frame_def stream_inv_def flow_inv_def
          finalize_count_def life_def
        intro!: pause_reading_wp release_all_wp)
qed

lemma close_in_rel: "steps_in stream_rel writable_close"
proof (rule steps_in_wp)
  fix w :: "'a stream_transport_scheme"
  show "wp writable_close (\<lambda>_. stream_rel w) (\<lambda>_. stream_rel w) w"
    unfolding writable_close_def schedule_finalize_close_def call_soon_def check_thread_def
    by (auto simp: wps stream_rel_refl stream_rel_def stream_frame_def stream_inv_def flow_inv_def
          finalize_count_def life_def backlog_ok_zero stream_out_def pending_def
        intro!: pause_reading_wp)
qed

lemma handle_error_in_rel: "steps_in stream_rel (handle_error stream_methods msg e)"
  unfolding handle_error_def fatal_error_def stream_methods_def writable_methods_def
    report_protocol_exception_def
  by (simp, intro conjI impI st.order_rules handler_in_rel force_close_in_rel)

section \<open>Flow control\<close>

lemma call_flow_rel:
  assumes "\<And>a. proto = Some a \<Longrightarrow> steps_in stream_rel (cb a)"
    and "stream_rel u (w\<lparr>trace := trace w @ [ob]\<rparr>)"
  shows "wp (call_flow ob cb msg ctx proto) (\<lambda>_. stream_rel u) (\<lambda>_. stream_rel u) w"
proof -
  have c: "steps_in stream_rel (case proto of None \<Rightarrow> raise AttributeErr | Some a \<Rightarrow> cb a)"
    using assms(1) by (auto intro: st.raise_in split: option.splits)
  have h: "steps_in stream_rel (if is_exit e then reraise e else call_exception_handler msg e ctx)" for e
    by (auto intro: st.reraise_in handler_in_rel)
  have "steps_in stream_rel
          (try_except (case proto of None \<Rightarrow> raise AttributeErr | Some a \<Rightarrow> cb a)
             (\<lambda>e. if is_exit e then reraise e else call_exception_handler msg e ctx))"
    by (intro st.try_except_in c h)
  from wp_rel_steps [OF assms(2) this] show ?thesis
    by (simp add: call_flow_def log_def wps)
qed

lemma pause_raw_in_rel:
  assumes "\<And>a. proto = Some a \<Longrightarrow> steps_in stream_rel (on_pause_writing a)"
  shows "steps_in stream_rel (maybe_pause_protocol_raw w_watermarks w_watermarks_update proto n)"
proof (rule steps_in_wp)
  fix w :: "'a stream_transport_scheme"
  show "wp (maybe_pause_protocol_raw w_watermarks w_watermarks_update proto n)
          (\<lambda>_. stream_rel w) (\<lambda>_. stream_rel w) w"
    unfolding maybe_pause_protocol_raw_def
    by (auto simp: wps stream_rel_refl intro!: call_flow_rel assms)
       (auto simp: stream_rel_def stream_frame_def stream_inv_def flow_inv_def flow_run_append
          finalize_count_def life_def is_life_def stream_out_def pending_def)
qed

lemma resume_raw_in_rel:
  assumes "\<And>a. proto = Some a \<Longrightarrow> steps_in stream_rel (on_resume_writing a)"
  shows "steps_in stream_rel (maybe_resume_protocol_raw w_watermarks w_watermarks_update proto n)"
proof (rule steps_in_wp)
  fix w :: "'a stream_transport_scheme"
  show "wp (maybe_resume_protocol_raw w_watermarks w_watermarks_update proto n)
          (\<lambda>_. stream_rel w) (\<lambda>_. stream_rel w) w"
    unfolding maybe_resume_protocol_raw_def
    by (auto simp: wps stream_rel_refl intro!: call_flow_rel assms)
       (auto simp: stream_rel_def stream_frame_def stream_inv_def flow_inv_def flow_run_append
          finalize_count_def life_def is_life_def stream_out_def pending_def)
qed

lemma set_limits_raw_in_rel:
  "steps_in stream_rel
     (bnd (gets (\<lambda>w. set_write_buffer_limits_raw high low (w_watermarks w)))
        (\<lambda>r. bnd (lift_exn r) (\<lambda>wm. upd (w_watermarks_update (\<lambda>_. wm)))))"
proof (rule steps_in_wp)
  fix w :: "'a stream_transport_scheme"
  show "wp (bnd (gets (\<lambda>w. set_write_buffer_limits_raw high low (w_watermarks w)))
        (\<lambda>r. bnd (lift_exn r) (\<lambda>wm. upd (w_watermarks_update (\<lambda>_. wm)))))
        (\<lambda>_. stream_rel w) (\<lambda>_. stream_rel w) w"
    by (auto simp: wps stream_rel_refl split: sum.splits dest!: set_limits_ok)
       (auto simp: stream_rel_def stream_frame_def stream_inv_def flow_inv_def
          finalize_count_def stream_out_def pending_def)
qed

locale reentrant_app =
  fixes apps :: "nat \<Rightarrow> 'a stream_transport_scheme app"
  assumes apps_rel: "apps_in stream_rel apps"
begin

lemma buffer_size_in_rel: "steps_in stream_rel (get_write_buffer_size_nocheck apps)"
proof -
  have "steps_in stream_rel
      (bnd (gets (current_app apps)) (\<lambda>p. case p of
          None \<Rightarrow> raise NullDeref
        | Some a \<Rightarrow> bnd (on_local_write_buffer_size a) (\<lambda>n. ret (k + n))))" for k
  proof (rule steps_in_wp)
    fix w :: "'a stream_transport_scheme"
    have "steps_in stream_rel (case current_app apps w of
          None \<Rightarrow> raise NullDeref
        | Some a \<Rightarrow> bnd (on_local_write_buffer_size a) (\<lambda>n. ret (k + n)))"
      by (auto simp: current_app_def intro!: st.order_rules apps_inD [OF apps_rel] split: option.splits)
    then show "wp (bnd (gets (current_app apps)) (\<lambda>p. case p of
          None \<Rightarrow> raise NullDeref
        | Some a \<Rightarrow> bnd (on_local_write_buffer_size a) (\<lambda>n. ret (k + n))))
        (\<lambda>_. stream_rel w) (\<lambda>_. stream_rel w) w"
      unfolding wp_bnd [of "gets _"] wp_gets by (rule wp_rel_steps [OF stream_rel_refl])
  qed
  then show ?thesis
    unfolding get_write_buffer_size_nocheck_def
    by (rule st.bnd_in [OF st.gets_in st.cond_in [OF _ st.ret_in]])
qed

lemma maybe_pause_in_rel: "steps_in stream_rel (maybe_pause_protocol apps)"
proof (rule steps_in_wp)
  fix w :: "'a stream_transport_scheme"
  have p: "steps_in stream_rel
     (bnd (get_write_buffer_size_nocheck apps)
        (maybe_pause_protocol_raw w_watermarks w_watermarks_update (current_app apps w)))"
    by (intro st.bnd_in buffer_size_in_rel pause_raw_in_rel)
       (auto simp: current_app_def intro: apps_inD [OF apps_rel])
  show "wp (maybe_pause_protocol apps) (\<lambda>_. stream_rel w) (\<lambda>_. stream_rel w) w"
    unfolding maybe_pause_protocol_def wp_bnd [of "gets _"] wp_gets
    by (rule wp_rel_steps [OF stream_rel_refl p])
qed

lemma maybe_resume_in_rel: "steps_in stream_rel (maybe_resume_protocol apps)"
proof (rule steps_in_wp)
  fix w :: "'a stream_transport_scheme"
  have p: "steps_in stream_rel
     (bnd (get_write_buffer_size_nocheck apps)
        (maybe_resume_protocol_raw w_watermarks w_watermarks_update (current_app apps w)))"
    by (intro st.bnd_in buffer_size_in_rel resume_raw_in_rel)
       (auto simp: current_app_def intro: apps_inD [OF apps_rel])
  show "wp (maybe_resume_protocol apps) (\<lambda>_. stream_rel w) (\<lambda>_. stream_rel w) w"
    unfolding maybe_resume_protocol_def wp_bnd [of "gets _"] wp_gets
    by (rule wp_rel_steps [OF stream_rel_refl p])
qed

lemma set_limits_in_rel: "steps_in stream_rel (set_write_buffer_limits apps high low)"
proof -
  have s: "steps_in stream_rel
      (set_write_buffer_limits_wm w_watermarks w_watermarks_update (current_app apps w) n high low)"
    for w :: "'a stream_transport_scheme" and n
    unfolding set_write_buffer_limits_wm_def
    by (intro st.order_rules set_limits_raw_in_rel pause_raw_in_rel resume_raw_in_rel)
       (auto simp: current_app_def intro: apps_inD [OF apps_rel])
  have t: "steps_in stream_rel
      (bnd (gets (current_app apps)) (\<lambda>proto.
         bnd (get_write_buffer_size_nocheck apps)
           (\<lambda>n. set_write_buffer_limits_wm w_watermarks w_watermarks_update proto n high low)))"
    by (rule steps_in_wp, unfold wp_bnd [of "gets _"] wp_gets)
       (rule wp_rel_steps [OF stream_rel_refl], intro st.bnd_in buffer_size_in_rel s)
  show ?thesis
    unfolding set_write_buffer_limits_def by (intro st.andthen_in check_thread_in_rel t)
qed

end

end
