(* ===== verification/StreamWrites.thy ===== *)
theory StreamWrites
  imports StreamOps
begin

text \<open>
  The write operations of the stream transport, file transfers and the drain of the
  backlog, again in \<open>stream_rel\<close>.
\<close>

section \<open>The kernel\<close>

lemma sys_write_cases:
  obtains (ok) n ks where "sys_write m w = (Inr n, w\<lparr>k_send := ks, wire := wire w @ take (nat n) m\<rparr>)"
      "n = -1 \<or> (0 < n \<and> n \<le> int (length m))" "set ks \<subseteq> set (k_send w)"
  | (err) c ks where "sys_write m w = (Inl (exn_of c), w\<lparr>k_send := ks\<rparr>)"
      "\<not> is_exit (exn_of c)" "set ks \<subseteq> set (k_send w)"
proof (cases "aiofn_write (k_send w) (length m)")
  case (Pair r ks)
  have sub: "set ks \<subseteq> set (k_send w)" using aiofn_write_outcomes [of "k_send w" "length m"] Pair by simp
  show ?thesis
  proof (cases r)
    case (Inl c)
    have "\<not> is_exit (exn_of c)"
      using aiofn_write_error_class [of "k_send w" "length m"] Pair Inl
      by (auto simp: is_exit_def exn_of_def)
    then show ?thesis using err [of c ks] sub Pair Inl by (simp add: sys_write_def)
  next
    case (Inr n)
    then show ?thesis
      using ok [of n ks] sub Pair aiofn_write_bound [of "k_send w" "length m" n ks]
      by (simp add: sys_write_def)
  qed
qed

lemma sys_write_wp:
  assumes "\<And>n ks. n = -1 \<or> (0 < n \<and> n \<le> int (length m)) \<Longrightarrow> set ks \<subseteq> set (k_send w) \<Longrightarrow>
             Q n (w\<lparr>k_send := ks, wire := wire w @ take (nat n) m\<rparr>)"
    and "\<And>c ks. \<not> is_exit (exn_of c) \<Longrightarrow> set ks \<subseteq> set (k_send w) \<Longrightarrow> E (exn_of c) (w\<lparr>k_send := ks\<rparr>)"
  shows "wp (sys_write m) Q E w"
  by (rule sys_write_cases [of m w]) (simp_all add: wp_def assms)

lemma sys_writev_as_write: "sys_writev ms = sys_write (concat ms)"
  by (rule ext) (simp only: sys_writev_def sys_write_def aiofn_writev_is_write length_concat)

lemma rel_wire:
  \<comment> \<open>Bytes that go straight to the wire, with nothing queued before them.\<close>
  assumes "w_size w = 0" "set ks \<subseteq> set (k_send w)"
  shows "stream_rel w (w\<lparr>k_send := ks, wire := wire w @ bs\<rparr>)"
proof -
  let ?v = "w\<lparr>k_send := ks, wire := wire w @ bs\<rparr>"
  have "stream_frame w ?v" using assms(2) by (simp add: stream_frame_def finalize_count_def)
  moreover have "stream_inv w \<Longrightarrow> stream_inv ?v" by (auto simp: stream_inv_def finalize_count_def)
  moreover have "stream_inv w \<Longrightarrow> prefix (stream_out w) (stream_out ?v)"
    using inv_size_zero [of w] assms(1) by (simp add: stream_out_def pending_def)
  ultimately show ?thesis by (simp add: stream_rel_def flow_inv_def)
qed

lemma rel_kernel:
  assumes "set ks \<subseteq> set (k_send w)"
  shows "stream_rel w (w\<lparr>k_send := ks\<rparr>)"
  using assms
  by (auto simp: stream_rel_def stream_frame_def stream_inv_def flow_inv_def finalize_count_def
      stream_out_def pending_def)

section \<open>Queueing\<close>

lemma tail_nonempty:
  "aiofn_unpack_simple_buffer False d = Inr m \<Longrightarrow> n < length m \<Longrightarrow>
     make_write_request_tail d (drop n m) = Inr r \<Longrightarrow> r \<noteq> []"
  unfolding make_write_request_tail_def by (rule tail_nonempty_content)

lemma try_write_wp:
  assumes size: "w_size w = 0" and m: "m \<noteq> []"
    and d: "\<And>x. d = Some x \<Longrightarrow> aiofn_unpack_simple_buffer False x = Inr m"
    and ok: "\<And>v r. stream_rel w v \<Longrightarrow> t_finalizing v = t_finalizing w \<Longrightarrow> r \<noteq> Some [] \<Longrightarrow> Q r v"
    and err: "\<And>v e. stream_rel w v \<Longrightarrow> E e v"
  shows "wp (try_write d m) Q E w"
  unfolding try_write_def
proof (simp only: wp_bnd, rule sys_write_wp)
  fix n ks
  assume n: "n = -1 \<or> 0 < n \<and> n \<le> int (length m)" and ks: "set ks \<subseteq> set (k_send w)"
  let ?v = "w\<lparr>k_send := ks, wire := wire w @ take (nat n) m\<rparr>"
  let ?tail = "if n > 0 then drop (nat n) m else m"
  have rel: "stream_rel w ?v" by (rule rel_wire [OF size ks])
  have ne: "?tail = drop (nat n) m" by auto
  have short: "nat n < length m" if "n \<noteq> int (length m)"
    using n m that by auto
  show "wp (if n = int (length m) then ret None
            else let tail = ?tail in case d of
                None \<Rightarrow> ret (Some (make_write_request_from_ptr tail))
              | Some d \<Rightarrow> bnd (lift_exn (make_write_request_tail d tail)) (\<lambda>r. ret (Some r))) Q E ?v"
    using rel short d tail_nonempty [OF d] unfolding Let_def ne
    by (auto simp: wps make_write_request_from_ptr_def intro!: ok err split: option.splits sum.splits)
next
  fix c ks
  assume "set ks \<subseteq> set (k_send w)"
  then show "E (exn_of c) (w\<lparr>k_send := ks\<rparr>)" by (intro err rel_kernel)
qed

lemma append_start_rel:
  assumes "m \<noteq> []" "\<not> t_finalizing w"
  shows "stream_rel w (snd (block [append_request m, start_backlog_writing] w))"
  using assms backlog_ok_append [of "w_backlog w" "w_size w" "WriteReq m"]
  by (auto simp: append_request_def start_backlog_writing_def add_writer_def run
      stream_rel_def stream_frame_def stream_inv_def flow_inv_def finalize_count_def
      stream_out_def pending_def item_bytes_def)


section \<open>Vectored writes\<close>

text \<open>The memories that a list of buffers, or a backlog, offers before it stops.\<close>

fun iov_mems :: "('x \<Rightarrow> iov) \<Rightarrow> 'x list \<Rightarrow> bytes list" where
  "iov_mems iov_of [] = []"
| "iov_mems iov_of (x # xs) =
     (case iov_of x of
        IovErr _ \<Rightarrow> [] | IovBreak \<Rightarrow> [] | IovSkip \<Rightarrow> iov_mems iov_of xs
      | IovMem m \<Rightarrow> m # iov_mems iov_of xs)"

text \<open>
  What any number of batches did to the state: the kernel's outcomes were used up in
  order, and a part of the memories is on the wire. It was all of it exactly when the
  result is \<open>True\<close>.
\<close>

definition sent_part ::
  "bytes \<Rightarrow> int \<Rightarrow> 'a stream_transport_scheme \<Rightarrow> (exn + bool \<times> int) \<Rightarrow> 'a stream_transport_scheme \<Rightarrow> bool" where
  "sent_part bs sent w r v =
     (\<exists>ks k. v = w\<lparr>k_send := ks, wire := wire w @ take k bs\<rparr> \<and> set ks \<subseteq> set (k_send w) \<and> k \<le> length bs \<and>
        (case r of
           Inl e \<Rightarrow> \<not> is_exit e
         | Inr (done, n) \<Rightarrow> n = sent + int k \<and> (done \<longleftrightarrow> k = length bs)))"

lemma sent_partI:
  "v = w\<lparr>k_send := ks, wire := wire w @ take k bs\<rparr> \<Longrightarrow> set ks \<subseteq> set (k_send w) \<Longrightarrow> k \<le> length bs \<Longrightarrow>
     (case r of Inl e \<Rightarrow> \<not> is_exit e
      | Inr (done, n) \<Rightarrow> n = sent + int k \<and> (done \<longleftrightarrow> k = length bs)) \<Longrightarrow>
     sent_part bs sent w r v"
  unfolding sent_part_def by blast

lemma sent_partE:
  assumes "sent_part bs sent w r v"
  obtains ks k where "v = w\<lparr>k_send := ks, wire := wire w @ take k bs\<rparr>" "set ks \<subseteq> set (k_send w)"
    "k \<le> length bs" "\<And>e. r = Inl e \<Longrightarrow> \<not> is_exit e"
    "\<And>b n. r = Inr (b, n) \<Longrightarrow> n = sent + int k \<and> (b \<longleftrightarrow> k = length bs)"
  using assms unfolding sent_part_def by (cases r) fastforce+

lemma flush_cases:
  assumes "iovecs \<noteq> []" "[] \<notin> set iovecs"
  obtains (ok) n k ks where
      "flush_iovecs iovecs w = (Inr n, w\<lparr>k_send := ks, wire := wire w @ take k (concat iovecs)\<rparr>)"
      "max 0 n = int k" "k \<le> length (concat iovecs)"
      "n = total_size iovecs \<longleftrightarrow> k = length (concat iovecs)" "set ks \<subseteq> set (k_send w)"
  | (err) e ks where "flush_iovecs iovecs w = (Inl e, w\<lparr>k_send := ks\<rparr>)" "\<not> is_exit e"
      "set ks \<subseteq> set (k_send w)"
proof (rule sys_write_cases [of "concat iovecs" w])
  have ne: "concat iovecs \<noteq> []" using assms by (cases iovecs) auto
  fix n ks
  assume "sys_write (concat iovecs) w = (Inr n, w\<lparr>k_send := ks, wire := wire w @ take (nat n) (concat iovecs)\<rparr>)"
    and n: "n = -1 \<or> (0 < n \<and> n \<le> int (length (concat iovecs)))" and "set ks \<subseteq> set (k_send w)"
  moreover have "n = total_size iovecs \<longleftrightarrow> nat n = length (concat iovecs)"
    using n ne by (auto simp: total_size_def)
  ultimately show thesis
    using n by (intro ok [of n "nat n" ks]) (auto simp: flush_iovecs_def sys_writev_as_write)
next
  fix c ks
  assume "sys_write (concat iovecs) w = (Inl (exn_of c), w\<lparr>k_send := ks\<rparr>)" "\<not> is_exit (exn_of c)"
    "set ks \<subseteq> set (k_send w)"
  then show thesis by (intro err) (simp_all add: flush_iovecs_def sys_writev_as_write)
qed

lemma finish_sent:
  assumes "[] \<notin> set iovecs"
  shows "sent_part (concat iovecs) sent w (fst (finish_writelines iovecs sent w))
           (snd (finish_writelines iovecs sent w))"
proof (cases "iovecs = []")
  case True
  then show ?thesis
    by (intro sent_partI [where k = 0 and ks = "k_send w"]) (simp_all add: finish_writelines_def)
next
  case False
  show ?thesis
  proof (rule flush_cases [OF False assms, of w])
    fix n k ks
    assume "flush_iovecs iovecs w = (Inr n, w\<lparr>k_send := ks, wire := wire w @ take k (concat iovecs)\<rparr>)"
      "max 0 n = int k" "k \<le> length (concat iovecs)"
      "n = total_size iovecs \<longleftrightarrow> k = length (concat iovecs)" "set ks \<subseteq> set (k_send w)"
    then show ?thesis
      by (intro sent_partI [where k = k and ks = ks]) (simp_all add: finish_writelines_def False run)
  next
    fix e ks
    assume "flush_iovecs iovecs w = (Inl e, w\<lparr>k_send := ks\<rparr>)" "\<not> is_exit e" "set ks \<subseteq> set (k_send w)"
    then show ?thesis
      by (intro sent_partI [where k = 0 and ks = ks]) (simp_all add: finish_writelines_def False run)
  qed
qed

lemma sent_part_more:
  \<comment> \<open>A batch that went out whole, followed by the rest.\<close>
  assumes "sent_part rest (sent + int (length bs)) (w\<lparr>k_send := ks, wire := wire w @ bs\<rparr>) r v"
    and "set ks \<subseteq> set (k_send w)"
  shows "sent_part (bs @ rest) sent w r v"
proof -
  obtain ks' k where "v = w\<lparr>k_send := ks', wire := (wire w @ bs) @ take k rest\<rparr>" "set ks' \<subseteq> set ks"
    "k \<le> length rest"
    "case r of Inl e \<Rightarrow> \<not> is_exit e
     | Inr (done, n) \<Rightarrow> n = sent + int (length bs) + int k \<and> (done \<longleftrightarrow> k = length rest)"
    using assms(1) unfolding sent_part_def by auto
  then show ?thesis
    using assms(2)
    by (intro sent_partI [where k = "length bs + k" and ks = ks'])
       (auto split: sum.splits prod.splits)
qed

lemma sent_part_less:
  \<comment> \<open>A batch that did not go out whole ends the call.\<close>
  assumes "sent_part bs sent w r v" and "\<And>n. r \<noteq> Inr (True, n)"
  shows "sent_part (bs @ rest) sent w r v"
proof -
  obtain ks k where k: "v = w\<lparr>k_send := ks, wire := wire w @ take k bs\<rparr>" "set ks \<subseteq> set (k_send w)"
    "k \<le> length bs"
    and r: "case r of Inl e \<Rightarrow> \<not> is_exit e | Inr (done, n) \<Rightarrow> n = sent + int k \<and> (done \<longleftrightarrow> k = length bs)"
    using assms(1) unfolding sent_part_def by auto
  then show ?thesis
    using assms(2)
    by (intro sent_partI [where k = k and ks = ks]) (auto split: sum.splits prod.splits)
qed

theorem try_writelines_sent:
  assumes "[] \<notin> set iovecs" "[] \<notin> set (iov_mems iov_of xs)" "length iovecs < AIOFN_MAX_IOVEC"
    and "\<forall>x \<in> set xs. \<forall>c. iov_of x = IovErr c \<longrightarrow> \<not> is_exit (exn_of c)"
  shows "sent_part (concat (iovecs @ iov_mems iov_of xs)) sent w
           (fst (try_writelines_from iov_of xs iovecs sent w))
           (snd (try_writelines_from iov_of xs iovecs sent w))"
  using assms
proof (induction iov_of xs iovecs sent arbitrary: w rule: try_writelines_from.induct)
  case (1 iov_of iovecs sent)
  then show ?case using finish_sent by simp
next
  case (2 iov_of x xs iovecs sent)
  show ?case
  proof (cases "iov_of x")
    case (IovErr c)
    with "2.prems"(4) show ?thesis
      by (intro sent_partI [where k = 0 and ks = "k_send w"]) simp_all
  next
    case IovBreak
    with "2.prems"(1) show ?thesis using finish_sent by simp
  next
    case IovSkip
    have "sent_part (concat (iovecs @ iov_mems iov_of xs)) sent w
           (fst (try_writelines_from iov_of xs iovecs sent w))
           (snd (try_writelines_from iov_of xs iovecs sent w))"
      by (rule "2.IH") (use IovSkip "2.prems" in simp_all)
    with IovSkip show ?thesis by simp
  next
    case (IovMem m)
    let ?iv = "iovecs @ [m]"
    have ne: "[] \<notin> set ?iv" "?iv \<noteq> []" using "2.prems"(1,2) IovMem by auto
    show ?thesis
    proof (cases "length ?iv < AIOFN_MAX_IOVEC")
      case True
      from "2.IH"(1) [OF IovMem refl True] ne "2.prems" IovMem True show ?thesis by (simp add: Let_def)
    next
      case False
      show ?thesis
      proof (rule flush_cases [OF ne(2,1), of w])
        fix n k ks
        assume f: "flush_iovecs ?iv w = (Inr n, w\<lparr>k_send := ks, wire := wire w @ take k (concat ?iv)\<rparr>)"
          "max 0 n = int k" "k \<le> length (concat ?iv)"
          "n = total_size ?iv \<longleftrightarrow> k = length (concat ?iv)" "set ks \<subseteq> set (k_send w)"
        let ?v = "w\<lparr>k_send := ks, wire := wire w @ take k (concat ?iv)\<rparr>"
        show ?thesis
        proof (cases "n = total_size ?iv")
          case True
          have "sent_part (concat ([] @ iov_mems iov_of xs)) (sent + max 0 n) ?v
                  (fst (try_writelines_from iov_of xs [] (sent + max 0 n) ?v))
                  (snd (try_writelines_from iov_of xs [] (sent + max 0 n) ?v))"
            using "2.IH"(2) [OF IovMem refl False, of n ?v] "2.prems" IovMem True
            by (simp add: AIOFN_MAX_IOVEC_def)
          then have "sent_part (concat ?iv @ concat (iov_mems iov_of xs)) sent w
                  (fst (try_writelines_from iov_of xs [] (sent + max 0 n) ?v))
                  (snd (try_writelines_from iov_of xs [] (sent + max 0 n) ?v))"
            using f True by (intro sent_part_more [OF _ f(5)]) simp
          then show ?thesis using f True IovMem False by (simp add: Let_def run)
        next
          case short: False
          then have "sent_part (concat ?iv) sent w (Inr (False, sent + max 0 n)) ?v"
            using f by (intro sent_partI [where k = k and ks = ks]) simp_all
          then have "sent_part (concat ?iv @ concat (iov_mems iov_of xs)) sent w
                       (Inr (False, sent + max 0 n)) ?v"
            by (rule sent_part_less) simp
          then show ?thesis using f short IovMem False by (simp add: Let_def run)
        qed
      next
        fix e ks
        assume "flush_iovecs ?iv w = (Inl e, w\<lparr>k_send := ks\<rparr>)" "\<not> is_exit e" "set ks \<subseteq> set (k_send w)"
        then show ?thesis using False IovMem
          by (intro sent_partI [where k = 0 and ks = ks]) (simp_all add: Let_def run)
      qed
    qed
  qed
qed

end
