(* ===== verification/StreamRun.thy ===== *)
theory StreamRun
  imports StreamWrites
begin

text \<open>
  The remaining pieces and then every operation and event of the stream transport in
  \<open>stream_rel\<close>. Some operations leave the invariant for a moment, with a request in the
  deque and no writer registered, or a half-sent transfer at its head; \<open>stream_weak\<close> is
  what then still holds, and enough for the forced close that an error leads to.
\<close>

section \<open>The lines that were not sent\<close>

definition data_bytes :: "pybuf \<Rightarrow> bytes" where
  "data_bytes d = (case aiofn_unpack_simple_buffer False d of Inl _ \<Rightarrow> [] | Inr m \<Rightarrow> m)"

lemma make_write_request_unpack:
  "aiofn_unpack_simple_buffer False d = Inr m \<Longrightarrow> m \<noteq> [] \<Longrightarrow> make_write_request d = Inr m"
  using maybe_copy_unpack [of d m] by (cases "d = PyNone") (auto simp: make_write_request_def)

lemma is_exit_exn_of [simp]: "is_exit (exn_of c) = is_exit_class c"
  by (simp add: is_exit_def exn_of_def)

lemma lift_exn_unpack:
  "lift_exn (aiofn_unpack_simple_buffer wr d) w =
     (case aiofn_unpack_simple_buffer wr d of Inl c \<Rightarrow> (Inl (exn_of c), w) | Inr m \<Rightarrow> (Inr m, w))"
  by (auto split: sum.splits)

lemma unpack_no_exit: "aiofn_unpack_simple_buffer wr d = Inl c \<Longrightarrow> \<not> is_exit_class c"
  by (auto dest: unpack_ok_class)

lemma append_lines_spec:
  assumes "0 \<le> n"
  shows "\<exists>ms. snd (append_lines_tail ds n w) =
             w\<lparr>w_backlog := w_backlog w @ map WriteReq ms, w_size := w_size w + total_size ms\<rparr> \<and>
           [] \<notin> set ms \<and> (\<forall>e. fst (append_lines_tail ds n w) = Inl e \<longrightarrow> \<not> is_exit e) \<and>
           ((\<forall>d \<in> set ds. byte_items d) \<and> fst (append_lines_tail ds n w) = Inr () \<longrightarrow>
              concat ms = drop (nat n) (concat (map data_bytes ds)))"
  using assms
proof (induction ds n arbitrary: w rule: append_lines_tail.induct)
  case (1 n)
  show ?case by (rule exI [of _ "[]"]) (simp add: total_size_def)
next
  case (2 d ds n)
  show ?case
  proof (cases "aiofn_unpack_simple_buffer False d")
    case (Inl c)
    then show ?thesis
      by (intro exI [of _ "[]"]) (simp add: run total_size_def unpack_no_exit)
  next
    case (Inr m)
    have db: "data_bytes d = m" using Inr by (simp add: data_bytes_def)
    consider (whole) "int (length m) \<le> n"
      | (part) "\<not> int (length m) \<le> n" "n \<noteq> 0"
      | (all) "\<not> int (length m) \<le> n" "n = 0" "m \<noteq> []"
      using "2.prems" by (cases "n = 0") auto
    then show ?thesis
    proof cases
      case whole
      have e: "append_lines_tail (d # ds) n w = append_lines_tail ds (n - int (length m)) w"
        using whole Inr by (simp add: run)
      obtain ms where "snd (append_lines_tail ds (n - int (length m)) w) =
             w\<lparr>w_backlog := w_backlog w @ map WriteReq ms, w_size := w_size w + total_size ms\<rparr>"
           "[] \<notin> set ms" "\<forall>e. fst (append_lines_tail ds (n - int (length m)) w) = Inl e \<longrightarrow> \<not> is_exit e"
           "(\<forall>d \<in> set ds. byte_items d) \<and> fst (append_lines_tail ds (n - int (length m)) w) = Inr () \<longrightarrow>
              concat ms = drop (nat (n - int (length m))) (concat (map data_bytes ds))"
        using "2.IH"(1) [OF whole, of w] whole by auto
      then show ?thesis
        using whole db unfolding e by (intro exI [of _ ms]) (auto simp: nat_diff_distrib)
    next
      case part
      then have lt: "nat n < length m" using "2.prems" by linarith
      show ?thesis
      proof (cases "make_write_request_tail d (drop (nat n) m)")
        case (Inl c)
        then have "\<not> is_exit_class c"
          unfolding make_write_request_tail_def by (rule unpack_no_exit)
        then show ?thesis using part Inr Inl
          by (intro exI [of _ "[]"]) (simp add: run total_size_def)
      next
        case req: (Inr r)
        let ?v = "w\<lparr>w_backlog := w_backlog w @ [WriteReq r], w_size := w_size w + int (length r)\<rparr>"
        have e: "append_lines_tail (d # ds) n w = append_lines_tail ds 0 ?v"
          using part Inr req by (simp add: run append_request_def)
        have r: "r \<noteq> []" "byte_items d \<longrightarrow> r = drop (nat n) m"
          using tail_nonempty [OF Inr lt req] make_write_request_tail_content [of d m "nat n"] Inr lt req
          by auto
        obtain ms where "snd (append_lines_tail ds 0 ?v) =
             ?v\<lparr>w_backlog := w_backlog ?v @ map WriteReq ms, w_size := w_size ?v + total_size ms\<rparr>"
           "[] \<notin> set ms" "\<forall>e. fst (append_lines_tail ds 0 ?v) = Inl e \<longrightarrow> \<not> is_exit e"
           "(\<forall>d \<in> set ds. byte_items d) \<and> fst (append_lines_tail ds 0 ?v) = Inr () \<longrightarrow>
              concat ms = concat (map data_bytes ds)"
          using "2.IH"(2) [OF part, of ?v] by auto
        then show ?thesis
          using r db lt unfolding e by (intro exI [of _ "r # ms"]) (auto simp: total_size_def)
      qed
    next
      case all
      let ?v = "w\<lparr>w_backlog := w_backlog w @ [WriteReq m], w_size := w_size w + int (length m)\<rparr>"
      have e: "append_lines_tail (d # ds) n w = append_lines_tail ds n ?v"
        using all Inr make_write_request_unpack [OF Inr all(3)] by (simp add: run append_request_def)
      obtain ms where "snd (append_lines_tail ds n ?v) =
             ?v\<lparr>w_backlog := w_backlog ?v @ map WriteReq ms, w_size := w_size ?v + total_size ms\<rparr>"
           "[] \<notin> set ms" "\<forall>e. fst (append_lines_tail ds n ?v) = Inl e \<longrightarrow> \<not> is_exit e"
           "(\<forall>d \<in> set ds. byte_items d) \<and> fst (append_lines_tail ds n ?v) = Inr () \<longrightarrow>
              concat ms = concat (map data_bytes ds)"
        using "2.IH"(3) [OF all(1) _ all(3), of ?v] all(2) by auto
      then show ?thesis
        using db all unfolding e by (intro exI [of _ "m # ms"]) (auto simp: total_size_def)
    qed
  qed
qed

section \<open>Consuming the backlog\<close>

text \<open>The bytes of the leading write requests, the part one vectored write can take.\<close>

lemma iov_of_item_simps [simp]:
  "iov_of_item (WriteReq m) = IovMem m" "iov_of_item (SendFile r) = IovBreak"
  by (simp_all add: iov_of_item_def)

lemma item_bytes_simps [simp]:
  "item_bytes fs (WriteReq m) = m"
  "item_bytes fs (SendFile r) =
     take (nat (sf_count r)) (drop (nat (sf_offset r)) (case fs (sf_fd r) of None \<Rightarrow> [] | Some bs \<Rightarrow> bs))"
  by (simp_all add: item_bytes_def)

lemma drop_sent_spec:
  assumes "backlog_ok q N" "n \<le> length (concat (iov_mems iov_of_item q))"
  shows "\<exists>q'. drop_sent q (int n) = (None, q') \<and> backlog_ok q' (N - int n) \<and>
           concat (map (item_bytes fs) q') = drop n (concat (map (item_bytes fs) q)) \<and>
           length q' \<le> length q \<and>
           (n = length (concat (iov_mems iov_of_item q)) \<and> iov_mems iov_of_item q \<noteq> [] \<longrightarrow>
              length q' < length q)"
  using assms
proof (induction q arbitrary: N n)
  case Nil
  then show ?case by simp
next
  case (Cons it q)
  from Cons.prems(1) have it: "stream_item it" "0 < item_size it"
    and q: "backlog_ok q (N - item_size it)"
    by (auto simp: backlog_ok_def)
  show ?case
  proof (cases it)
    case (WriteReq m)
    show ?thesis
    proof (cases "length m \<le> n")
      case True
      have "n - length m \<le> length (concat (iov_mems iov_of_item q))"
        using Cons.prems(2) WriteReq by simp
      then obtain q' where "drop_sent q (int (n - length m)) = (None, q')"
        "backlog_ok q' (N - item_size it - int (n - length m))"
        "concat (map (item_bytes fs) q') = drop (n - length m) (concat (map (item_bytes fs) q))"
        "length q' \<le> length q"
        using Cons.IH [OF q, of "n - length m"] by blast
      then show ?thesis
        using True WriteReq it
        by (intro exI [of _ q']) (auto simp: of_nat_diff algebra_simps)
    next
      case False
      then show ?thesis
        using WriteReq Cons.prems(1)
        by (cases "n = 0") (auto simp: backlog_ok_def)
    qed
  next
    case (SendFile r)
    with Cons.prems show ?thesis by simp
  next
    case (Datagram b a)
    with it show ?thesis by simp
  qed
qed

section \<open>Errors from a state that is not consistent\<close>

definition stream_weak :: "'a stream_transport_scheme \<Rightarrow> 'a stream_transport_scheme \<Rightarrow> bool" where
  "stream_weak w v =
     (\<not> t_finalizing v \<and>
      (stream_inv w \<longrightarrow> stream_frame w v \<and> w_registered v = writer_on v \<and> finalize_count v = 0 \<and>
         limits_ok (w_watermarks v) \<and>
         (flow_inv w_watermarks w \<longrightarrow> flow_inv w_watermarks v)))"

lemma weak_of_rel: "stream_rel w v \<Longrightarrow> \<not> t_finalizing v \<Longrightarrow> stream_weak w v"
  by (auto simp: stream_rel_def stream_weak_def stream_inv_def)

lemma weak_trans: "stream_rel u w \<Longrightarrow> stream_weak w v \<Longrightarrow> stream_weak u v"
  unfolding stream_weak_def stream_rel_def using stream_frame_trans by blast

lemma rel_finalized:
  assumes "stream_weak w v"
    and "stream_frame v v'" "t_finalizing v'" "t_closing v'" "w_backlog v' = []" "w_size v' = 0"
    and "w_registered v = writer_on v \<Longrightarrow> w_registered v' = writer_on v'"
    and "w_watermarks v' = w_watermarks v" "trace v' = trace v"
    and "finalize_count v' \<le> finalize_count v + 1"
  shows "stream_rel w v'"
  unfolding stream_rel_def
proof
  assume inv: "stream_inv w"
  with assms(1) have v: "stream_frame w v" "w_registered v = writer_on v" "limits_ok (w_watermarks v)"
    "finalize_count v = 0"
    unfolding stream_weak_def by blast+
  have "stream_frame w v'" using v(1) assms(2) by (rule stream_frame_trans)
  moreover have "stream_inv v'" using assms v by (simp add: stream_inv_def)
  moreover have "flow_inv w_watermarks w \<longrightarrow> flow_inv w_watermarks v'"
    using assms inv by (simp add: stream_weak_def flow_inv_def)
  ultimately show "stream_frame w v' \<and> stream_inv v' \<and>
      (flow_inv w_watermarks w \<longrightarrow> flow_inv w_watermarks v') \<and>
      (kernel_ok w \<and> \<not> t_finalizing v' \<longrightarrow> prefix (stream_out w) (stream_out v'))"
    using assms(3) by simp
qed

lemma force_close_weak:
  assumes "stream_weak w v"
  shows "wp (writable_force_close exc) (\<lambda>_. stream_rel w) (\<lambda>_. stream_rel w) v"
proof -
  have "\<not> t_finalizing v" using assms by (simp add: stream_weak_def)
  then show ?thesis
    unfolding writable_force_close_def stop_backlog_writing_def clear_write_backlog_def
      schedule_finalize_close_def call_soon_def remove_writer_def
    by (auto simp: wps stream_frame_def finalize_count_def
        intro!: pause_reading_wp release_all_wp rel_finalized [OF assms])
qed

lemma log_weak:
  "stream_weak w v \<Longrightarrow> stream_weak w (v\<lparr>trace := trace v @ [ObExceptionHandler msg e ctx]\<rparr>)"
  by (auto simp: stream_weak_def stream_frame_def flow_inv_def flow_run_append finalize_count_def
      life_def is_life_def split: option.splits)

lemma handle_error_weak:
  assumes "stream_weak w v" "\<not> is_exit e"
  shows "wp (handle_error stream_methods msg e) (\<lambda>_. stream_rel w) (\<lambda>_. stream_rel w) v"
  using assms
  by (auto simp: handle_error_def fatal_error_def stream_methods_def writable_methods_def
      fd_methods_base_def report_protocol_exception_def call_exception_handler_def log_def wps
      intro: force_close_weak log_weak)

section \<open>Operations\<close>

lemma start_in_rel: "steps_in stream_rel start_backlog_writing"
proof (rule steps_in_wp)
  fix w :: "'a stream_transport_scheme"
  show "wp start_backlog_writing (\<lambda>_. stream_rel w) (\<lambda>_. stream_rel w) w"
    unfolding start_backlog_writing_def add_writer_def
    by (auto simp: wps stream_rel_refl stream_rel_def stream_frame_def stream_inv_def flow_inv_def
        finalize_count_def stream_out_def pending_def)
qed

lemma log_warning_in_rel: "steps_in stream_rel (log (ObLogWarning s))"
  by (rule log_in_rel) (simp_all add: is_life_def)

lemma closed_count_in_rel: "steps_in stream_rel (upd (\<lambda>w. w\<lparr>w_closed_count := w_closed_count w + 1\<rparr>))"
  by (intro upd_same_in_rel rel_same; simp add: finalize_count_def)

lemma pre_write_check_wp:
  assumes ok: "\<not> t_finalizing w \<Longrightarrow> Q True w"
    and no: "\<And>v. stream_rel w v \<Longrightarrow> Q False v"
    and err: "E (exn_of RuntimeErr) w"
  shows "wp (pre_write_check meth) Q E w"
proof -
  have "steps_in stream_rel (andthen
            (block [
              only_if (\<lambda>w. w_closed_count w \<ge> LOG_THRESHOLD_FOR_CONNLOST_WRITES)
                (log (ObLogWarning (meth @ ''() called after connection lost.''))),
              upd (\<lambda>w. w\<lparr>w_closed_count := w_closed_count w + 1\<rparr>)])
            (ret False) :: ('a stream_transport_scheme, bool) prog)"
    by (intro st.order_rules log_warning_in_rel closed_count_in_rel)
  then have "stream_rel w (snd (andthen
            (block [
              only_if (\<lambda>w. w_closed_count w \<ge> LOG_THRESHOLD_FOR_CONNLOST_WRITES)
                (log (ObLogWarning (meth @ ''() called after connection lost.''))),
              upd (\<lambda>w. w\<lparr>w_closed_count := w_closed_count w + 1\<rparr>)])
            (ret False :: ('a stream_transport_scheme, bool) prog) w))"
    by (simp add: steps_in_def)
  then show ?thesis
    using ok no err by (auto simp: pre_write_check_def wps wp_def run log_def)
qed

context reentrant_app
begin

lemma queue_request_wp:
  assumes "r \<noteq> Some []" "\<not> t_finalizing w"
  shows "wp (queue_request apps r) (\<lambda>_. stream_rel w) (\<lambda>_. stream_rel w) w"
proof (cases r)
  case None
  then show ?thesis by (simp add: queue_request_def wps stream_rel_refl)
next
  case (Some m)
  have a: "wp (block [append_request m, start_backlog_writing]) (\<lambda>_. stream_rel w) (\<lambda>_. stream_rel w) w"
    using append_start_rel [of m w] assms Some by (simp add: wp_snd)
  have "wp (block [append_request m, start_backlog_writing])
          (\<lambda>_. wp (maybe_pause_protocol apps) (\<lambda>_. stream_rel w) (\<lambda>_. stream_rel w)) (\<lambda>_. stream_rel w) w"
    by (rule wp_weaken [OF a]) (auto intro: wp_rel_steps maybe_pause_in_rel)
  then show ?thesis by (simp add: Some queue_request_def wps append_request_def)
qed

lemma queue_request_rel:
  assumes "stream_rel u w" "r \<noteq> Some []" "\<not> t_finalizing w"
  shows "wp (queue_request apps r) (\<lambda>_. stream_rel u) (\<lambda>_. stream_rel u) w"
  by (rule wp_rel_trans [OF assms(1) queue_request_wp [OF assms(2,3)]])

lemma handle_error_rel:
  "stream_rel u w \<Longrightarrow> wp (handle_error stream_methods msg e) (\<lambda>_. stream_rel u) (\<lambda>_. stream_rel u) w"
  by (rule wp_rel_steps [OF _ handle_error_in_rel])

lemma or_handle:
  "wp m (\<lambda>_. stream_rel u) (\<lambda>_. stream_rel u) w \<Longrightarrow>
     wp m (\<lambda>_. stream_rel u)
       (\<lambda>e. wp (handle_error stream_methods msg e) (\<lambda>_. stream_rel u) (\<lambda>_. stream_rel u)) w"
  by (erule wp_weaken) (auto intro: handle_error_rel)

lemma write_nocheck_in_rel: "steps_in stream_rel (write_nocheck apps data)"
proof (rule steps_in_wp)
  fix w :: "'a stream_transport_scheme"
  have body: "wp (try_except
           (bnd
             (cond (\<lambda>w. w_size w = 0)
               (bnd (lift_exn (aiofn_unpack_simple_buffer False data)) (\<lambda>mem.
                  if mem = [] then ret None else try_write (Some data) mem))
               (bnd (lift_exn (make_write_request data)) (\<lambda>m.
                  if m = [] then ret None else ret (Some m))))
             (queue_request apps))
           (handle_error stream_methods ''Fatal write error on transport''))
         (\<lambda>_. stream_rel w) (\<lambda>_. stream_rel w) w" if nf: "\<not> t_finalizing w"
    using nf
    by (auto simp: wps stream_rel_refl split: sum.splits
        intro!: handle_error_rel or_handle queue_request_rel try_write_wp)
  show "wp (write_nocheck apps data) (\<lambda>_. stream_rel w) (\<lambda>_. stream_rel w) w"
    unfolding write_nocheck_def wp_bnd [of "pre_write_check _"]
    by (rule pre_write_check_wp) (simp_all add: body wp_ret stream_rel_refl)
qed

lemma write_c_in_rel: "steps_in stream_rel (write_c apps mem)"
proof (rule steps_in_wp)
  fix w :: "'a stream_transport_scheme"
  have body: "wp (try_except
           (bnd
             (cond (\<lambda>w. w_size w = 0)
               (try_write None mem)
               (ret (Some (make_write_request_from_ptr mem))))
             (queue_request apps))
           (handle_error stream_methods ''Fatal write error on transport''))
         (\<lambda>_. stream_rel w) (\<lambda>_. stream_rel w) w" if nf: "\<not> t_finalizing w" "mem \<noteq> []"
    using nf
    by (auto simp: wps stream_rel_refl make_write_request_from_ptr_def
        intro!: handle_error_rel or_handle queue_request_rel try_write_wp)
  show "wp (write_c apps mem) (\<lambda>_. stream_rel w) (\<lambda>_. stream_rel w) w"
    unfolding write_c_def wp_bnd [of "pre_write_check _"]
    by (rule pre_write_check_wp) (simp_all add: body wp_ret stream_rel_refl)
qed

end

end
