(* ===== verification/StreamEvents.thy ===== *)
theory StreamEvents
  imports StreamRun
begin

text \<open>
  Vectored writes, file transfers, readiness and end of file in \<open>stream_rel\<close>, which closes
  the list of operations an application or the event loop can start on a stream transport.
\<close>

section \<open>writelines\<close>

lemma data_mems_nonempty: "[] \<notin> set (iov_mems iov_of_data ds)"
  by (induction ds) (auto simp: iov_of_data_def split: sum.splits)

lemma data_errors: "\<forall>x \<in> set ds. \<forall>c. iov_of_data x = IovErr c \<longrightarrow> \<not> is_exit (exn_of c)"
  by (auto simp: iov_of_data_def dest: unpack_no_exit split: sum.splits if_splits)

lemma try_writelines_data_wp:
  assumes "w_size w = 0"
    and ok: "\<And>v b n. stream_rel w v \<Longrightarrow> t_finalizing v = t_finalizing w \<Longrightarrow> 0 \<le> n \<Longrightarrow> Q (b, n) v"
    and err: "\<And>v e. stream_rel w v \<Longrightarrow> \<not> is_exit e \<Longrightarrow> E e v"
  shows "wp (try_writelines iov_of_data ds) Q E w"
proof -
  have "sent_part (concat ([] @ iov_mems iov_of_data ds)) 0 w
          (fst (try_writelines iov_of_data ds w)) (snd (try_writelines iov_of_data ds w))"
    unfolding try_writelines_def
    by (rule try_writelines_sent [OF _ data_mems_nonempty _ data_errors])
       (simp_all add: AIOFN_MAX_IOVEC_def)
  then show ?thesis
  proof (rule sent_partE)
    fix ks k
    let ?v = "w\<lparr>k_send := ks, wire := wire w @ take k (concat ([] @ iov_mems iov_of_data ds))\<rparr>"
    assume v: "snd (try_writelines iov_of_data ds w) = ?v" and ks: "set ks \<subseteq> set (k_send w)"
      and e: "\<And>e. fst (try_writelines iov_of_data ds w) = Inl e \<Longrightarrow> \<not> is_exit e"
      and r: "\<And>b n. fst (try_writelines iov_of_data ds w) = Inr (b, n) \<Longrightarrow>
                n = 0 + int k \<and> (b \<longleftrightarrow> k = length (concat ([] @ iov_mems iov_of_data ds)))"
    have rel: "stream_rel w ?v" by (rule rel_wire [OF assms(1) ks])
    show ?thesis
    proof (cases "fst (try_writelines iov_of_data ds w)")
      case (Inl x)
      with v err [OF rel] e show ?thesis by (cases "try_writelines iov_of_data ds w") (simp add: wp_def)
    next
      case (Inr x)
      obtain b n where "x = (b, n)" by (cases x)
      with Inr r [of b n] have "n = int k" by simp
      with v ok [OF rel, of n b] Inr \<open>x = (b, n)\<close> show ?thesis
        by (cases "try_writelines iov_of_data ds w") (simp add: wp_def)
    qed
  qed
qed

lemma append_lines_start_wp:
  assumes nf: "\<not> t_finalizing w" and n: "0 \<le> n"
    and ok: "\<And>v. stream_rel w v \<Longrightarrow> Q () v"
    and err: "\<And>e v. stream_weak w v \<Longrightarrow> \<not> is_exit e \<Longrightarrow> E e v"
  shows "wp (append_lines_tail ds n) (\<lambda>_. wp start_backlog_writing Q E) E w"
proof -
  obtain ms where
    v: "snd (append_lines_tail ds n w) =
          w\<lparr>w_backlog := w_backlog w @ map WriteReq ms, w_size := w_size w + total_size ms\<rparr>"
    and ms: "[] \<notin> set ms"
    and e: "\<forall>e. fst (append_lines_tail ds n w) = Inl e \<longrightarrow> \<not> is_exit e"
    using append_lines_spec [OF n, of ds w] by blast
  let ?v = "w\<lparr>w_backlog := w_backlog w @ map WriteReq ms, w_size := w_size w + total_size ms\<rparr>"
  have len: "total_size ms = (\<Sum>m\<leftarrow>ms. int (length m))"
    by (simp add: total_size_def length_concat_int)
  have pos: "\<forall>m \<in> set ms. 0 < length m" using ms by (metis length_greater_0_conv)
  have bl: "backlog_ok (w_backlog w) (w_size w) \<Longrightarrow>
      backlog_ok (w_backlog w @ map WriteReq ms) (w_size w + total_size ms)"
    using pos by (auto simp: backlog_ok_def len o_def)
  have weak: "stream_weak w ?v"
    using nf by (auto simp: stream_weak_def stream_frame_def stream_inv_def flow_inv_def finalize_count_def)
  have rel: "stream_rel w (snd (start_backlog_writing ?v))"
    using nf bl
    by (auto simp: start_backlog_writing_def add_writer_def run stream_rel_def stream_frame_def
        stream_inv_def flow_inv_def finalize_count_def stream_out_def pending_def)
  have inr: "fst (start_backlog_writing ?v) = Inr ()"
    by (simp add: start_backlog_writing_def add_writer_def run)
  show ?thesis
  proof (cases "fst (append_lines_tail ds n w)")
    case (Inl x)
    then show ?thesis
      using v e err [OF weak] by (cases "append_lines_tail ds n w") (simp add: wp_def)
  next
    case (Inr u)
    then show ?thesis
      using v ok [OF rel] inr
      by (cases "append_lines_tail ds n w"; cases "start_backlog_writing ?v") (simp add: wp_def)
  qed
qed

lemma weak_or_rel_handle:
  "stream_weak w v \<Longrightarrow> \<not> is_exit e \<Longrightarrow>
     wp (handle_error stream_methods msg e) (\<lambda>_. stream_rel w) (\<lambda>_. stream_rel w) v"
  by (rule handle_error_weak)

section \<open>sendfile\<close>

lemma sendfile_ret_spec:
  "sendfile_ret rs len = (r, ks) \<Longrightarrow> set ks \<subseteq> set rs \<and>
     (case r of
        Inl c \<Rightarrow> \<exists>e. c = OSErr e
      | Inr n \<Rightarrow> n \<le> len \<and> (n = 0 \<longrightarrow> len = 0 \<or> SysOk 0 \<in> set rs))"
  by (induction rs len arbitrary: r rule: sendfile_ret.induct) (auto split: if_splits sum.splits)

definition request_bytes :: "'a pyworld_scheme \<Rightarrow> sendfile_request \<Rightarrow> bytes" where
  "request_bytes w r = item_bytes (files w) (SendFile r)"

lemma os_sendfile_cases:
  obtains (ok) n ks where
      "os_sendfile (sf_fd r) (sf_offset r) (sf_count r) w =
         (Inr (int n), w\<lparr>k_send := ks, wire := wire w @ take n (request_bytes w r)\<rparr>)"
      "n \<le> length (request_bytes w r)" "set ks \<subseteq> set (k_send w)"
      "n = 0 \<Longrightarrow> request_bytes w r = [] \<or> \<not> kernel_ok w"
  | (err) e ks where
      "os_sendfile (sf_fd r) (sf_offset r) (sf_count r) w = (Inl (exn_of (OSErr e)), w\<lparr>k_send := ks\<rparr>)"
      "set ks \<subseteq> set (k_send w)"
proof -
  let ?avail = "request_bytes w r"
  have avail: "take (nat (sf_count r)) (drop (nat (sf_offset r)) (file_bytes w (sf_fd r))) = ?avail"
    by (simp add: request_bytes_def file_bytes_def)
  show ?thesis
  proof (cases "sendfile_ret (k_send w) (length ?avail)")
    case (Pair x ks)
    note spec = sendfile_ret_spec [OF this]
    show ?thesis
    proof (cases x)
      case (Inl c)
      then obtain e where "c = OSErr e" using spec by auto
      then show ?thesis
        using err [of e ks] spec Pair Inl by (simp add: os_sendfile_def avail Let_def)
    next
      case (Inr n)
      then show ?thesis
        using ok [of n ks] spec Pair
        by (auto simp: os_sendfile_def avail Let_def kernel_ok_def)
    qed
  qed
qed

lemma request_bytes_advance:
  assumes "0 \<le> sf_offset r" "int n \<le> sf_count r"
  shows "request_bytes w (r\<lparr>sf_offset := sf_offset r + int n, sf_count := sf_count r - int n\<rparr>) =
           drop n (request_bytes w r)"
  using assms
  by (simp add: request_bytes_def nat_diff_distrib nat_add_distrib drop_take add.commute)

text \<open>
  What a run of "_try_sendfile" does: the request moves forward over bytes that went to the
  wire, and an unfinished one still has bytes to send.
\<close>

definition moved ::
  "(sendfile_request \<Rightarrow> 'a stream_transport_scheme \<Rightarrow> 'a stream_transport_scheme) \<Rightarrow>
     sendfile_request \<Rightarrow> 'a stream_transport_scheme \<Rightarrow> sendfile_request \<Rightarrow> 'a stream_transport_scheme \<Rightarrow> bool" where
  "moved put r w r' v =
     (\<exists>ks bs. v = put r' (w\<lparr>k_send := ks, wire := wire w @ bs\<rparr>) \<and> set ks \<subseteq> set (k_send w) \<and>
        sf_id r' = sf_id r \<and> sf_waiter r' = sf_waiter r \<and> sf_fd r' = sf_fd r \<and>
        0 \<le> sf_offset r' \<and> 0 \<le> sf_count r' \<and> sf_count r' \<le> sf_count r \<and>
        (kernel_ok w \<longrightarrow> bs @ request_bytes w r' = request_bytes w r))"

text \<open>
  The contract between the transfer loop and the object it mutates: writing the request
  back is a state update that touches neither the kernel nor the files. It is met by a
  request that is not queued and by the one at the head of the deque.
\<close>

locale request_store =
  fixes put :: "sendfile_request \<Rightarrow> 'a stream_transport_scheme \<Rightarrow> 'a stream_transport_scheme"
    and sync :: "sendfile_request \<Rightarrow> ('a stream_transport_scheme, unit) prog"
  assumes sync_put: "sync r v = (Inr (), put r v)"
    and put_put: "put r (put r' v) = put r v"
    and put_io: "put r (v\<lparr>k_send := ks, wire := bs\<rparr>) = (put r v)\<lparr>k_send := ks, wire := bs\<rparr>"
    and put_same: "k_send (put r v) = k_send v" "wire (put r v) = wire v" "files (put r v) = files v"
begin

lemma moved_step:
  assumes m: "moved put r0 w r u" and c: "sf_count r \<noteq> 0"
  shows "wp (sendfile_step sync r)
           (\<lambda>x v. case x of
              Inl r' \<Rightarrow> moved put r0 w r' v \<and> nat (sf_count r') < nat (sf_count r)
            | Inr x \<Rightarrow> moved put r0 w (snd x) v \<and> (if fst x then sf_count (snd x) = 0 else 0 < sf_count (snd x)))
           (\<lambda>e v. \<not> is_exit e \<and> (\<exists>r'. moved put r0 w r' v)) u"
proof -
  obtain ks bs where u: "u = put r (w\<lparr>k_send := ks, wire := wire w @ bs\<rparr>)" and ks: "set ks \<subseteq> set (k_send w)"
    and r: "sf_id r = sf_id r0" "sf_waiter r = sf_waiter r0" "sf_fd r = sf_fd r0" "0 \<le> sf_offset r"
      "0 \<le> sf_count r" "sf_count r \<le> sf_count r0"
    and out: "kernel_ok w \<longrightarrow> bs @ request_bytes w r = request_bytes w r0"
    using m unfolding moved_def by blast
  have req: "request_bytes u r' = request_bytes w r'" for r'
    by (simp add: request_bytes_def u put_same)
  have kok: "kernel_ok w \<longrightarrow> kernel_ok u" using ks by (auto simp: kernel_ok_def u put_same)
  have len: "length (request_bytes w r) \<le> nat (sf_count r)" by (simp add: request_bytes_def)
  let ?adv = "\<lambda>n. r\<lparr>sf_offset := sf_offset r + int n, sf_count := sf_count r - int n\<rparr>"
  have move: "moved put r0 w r' (put r' (u\<lparr>k_send := ks', wire := wire u @ bs'\<rparr>))"
    if "set ks' \<subseteq> set (k_send u)" "sf_id r' = sf_id r" "sf_waiter r' = sf_waiter r" "sf_fd r' = sf_fd r"
       "0 \<le> sf_offset r'" "0 \<le> sf_count r'" "sf_count r' \<le> sf_count r"
       "kernel_ok w \<longrightarrow> bs' @ request_bytes w r' = request_bytes w r" for r' ks' bs'
    unfolding moved_def
    using that r out ks
    by (intro exI [of _ ks'] exI [of _ "bs @ bs'"]) (auto simp: u put_put put_io put_same)
  show ?thesis
  proof (rule os_sendfile_cases [of r u])
    fix n ks'
    assume o: "os_sendfile (sf_fd r) (sf_offset r) (sf_count r) u =
         (Inr (int n), u\<lparr>k_send := ks', wire := wire u @ take n (request_bytes u r)\<rparr>)"
      and n: "n \<le> length (request_bytes u r)" and ks': "set ks' \<subseteq> set (k_send u)"
      and zero: "n = 0 \<Longrightarrow> request_bytes u r = [] \<or> \<not> kernel_ok u"
    have nc: "int n \<le> sf_count r" using n len r(5) req by simp
    have adv: "moved put r0 w (?adv n)
        (put (?adv n) (u\<lparr>k_send := ks', wire := wire u @ take n (request_bytes u r)\<rparr>))"
      using r nc ks' request_bytes_advance [OF r(4) nc, of w] by (intro move) (simp_all add: req)
    have stop: "moved put r0 w (r\<lparr>sf_count := 0\<rparr>)
        (put (r\<lparr>sf_count := 0\<rparr>) (u\<lparr>k_send := ks', wire := wire u @ take n (request_bytes u r)\<rparr>))"
      if "n = 0"
      using r ks' zero [OF that] kok that
      by (intro move) (auto simp: req, auto simp: request_bytes_def)
    show ?thesis
      using c o adv stop nc r(5)
      by (auto simp: sendfile_step_def wps wp_def run sync_put Let_def)
  next
    fix e ks'
    assume o: "os_sendfile (sf_fd r) (sf_offset r) (sf_count r) u =
        (Inl (exn_of (OSErr e)), u\<lparr>k_send := ks'\<rparr>)" and ks': "set ks' \<subseteq> set (k_send u)"
    have e: "u\<lparr>k_send := ks'\<rparr> = put r (u\<lparr>k_send := ks', wire := wire u @ []\<rparr>)"
      by (simp add: u put_io put_put put_same)
    have "moved put r0 w r (u\<lparr>k_send := ks'\<rparr>)"
      by (subst e) (use ks' r in \<open>intro move; simp\<close>)
    then show ?thesis
      using c o r(5)
      by (auto simp: sendfile_step_def wps wp_def run os_sendfile_error_def os_error_defs)
  qed
qed

lemma moved_loop:
  assumes "moved put r0 w r u" and "nat (sf_count r) < n"
  shows "wp (loop n (sendfile_step sync) r)
           (\<lambda>x v. moved put r0 w (snd x) v \<and> (if fst x then sf_count (snd x) = 0 else 0 < sf_count (snd x)))
           (\<lambda>e v. \<not> is_exit e \<and> (\<exists>r'. moved put r0 w r' v)) u"
proof (rule wp_loop_total [where J = "\<lambda>r u. moved put r0 w r u" and m = "\<lambda>r u. nat (sf_count r)"])
  fix r u
  assume m: "moved put r0 w r u"
  show "wp (sendfile_step sync r)
          (\<lambda>x v. case x of
             Inl r' \<Rightarrow> moved put r0 w r' v \<and> nat (sf_count r') < nat (sf_count r)
           | Inr x \<Rightarrow> moved put r0 w (snd x) v \<and>
               (if fst x then sf_count (snd x) = 0 else 0 < sf_count (snd x)))
          (\<lambda>e v. \<not> is_exit e \<and> (\<exists>r'. moved put r0 w r' v)) u"
  proof (cases "sf_count r = 0")
    case True
    then show ?thesis using m by (simp add: sendfile_step_def wps)
  next
    case False
    from moved_step [OF m this] show ?thesis by simp
  qed
qed (use assms in auto)

lemma moved_start:
  assumes "put r w = w" "0 \<le> sf_offset r" "0 \<le> sf_count r"
  shows "moved put r w r w"
  unfolding moved_def using assms
  by (intro exI [of _ "k_send w"] exI [of _ "[]"]) (auto simp: put_io)

lemma try_sendfile_wp:
  assumes "put r w = w" "0 \<le> sf_offset r" "0 \<le> sf_count r"
  shows "wp (try_sendfile sync r)
           (\<lambda>x v. moved put r w (snd x) v \<and> (if fst x then sf_count (snd x) = 0 else 0 < sf_count (snd x)))
           (\<lambda>e v. \<not> is_exit e \<and> (\<exists>r'. moved put r w r' v)) w"
  using moved_start [OF assms] moved_loop [of r w r w "nat (sf_count r) + 1"]
  by (auto simp: try_sendfile_def wps)

end

interpretation fresh: request_store "\<lambda>_ w. w" "\<lambda>_. ret ()"
  by unfold_locales simp_all

interpretation queued: request_store
  "\<lambda>r w. w\<lparr>w_backlog := SendFile r # drop 1 (w_backlog w)\<rparr>" sync_top
  by unfold_locales (simp_all add: sync_top_def)

section \<open>The operations\<close>

lemma enqueue_rel:
  assumes "stream_item it" "0 < item_size it" "\<not> t_finalizing w"
  shows "stream_rel w (snd (start_backlog_writing
           (w\<lparr>w_backlog := w_backlog w @ [it], w_size := w_size w + item_size it\<rparr>)))"
  using assms backlog_ok_append [of "w_backlog w" "w_size w" it]
  by (auto simp: start_backlog_writing_def add_writer_def run
      stream_rel_def stream_frame_def stream_inv_def flow_inv_def finalize_count_def
      stream_out_def pending_def)

lemma create_future_in_rel: "steps_in stream_rel create_future"
  unfolding steps_in_def create_future_def
  by (intro allI rel_same) (simp_all add: finalize_count_def)

lemma set_waiter_same:
  "item_size (set_request_waiter i f it) = item_size it"
  "item_bytes fs (set_request_waiter i f it) = item_bytes fs it"
  "stream_item (set_request_waiter i f it) = stream_item it"
  by (cases it; simp add: set_request_waiter_def)+

lemma set_waiter_in_rel:
  "steps_in stream_rel (upd (\<lambda>w. w\<lparr>w_backlog := map (set_request_waiter i f) (w_backlog w)\<rparr>))"
proof (rule st.upd_in)
  fix w :: "'a stream_transport_scheme"
  let ?v = "w\<lparr>w_backlog := map (set_request_waiter i f) (w_backlog w)\<rparr>"
  have "backlog_ok (w_backlog ?v) (w_size ?v) = backlog_ok (w_backlog w) (w_size w)"
    by (simp add: backlog_ok_def o_def set_waiter_same)
  moreover have "pending ?v = pending w" by (simp add: pending_def o_def set_waiter_same)
  ultimately show "stream_rel w ?v"
    by (auto simp: stream_rel_def stream_frame_def stream_inv_def flow_inv_def finalize_count_def
        stream_out_def)
qed

lemma new_request_wp:
  assumes "\<And>v r. stream_rel w v \<Longrightarrow> t_finalizing v = t_finalizing w \<Longrightarrow> 0 \<le> sf_offset r \<Longrightarrow>
             0 \<le> sf_count r \<Longrightarrow> Q r v"
    and "\<And>e. E e w"
  shows "wp (new_sendfile_request file offset count) Q E w"
proof -
  have "stream_rel w (w\<lparr>w_next_request := w_next_request w + 1\<rparr>)"
    by (rule rel_same) (simp_all add: finalize_count_def)
  then show ?thesis
    using assms
    by (auto simp: new_sendfile_request_def wps split: sum.splits dest!: make_sendfile_request_ok)
qed

lemma fresh_sendfile_wp:
  assumes "w_size w = 0" "0 \<le> sf_offset r" "0 \<le> sf_count r"
    and ok: "\<And>b r' v. stream_rel w v \<Longrightarrow> t_finalizing v = t_finalizing w \<Longrightarrow> 0 \<le> sf_offset r' \<Longrightarrow>
               b \<or> 0 < sf_count r' \<Longrightarrow> Q (b, r') v"
    and err: "\<And>e v. stream_rel w v \<Longrightarrow> E e v"
  shows "wp (try_sendfile (\<lambda>_. ret ()) r) Q E w"
proof -
  have m: "stream_rel w v \<and> t_finalizing v = t_finalizing w \<and> 0 \<le> sf_offset r'"
    if "moved (\<lambda>_ w. w) r w r' v" for r' v
    using that rel_wire [OF assms(1)] by (auto simp: moved_def)
  show ?thesis
    by (rule wp_weaken [OF fresh.try_sendfile_wp [OF refl assms(2,3)]])
       (auto dest!: m intro!: ok err split: if_splits)
qed

context reentrant_app
begin

lemma writelines_nocheck_in_rel: "steps_in stream_rel (writelines_nocheck apps ds)"
proof (rule steps_in_wp)
  fix w :: "'a stream_transport_scheme"
  have rest: "wp (append_lines_tail ds n)
            (\<lambda>_. wp start_backlog_writing
               (\<lambda>_. wp (maybe_pause_protocol apps) (\<lambda>_. stream_rel w)
                  (\<lambda>e. wp (handle_error stream_methods ''Fatal write error on transport'' e)
                     (\<lambda>_. stream_rel w) (\<lambda>_. stream_rel w)))
               (\<lambda>e. wp (handle_error stream_methods ''Fatal write error on transport'' e)
                     (\<lambda>_. stream_rel w) (\<lambda>_. stream_rel w)))
            (\<lambda>e. wp (handle_error stream_methods ''Fatal write error on transport'' e)
                     (\<lambda>_. stream_rel w) (\<lambda>_. stream_rel w)) v"
    if v: "stream_rel w v" "\<not> t_finalizing v" "0 \<le> n" for v n
    by (rule append_lines_start_wp [OF v(2,3)])
       (auto intro: or_handle wp_rel_steps maybe_pause_in_rel stream_rel_trans [OF v(1)]
         weak_or_rel_handle weak_trans [OF v(1)])
  show "wp (writelines_nocheck apps ds) (\<lambda>_. stream_rel w) (\<lambda>_. stream_rel w) w"
    unfolding writelines_nocheck_def wp_bnd [of "pre_write_check _"]
    by (rule pre_write_check_wp)
       (auto simp: wps stream_rel_refl intro!: try_writelines_data_wp rest handle_error_rel)
qed

lemma queue_sendfile_wp:
  assumes nf: "\<not> t_finalizing w" and r: "0 \<le> sf_offset r" "0 < sf_count r"
  shows "wp (queue_sendfile apps r) (\<lambda>_. stream_rel w) (\<lambda>_. stream_rel w) w"
proof -
  have tail: "steps_in stream_rel (andthen (maybe_pause_protocol apps)
       (bnd create_future (\<lambda>i.
         andthen
           (upd (\<lambda>w. w\<lparr>w_backlog := map (set_request_waiter (sf_id r) i) (w_backlog w)\<rparr>))
           (ret (Some i)))))"
    by (intro st.andthen_in st.bnd_in st.ret_in maybe_pause_in_rel create_future_in_rel set_waiter_in_rel)
  let ?v = "w\<lparr>w_backlog := w_backlog w @ [SendFile r], w_size := w_size w + sf_count r\<rparr>"
  have s: "stream_rel w (snd (start_backlog_writing ?v))"
    using enqueue_rel [of "SendFile r" w] nf r by simp
  have inr: "fst (start_backlog_writing ?v) = Inr ()"
    by (simp add: start_backlog_writing_def add_writer_def run)
  from wp_rel_steps [OF s tail] inr show ?thesis
    by (cases "start_backlog_writing ?v")
       (simp add: queue_sendfile_def wp_def run split: prod.splits sum.splits)
qed

lemma send_or_queue_wp:
  assumes "\<not> t_finalizing w" "0 \<le> sf_offset r" "0 < sf_count r"
  shows "wp (send_or_queue apps r) (\<lambda>_. stream_rel w) (\<lambda>_. stream_rel w) w"
proof (cases "w_size w = 0")
  case True
  have "wp (try_sendfile (\<lambda>_. ret ()) r)
          (\<lambda>x. wp (case x of (sent, r') \<Rightarrow> if sent then ret None else queue_sendfile apps r')
             (\<lambda>_. stream_rel w) (\<lambda>_. stream_rel w)) (\<lambda>_. stream_rel w) w"
    by (rule fresh_sendfile_wp [OF True assms(2)])
       (use assms in \<open>auto simp: wps intro: wp_rel_trans queue_sendfile_wp\<close>)
  with True show ?thesis by (simp add: send_or_queue_def wps)
next
  case False
  with queue_sendfile_wp [OF assms] show ?thesis by (simp add: send_or_queue_def wps)
qed

lemma sendfile_in_rel: "steps_in stream_rel (stream_sendfile apps file offset count)"
proof (rule steps_in_wp)
  fix w :: "'a stream_transport_scheme"
  have rest: "wp (try_except (send_or_queue apps r)
             (\<lambda>e. andthen (handle_error stream_methods ''Fatal sendfile error on transport'' e)
                    (reraise e))) (\<lambda>_. stream_rel w) (\<lambda>_. stream_rel w) v"
    if "stream_rel w v" "\<not> t_finalizing v" "0 \<le> sf_offset r" "0 < sf_count r" for v r
    unfolding wp_try_except wp_andthen wp_reraise
    by (rule wp_weaken [OF wp_rel_trans [OF that(1) send_or_queue_wp [OF that(2-4)]]])
       (auto intro: handle_error_rel)
  have create: "wp (bnd (new_sendfile_request file offset count) (\<lambda>request.
         if sf_count request = 0 then ret None
         else
           try_except (send_or_queue apps request)
             (\<lambda>e. andthen (handle_error stream_methods ''Fatal sendfile error on transport'' e)
                    (reraise e)))) (\<lambda>_. stream_rel w) (\<lambda>_. stream_rel w) w"
    if "\<not> t_finalizing w"
    unfolding wp_bnd
    by (rule new_request_wp) (use that in \<open>auto simp: wp_ret stream_rel_refl intro!: rest\<close>)
  show "wp (stream_sendfile apps file offset count) (\<lambda>_. stream_rel w) (\<lambda>_. stream_rel w) w"
    unfolding stream_sendfile_def check_thread_def wp_andthen [of "block _"]
    using create
    by (simp add: wp_block wp_only_if wp_unless wp_raise stream_rel_refl)
qed

end

end
