(* ===== verification/StreamDrain.thy ===== *)
theory StreamDrain
  imports StreamEvents
begin

text \<open>
  Draining the backlog when the descriptor is writable: every round keeps the invariant and
  the stream, the fuel of the loop is always enough, and what follows (resume, shutdown or
  the final close) is again in \<open>stream_rel\<close>.
\<close>

section \<open>One round\<close>

lemma item_mems_nonempty: "backlog_ok q n \<Longrightarrow> [] \<notin> set (iov_mems iov_of_item q)"
proof (induction q arbitrary: n)
  case (Cons it q)
  then show ?case by (cases it) (auto simp: backlog_ok_def)
qed simp

lemma item_errors: "\<forall>x \<in> set q. \<forall>c. iov_of_item x = IovErr c \<longrightarrow> \<not> is_exit (exn_of c)"
  by (auto simp: iov_of_item_def split: item.splits)

lemma item_mems_prefix:
  "\<exists>rest. concat (map (item_bytes fs) q) = concat (iov_mems iov_of_item q) @ rest"
proof (induction q)
  case (Cons it q)
  then show ?case by (cases it) (auto simp: iov_of_item_def)
qed simp

lemma item_mems_size:
  "backlog_ok q n \<Longrightarrow> int (length (concat (iov_mems iov_of_item q))) \<le> n"
proof (induction q arbitrary: n)
  case Nil
  then show ?case by simp
next
  case (Cons it q)
  from Cons.prems have q: "backlog_ok q (n - item_size it)" and "0 < item_size it" "stream_item it"
    by (auto simp: backlog_ok_def)
  moreover have "0 \<le> n - item_size it"
    using q sum_list_nonneg_map [of q item_size] by (auto simp: backlog_ok_def)
  ultimately show ?case using Cons.IH [OF q] by (cases it) auto
qed

lemma weak_io:
  assumes "\<not> t_finalizing w" "set ks \<subseteq> set (k_send w)"
  shows "stream_weak w (w\<lparr>k_send := ks, wire := wire w @ bs, w_backlog := q\<rparr>)"
  using assms by (auto simp: stream_weak_def stream_frame_def stream_inv_def flow_inv_def finalize_count_def)

text \<open>Bytes that leave the head of the backlog for the wire.\<close>

lemma rel_drained:
  assumes "\<not> t_finalizing w" "set ks \<subseteq> set (k_send w)"
    and "stream_inv w \<Longrightarrow> backlog_ok q n"
    and "w_backlog w \<noteq> []"
    and "kernel_ok w \<Longrightarrow> bs @ concat (map (item_bytes (files w)) q) = pending w"
  shows "stream_rel w (w\<lparr>k_send := ks, wire := wire w @ bs, w_size := n, w_backlog := q, futures := f'\<rparr>)"
  using assms
  by (auto simp: stream_rel_def stream_frame_def stream_inv_def flow_inv_def finalize_count_def
      stream_out_def pending_def)

definition round_ok :: "'a stream_transport_scheme \<Rightarrow> bool \<Rightarrow> 'a stream_transport_scheme \<Rightarrow> bool" where
  "round_ok w b v =
     (stream_rel w v \<and> t_finalizing v = t_finalizing w \<and>
      (b \<longrightarrow> length (w_backlog v) < length (w_backlog w)))"

lemma round_writes:
  assumes inv: "stream_inv w" and nf: "\<not> t_finalizing w" and q: "w_backlog w = WriteReq m # rest"
  shows "wp (bnd (try_writelines iov_of_item (w_backlog w))
              (\<lambda>(ok, bytes_sent). andthen (consume_write_backlog bytes_sent) (ret ok)))
           (round_ok w) (\<lambda>e v. \<not> is_exit e \<and> stream_weak w v) w"
proof -
  let ?q = "w_backlog w"
  let ?bs = "concat (iov_mems iov_of_item ?q)"
  have ok: "backlog_ok ?q (w_size w)" using inv by (simp add: stream_inv_def)
  have "sent_part (concat ([] @ iov_mems iov_of_item ?q)) 0 w
          (fst (try_writelines iov_of_item ?q w)) (snd (try_writelines iov_of_item ?q w))"
    unfolding try_writelines_def
    by (rule try_writelines_sent [OF _ item_mems_nonempty [OF ok] _ item_errors])
       (simp_all add: AIOFN_MAX_IOVEC_def)
  then show ?thesis
  proof (rule sent_partE)
    fix ks k
    let ?v = "w\<lparr>k_send := ks, wire := wire w @ take k (concat ([] @ iov_mems iov_of_item ?q))\<rparr>"
    assume v: "snd (try_writelines iov_of_item ?q w) = ?v" and ks: "set ks \<subseteq> set (k_send w)"
      and k: "k \<le> length (concat ([] @ iov_mems iov_of_item ?q))"
      and e: "\<And>e. fst (try_writelines iov_of_item ?q w) = Inl e \<Longrightarrow> \<not> is_exit e"
      and r: "\<And>b n. fst (try_writelines iov_of_item ?q w) = Inr (b, n) \<Longrightarrow>
                n = 0 + int k \<and> (b \<longleftrightarrow> k = length (concat ([] @ iov_mems iov_of_item ?q)))"
    have weak: "stream_weak w ?v" using weak_io [OF nf ks, where q = ?q] by simp
    show ?thesis
    proof (cases "fst (try_writelines iov_of_item ?q w)")
      case (Inl x)
      with v e weak show ?thesis
        by (cases "try_writelines iov_of_item ?q w") (simp add: wp_def run)
    next
      case (Inr x)
      obtain b n where x: "x = (b, n)" by (cases x)
      with Inr r [of b n] have n: "n = int k" and b: "b \<longleftrightarrow> k = length ?bs" by simp_all
      from k have k': "k \<le> length ?bs" by simp
      obtain q' where q': "drop_sent ?q (int k) = (None, q')" "backlog_ok q' (w_size w - int k)"
        "concat (map (item_bytes (files w)) q') = drop k (concat (map (item_bytes (files w)) ?q))"
        "k = length ?bs \<and> iov_mems iov_of_item ?q \<noteq> [] \<longrightarrow> length q' < length ?q"
        using drop_sent_spec [OF ok k', of "files w"] by blast
      have "take k ?bs @ concat (map (item_bytes (files w)) q') = pending w"
        using q'(3) item_mems_prefix [of "files w" ?q] k'
        by (metis append_take_drop_id append.assoc drop_append take_append diff_is_0_eq' drop0 pending_def take0 append_Nil2)
      then have rel: "stream_rel w (w\<lparr>k_send := ks, wire := wire w @ take k ?bs,
                        w_size := w_size w - int k, w_backlog := q', futures := futures w\<rparr>)"
        using nf ks q' q by (intro rel_drained) simp_all
      have "int k \<le> w_size w" using item_mems_size [OF ok] k' by linarith
      moreover have "b \<longrightarrow> length q' < length ?q" using q'(4) b q by simp
      ultimately show ?thesis
        using v Inr x n q'(1) rel
        by (cases "try_writelines iov_of_item ?q w")
           (simp add: wp_def run consume_write_backlog_def round_ok_def)
    qed
  qed
qed

lemma moved_top:
  assumes m: "moved (\<lambda>r w. w\<lparr>w_backlog := SendFile r # drop 1 (w_backlog w)\<rparr>) r w r' u"
    and q: "w_backlog w = SendFile r # q"
  obtains ks bs where "u = w\<lparr>k_send := ks, wire := wire w @ bs, w_backlog := SendFile r' # q\<rparr>"
    "set ks \<subseteq> set (k_send w)" "0 \<le> sf_offset r'" "0 \<le> sf_count r'" "sf_count r' \<le> sf_count r"
    "kernel_ok w \<longrightarrow> bs @ item_bytes (files w) (SendFile r') = item_bytes (files w) (SendFile r)"
  using m q unfolding moved_def request_bytes_def by auto

lemma size_backlog_swap:
  "(w :: 'a writable_transport_scheme)\<lparr>w_backlog := q, w_size := n\<rparr> = w\<lparr>w_size := n, w_backlog := q\<rparr>"
  by (cases w) simp

lemma size_futures_swap:
  "(w :: 'a writable_transport_scheme)\<lparr>w_backlog := q, futures := f, w_size := n\<rparr> =
     w\<lparr>w_size := n, w_backlog := q, futures := f\<rparr>"
  by (cases w) simp

lemma round_sendfile:
  assumes inv: "stream_inv w" and nf: "\<not> t_finalizing w" and q: "w_backlog w = SendFile r # q"
  shows "wp (try_sendfile_from_backlog_top r) (round_ok w) (\<lambda>e v. \<not> is_exit e \<and> stream_weak w v) w"
proof -
  have ok: "backlog_ok (SendFile r # q) (w_size w)" using inv q by (simp add: stream_inv_def)
  then have r: "0 \<le> sf_offset r" "0 \<le> sf_count r" and bq: "backlog_ok q (w_size w - sf_count r)"
    by (auto simp: backlog_ok_def)
  have put: "w\<lparr>w_backlog := SendFile r # drop 1 (w_backlog w)\<rparr> = w" by (simp add: q [symmetric]) (simp add: q)
  let ?finish = "\<lambda>(all_sent, r').
       andthen
         (block [
           (if all_sent then
              block [
                upd (\<lambda>w. w\<lparr>w_backlog := drop 1 (w_backlog w)\<rparr>),
                (case sf_waiter r' of
                   None \<Rightarrow> raise AttributeErr
                 | Some i \<Rightarrow> unless (fut_done i) (fut_set i FutResult))]
            else ret ()),
           upd (\<lambda>w. w\<lparr>w_size := w_size w - (sf_count r - sf_count r')\<rparr>)])
         (ret all_sent) :: ('a stream_transport_scheme, bool) prog"
  have fin: "wp (?finish (b, r')) (round_ok w) (\<lambda>e v. \<not> is_exit e \<and> stream_weak w v) u"
    if m: "moved (\<lambda>r w. w\<lparr>w_backlog := SendFile r # drop 1 (w_backlog w)\<rparr>) r w r' u"
      and c: "if b then sf_count r' = 0 else 0 < sf_count r'" for b r' u
  proof (rule moved_top [OF m q])
    fix ks bs
    assume u: "u = w\<lparr>k_send := ks, wire := wire w @ bs, w_backlog := SendFile r' # q\<rparr>"
      and ks: "set ks \<subseteq> set (k_send w)" and r': "0 \<le> sf_offset r'" "0 \<le> sf_count r'" "sf_count r' \<le> sf_count r"
      and out: "kernel_ok w \<longrightarrow> bs @ item_bytes (files w) (SendFile r') = item_bytes (files w) (SendFile r)"
    let ?n = "w_size w - (sf_count r - sf_count r')"
    show ?thesis
    proof (cases b)
      case False
      have "backlog_ok (SendFile r' # q) ?n"
        using bq r' c False by (auto simp: backlog_ok_def)
      then have "stream_rel w (w\<lparr>k_send := ks, wire := wire w @ bs, w_size := ?n,
                    w_backlog := SendFile r' # q, futures := futures w\<rparr>)"
        using nf ks q out by (intro rel_drained) (auto simp: pending_def simp del: item_bytes_simps)
      with False show ?thesis by (simp add: wps u round_ok_def size_backlog_swap)
    next
      case True
      have "bs @ concat (map (item_bytes (files w)) q) = pending w" if "kernel_ok w"
        using out that c True q by (simp add: pending_def)
      then have rel: "stream_rel w (w\<lparr>k_send := ks, wire := wire w @ bs, w_size := ?n,
                    w_backlog := q, futures := f\<rparr>)" for f
        using nf ks q bq c True by (intro rel_drained) simp_all
      have rel': "stream_rel w (w\<lparr>k_send := ks, wire := wire w @ bs, w_size := ?n, w_backlog := q\<rparr>)"
        using rel [of "futures w"] by simp
      have weak: "stream_weak w (w\<lparr>k_send := ks, wire := wire w @ bs, w_backlog := q\<rparr>)"
        by (rule weak_io [OF nf ks])
      show ?thesis
      proof (cases "sf_waiter r'")
        case None
        with True weak show ?thesis by (simp add: wps u)
      next
        case (Some i)
        with True rel rel' q show ?thesis by (auto simp: wps u fut_set_def round_ok_def size_backlog_swap size_futures_swap)
      qed
    qed
  qed
  have "wp (try_sendfile sync_top r)
          (\<lambda>x. wp (?finish x) (round_ok w) (\<lambda>e v. \<not> is_exit e \<and> stream_weak w v))
          (\<lambda>e v. \<not> is_exit e \<and> stream_weak w v) w"
  proof (rule wp_weaken [OF queued.try_sendfile_wp [OF put r]])
    fix x u
    assume "moved (\<lambda>r w. w\<lparr>w_backlog := SendFile r # drop 1 (w_backlog w)\<rparr>) r w (snd x) u \<and>
        (if fst x then sf_count (snd x) = 0 else 0 < sf_count (snd x))"
    then have "wp (?finish (fst x, snd x)) (round_ok w) (\<lambda>e v. \<not> is_exit e \<and> stream_weak w v) u"
      by (elim conjE) (rule fin)
    then show "wp (?finish x) (round_ok w) (\<lambda>e v. \<not> is_exit e \<and> stream_weak w v) u"
      unfolding prod.collapse .
  next
    fix e u
    assume "\<not> is_exit e \<and> (\<exists>r'. moved (\<lambda>r w. w\<lparr>w_backlog := SendFile r # drop 1 (w_backlog w)\<rparr>) r w r' u)"
    then obtain r' where ne: "\<not> is_exit e"
      and m: "moved (\<lambda>r w. w\<lparr>w_backlog := SendFile r # drop 1 (w_backlog w)\<rparr>) r w r' u" by blast
    from m have "stream_weak w u"
      by (rule moved_top [OF _ q]) (use weak_io [OF nf] in simp)
    with ne show "\<not> is_exit e \<and> stream_weak w u" by simp
  qed
  then show ?thesis unfolding try_sendfile_from_backlog_top_def wp_bnd .
qed

section \<open>The loop\<close>

lemma drain_step_wp:
  assumes "stream_inv w" "\<not> t_finalizing w"
  shows "wp (drain_step b)
           (\<lambda>x v. case x of
              Inl b' \<Rightarrow> b \<and> round_ok w b' v
            | Inr _ \<Rightarrow> v = w \<and> (b \<longrightarrow> w_size w = 0))
           (\<lambda>e v. \<not> is_exit e \<and> stream_weak w v) w"
proof (cases "w_size w > 0 \<and> b")
  case False
  then show ?thesis using inv_nonneg [OF assms(1)] by (auto simp: drain_step_def wps)
next
  case True
  then have ne: "w_backlog w \<noteq> []" using inv_size_zero [OF assms(1)] by auto
  then obtain it q where q: "w_backlog w = it # q" by (cases "w_backlog w") auto
  have it: "stream_item it" using assms(1) q by (simp add: stream_inv_def backlog_ok_def)
  show ?thesis
  proof (cases it)
    case (WriteReq m)
    with round_writes [OF assms, of m q] True q show ?thesis
      by (simp add: drain_step_def wps)
  next
    case (SendFile r)
    with round_sendfile [OF assms, of r q] True q show ?thesis
      by (simp add: drain_step_def wps)
  next
    case (Datagram d a)
    with it show ?thesis by simp
  qed
qed

lemma round_inv: "stream_inv w \<Longrightarrow> round_ok w b v \<Longrightarrow> stream_inv v"
  by (simp add: round_ok_def stream_rel_def)

lemma drain_backlog_wp:
  \<comment> \<open>Total: the fuel \<open>drain_backlog\<close> takes is always enough.\<close>
  assumes "stream_inv w" "\<not> t_finalizing w"
  shows "wp drain_backlog
           (\<lambda>_ v. stream_rel w v \<and> t_finalizing v = t_finalizing w)
           (\<lambda>e v. \<not> is_exit e \<and> stream_weak w v) w"
proof -
  have "wp (loop (length (w_backlog w) + 2) drain_step True)
           (\<lambda>_ v. stream_rel w v \<and> t_finalizing v = t_finalizing w)
           (\<lambda>e v. \<not> is_exit e \<and> stream_weak w v) w"
  proof (rule wp_loop_total [where
        J = "\<lambda>_ v. stream_rel w v \<and> t_finalizing v = t_finalizing w" and
        m = "\<lambda>b v. if b then Suc (length (w_backlog v)) else 0"])
    fix b v
    assume j: "stream_rel w v \<and> t_finalizing v = t_finalizing w"
    then have v: "stream_inv v" "\<not> t_finalizing v" using assms by (auto simp: stream_rel_def)
    show "wp (drain_step b)
            (\<lambda>x u. case x of
               Inl b' \<Rightarrow> (stream_rel w u \<and> t_finalizing u = t_finalizing w) \<and>
                 (if b' then Suc (length (w_backlog u)) else 0) < (if b then Suc (length (w_backlog v)) else 0)
             | Inr r \<Rightarrow> stream_rel w u \<and> t_finalizing u = t_finalizing w)
            (\<lambda>e u. \<not> is_exit e \<and> stream_weak w u) v"
      by (rule wp_weaken [OF drain_step_wp [OF v]])
         (use j in \<open>auto simp: round_ok_def intro: stream_rel_trans weak_trans split: sum.splits if_splits\<close>)
  qed (simp_all add: stream_rel_refl)
  then show ?thesis by (simp add: drain_backlog_def wps)
qed

section \<open>After the drain, and the remaining operations\<close>

lemma shutdown_in_rel: "steps_in stream_rel sock_shutdown_wr"
  unfolding steps_in_def sock_shutdown_wr_def
  by (intro allI rel_same) (auto simp: finalize_count_def split: option.splits)

lemma write_eof_now_in_rel: "steps_in stream_rel write_eof_now"
  unfolding write_eof_now_def by (intro st.cond_in shutdown_in_rel close_in_rel)

lemma write_eof_in_rel: "steps_in stream_rel write_eof"
proof -
  have s: "steps_in stream_rel (upd (\<lambda>w. w\<lparr>s_write_eof := True\<rparr>) :: ('a stream_transport_scheme, unit) prog)"
    by (intro upd_same_in_rel rel_same) (simp_all add: finalize_count_def)
  show ?thesis
    unfolding write_eof_def
    by (intro st.order_rules check_thread_in_rel s write_eof_now_in_rel)
qed

text \<open>
  The writer is removed and, for a closing transport, the final close is scheduled in the
  same step: in between, a closing transport would have nothing left to finish it.
\<close>

lemma finish_drain_rel:
  assumes "w_size w = 0"
  shows "wp stop_backlog_writing
           (\<lambda>_. wp (cond t_closing (unless t_finalizing (schedule_finalize_close None))
                     (only_if s_write_eof write_eof_now)) (\<lambda>_. stream_rel w) (\<lambda>_. stream_rel w))
           (\<lambda>_. stream_rel w) w"
proof -
  let ?v = "snd (stop_backlog_writing w)"
  have inr: "fst (stop_backlog_writing w) = Inr ()"
    by (simp add: stop_backlog_writing_def remove_writer_def run)
  have same: "t_closing ?v = t_closing w" "t_finalizing ?v = t_finalizing w"
    by (simp_all add: stop_backlog_writing_def remove_writer_def run)
  have rel: "stream_rel w ?v" if c: "\<not> t_closing w \<or> t_finalizing w"
    unfolding stream_rel_def
  proof
    assume inv: "stream_inv w"
    then have "w_backlog w = []" using assms inv_size_zero by blast
    with inv c show "stream_frame w ?v \<and> stream_inv ?v \<and>
        (flow_inv w_watermarks w \<longrightarrow> flow_inv w_watermarks ?v) \<and>
        (kernel_ok w \<and> \<not> t_finalizing ?v \<longrightarrow> prefix (stream_out w) (stream_out ?v))"
      by (auto simp: stop_backlog_writing_def remove_writer_def run stream_frame_def
          stream_inv_def flow_inv_def finalize_count_def stream_out_def pending_def)
  qed
  have fin: "stream_rel w (snd (schedule_finalize_close None ?v))" if c: "t_closing w" "\<not> t_finalizing w"
    unfolding stream_rel_def
  proof
    let ?u = "snd (schedule_finalize_close None ?v)"
    assume inv: "stream_inv w"
    then have "w_backlog w = []" using assms inv_size_zero by blast
    with inv c show "stream_frame w ?u \<and> stream_inv ?u \<and>
        (flow_inv w_watermarks w \<longrightarrow> flow_inv w_watermarks ?u) \<and>
        (kernel_ok w \<and> \<not> t_finalizing ?u \<longrightarrow> prefix (stream_out w) (stream_out ?u))"
      by (auto simp: stop_backlog_writing_def remove_writer_def schedule_finalize_close_def call_soon_def
          run stream_frame_def stream_inv_def flow_inv_def finalize_count_def)
  qed
  have eof: "wp (only_if s_write_eof write_eof_now) (\<lambda>_. stream_rel w) (\<lambda>_. stream_rel w) ?v"
    if "\<not> t_closing w"
    by (rule wp_rel_steps [OF rel]) (use that in \<open>auto intro: st.only_if_in write_eof_now_in_rel\<close>)
  have "wp (cond t_closing (unless t_finalizing (schedule_finalize_close None))
                     (only_if s_write_eof write_eof_now)) (\<lambda>_. stream_rel w) (\<lambda>_. stream_rel w) ?v"
    using same rel fin eof
    by (auto simp: wp_cond wp_unless schedule_finalize_close_def call_soon_def wps run)
  with inr show ?thesis by (cases "stop_backlog_writing w") (simp add: wp_def)
qed

context reentrant_app
begin

lemma after_drain_in_rel: "steps_in stream_rel (after_drain apps)"
proof (rule steps_in_wp)
  fix w :: "'a stream_transport_scheme"
  have fin: "wp (only_if (\<lambda>w. w_size w = 0)
         (block [
           stop_backlog_writing,
           cond t_closing
             (unless t_finalizing (schedule_finalize_close None))
             (only_if s_write_eof write_eof_now)])) (\<lambda>_. stream_rel v) (\<lambda>_. stream_rel v) v"
    for v :: "'a stream_transport_scheme"
    using finish_drain_rel [of v] by (simp add: wp_only_if wp_block stream_rel_refl)
  have "wp (maybe_resume_protocol apps)
          (\<lambda>_. wp (only_if (\<lambda>w. w_size w = 0)
         (block [
           stop_backlog_writing,
           cond t_closing
             (unless t_finalizing (schedule_finalize_close None))
             (only_if s_write_eof write_eof_now)])) (\<lambda>_. stream_rel w) (\<lambda>_. stream_rel w))
          (\<lambda>_. stream_rel w) w"
    by (rule wp_steps_in [OF maybe_resume_in_rel]) (auto intro: wp_rel_trans fin)
  then show "wp (after_drain apps) (\<lambda>_. stream_rel w) (\<lambda>_. stream_rel w) w"
    unfolding after_drain_def wp_block .
qed

lemma write_ready_in_rel: "steps_in stream_rel (write_ready apps)"
proof (rule rel_wpI)
  fix w :: "'a stream_transport_scheme"
  assume inv: "stream_inv w"
  have body: "wp (try_else drain_backlog
         (handle_error stream_methods ''Fatal write error on transport'')
         (\<lambda>_. after_drain apps)) (\<lambda>_. stream_rel w) (\<lambda>_. stream_rel w) w"
    if "\<not> t_finalizing w"
    unfolding wp_try_else
    by (rule wp_weaken [OF drain_backlog_wp [OF inv that]])
       (auto intro: wp_rel_steps after_drain_in_rel handle_error_weak)
  then show "wp (write_ready apps) (\<lambda>_. stream_rel w) (\<lambda>_. stream_rel w) w"
    by (simp add: write_ready_def wp_unless stream_rel_refl)
qed

end

end
