(* ===== verification/SelectorSocket.thy ===== *)
theory SelectorSocket
  imports StreamDrain
begin

text \<open>
  The selector-driven socket transport (selector_transport.pyx, class
  \<open>SelectorSocketTransport\<close>): construction, the two read loops and end of file. A round
  of a read loop that continues has read at least one byte, so a loop that stops at
  \<open>MAX_READ_BYTES_PER_CYCLE_HINT\<close> bytes never needs more rounds than that.
\<close>

section \<open>Construction\<close>

definition DATA_RECEIVED_MAX_SIZE :: nat where "DATA_RECEIVED_MAX_SIZE = 256 * 1024"
definition MAX_READ_BYTES_PER_CYCLE_HINT :: nat where
  "MAX_READ_BYTES_PER_CYCLE_HINT = DATA_RECEIVED_MAX_SIZE"

text \<open>
  The state after the constructor, on a descriptor of a fresh world. \<open>waiter\<close> is the
  index of the future that construction completes. The first callbacks are scheduled in the
  order in which they have to run.
\<close>

definition schedule_start :: "bool \<Rightarrow> nat option \<Rightarrow> 'a pyworld_scheme \<Rightarrow> 'a pyworld_scheme" where
  "schedule_start reads waiter w =
     w\<lparr>soon := soon w @ [SoonConnectionMade] @ (if reads then [SoonAddReader] else []) @
         (case waiter of None \<Rightarrow> [] | Some i \<Rightarrow> [SoonSetResult i])\<rparr>"

definition selector_socket_new ::
  "(nat \<Rightarrow> stream_transport app) \<Rightarrow> nat \<Rightarrow> nat option \<Rightarrow> bool \<Rightarrow> int \<Rightarrow> pyworld \<Rightarrow> stream_transport" where
  "selector_socket_new apps p waiter server fd w =
     schedule_start True waiter ((stream_init apps p server fd True w)\<lparr>s_sendfile_compatible := True\<rparr>)"

lemmas init_defs = stream_init_def writable_init_def fd_transport_init_def transport_init_def
  pyworld.defs transport.defs fd_transport.defs writable_transport.defs stream_transport.defs
  set_protocol_nocheck_def schedule_start_def

lemma selector_socket_new_eq:
  "selector_socket_new apps p waiter server fd w =
     \<lparr>thread_now = thread_now w, reader_on = reader_on w, writer_on = writer_on w,
      soon = soon w @ [SoonConnectionMade, SoonAddReader] @
             (case waiter of None \<Rightarrow> [] | Some i \<Rightarrow> [SoonSetResult i]),
      trace = trace w, k_send = k_send w, k_recv = k_recv w, wire = wire w,
      shutdown_wr = shutdown_wr w, shutdown_result = shutdown_result w,
      files = files w, futures = futures w,
      t_thread_id = thread_now w, t_protocol = Some p, t_buffered = app_buffered (apps p),
      t_aiofn = app_aiofn (apps p), t_connected = False, t_eof_received = False,
      t_read_paused = False, t_closing = False, t_finalizing = False,
      f_open = True, f_fileno = fd, f_is_socket = True,
      w_watermarks = watermarks_new, w_backlog = [], w_size = 0, w_closed_count = 0,
      w_registered = False, w_next_request = 0,
      s_server = server, s_write_eof = False, s_sendfile_compatible = True,
      s_has_os_sendfile = True, s_darwin = False\<rparr>"
  by (simp add: selector_socket_new_def init_defs)

section \<open>Reading\<close>

definition read_ready_on_eof ::
  "(nat \<Rightarrow> 'a stream_transport_scheme app) \<Rightarrow> ('a stream_transport_scheme, unit) prog" where
  "read_ready_on_eof apps =
     bnd (call_protocol_eof_received apps) (\<lambda>keep_open.
       if keep_open then remove_reader else writable_close)"

definition read_step_get_buffer ::
  "(nat \<Rightarrow> 'a stream_transport_scheme app) \<Rightarrow> nat \<Rightarrow> ('a stream_transport_scheme, nat + unit) prog" where
  "read_step_get_buffer apps total_read =
     (if \<not> total_read < MAX_READ_BYTES_PER_CYCLE_HINT then leave_with ()
      else cond (\<lambda>w. t_finalizing w \<or> t_read_paused w) (leave_with ())
        (bnd (call_protocol_get_buffer apps) (\<lambda>buf_len.
          bnd (sys_read buf_len) (\<lambda>r.
            case r of
              None \<Rightarrow> leave_with ()
            | Some bs \<Rightarrow>
                if bs = [] then andthen (read_ready_on_eof apps) (leave_with ())
                else
                  andthen (call_protocol_buffer_updated apps bs)
                    (if length bs < buf_len then leave_with ()
                     else cond t_buffered (continue_with (total_read + length bs)) (leave_with ()))))))"

definition read_step_data_received ::
  "(nat \<Rightarrow> 'a stream_transport_scheme app) \<Rightarrow> nat \<Rightarrow> ('a stream_transport_scheme, nat + unit) prog" where
  "read_step_data_received apps total_read =
     (if \<not> total_read < MAX_READ_BYTES_PER_CYCLE_HINT then leave_with ()
      else cond (\<lambda>w. t_finalizing w \<or> t_read_paused w) (leave_with ())
        (bnd (sys_simple_read DATA_RECEIVED_MAX_SIZE) (\<lambda>(d, bytes_read).
          if bytes_read = -1 then leave_with ()
          else if bytes_read = 0 then andthen (read_ready_on_eof apps) (leave_with ())
          else
            andthen (call_protocol_data_received apps d)
              (if bytes_read < int DATA_RECEIVED_MAX_SIZE then leave_with ()
               else cond t_buffered (leave_with ()) (continue_with (total_read + nat bytes_read))))))"

definition selector_socket_read_ready ::
  "(nat \<Rightarrow> 'a stream_transport_scheme app) \<Rightarrow> ('a stream_transport_scheme, unit) prog" where
  "selector_socket_read_ready apps =
     try_except
       (cond t_buffered
         (loop (MAX_READ_BYTES_PER_CYCLE_HINT + 1) (read_step_get_buffer apps) 0)
         (loop (MAX_READ_BYTES_PER_CYCLE_HINT + 1) (read_step_data_received apps) 0))
       (handle_error stream_methods ''Fatal read error on socket transport'')"

section \<open>What the event loop runs\<close>

text \<open>The callbacks of the last branch are scheduled by the TLS transports only.\<close>

definition run_soon ::
  "(nat \<Rightarrow> 'a stream_transport_scheme app) \<Rightarrow> soon \<Rightarrow> ('a stream_transport_scheme, unit) prog" where
  "run_soon apps s =
     (case s of
        SoonConnectionMade \<Rightarrow> call_protocol_connection_made apps
      | SoonAddReader \<Rightarrow> add_reader
      | SoonSetResult i \<Rightarrow> aiofn_set_result_unless_cancelled i
      | SoonFinalizeClose exc \<Rightarrow> finalize_close apps exc
      | _ \<Rightarrow> ret ())"

section \<open>What an application can call\<close>

datatype call =
    CallWrite pybuf
  | CallWritelines "pybuf list"
  | CallWriteC bytes
  | CallSendfile pyfile pyint_arg pyint_arg
  | CallWriteEof
  | CallClose
  | CallAbort
  | CallPauseReading
  | CallResumeReading
  | CallSetLimits "int option" "int option"
  | CallGetSize
  | CallSetProtocol nat

definition run_call ::
  "(nat \<Rightarrow> 'a stream_transport_scheme app) \<Rightarrow> call \<Rightarrow> ('a stream_transport_scheme, unit) prog" where
  "run_call apps c =
     (case c of
        CallWrite d \<Rightarrow> transport_write (write_nocheck apps) d
      | CallWritelines ds \<Rightarrow> transport_writelines (writelines_nocheck apps) ds
      | CallWriteC bs \<Rightarrow> write_c apps bs
      | CallSendfile file offset cnt \<Rightarrow> andthen (stream_sendfile apps file offset cnt) (ret ())
      | CallWriteEof \<Rightarrow> write_eof
      | CallClose \<Rightarrow> writable_close
      | CallAbort \<Rightarrow> abort stream_methods
      | CallPauseReading \<Rightarrow> pause_reading stream_methods
      | CallResumeReading \<Rightarrow> resume_reading stream_methods
      | CallSetLimits high low \<Rightarrow> set_write_buffer_limits apps high low
      | CallGetSize \<Rightarrow> andthen (get_write_buffer_size apps) (ret ())
      | CallSetProtocol p \<Rightarrow> set_protocol apps p)"

text \<open>
  Applications as data: each callback reads the trace, which is all the application has
  seen, and chooses the calls it makes, whether it survives an exception of each call, and
  the exception it ends with. A callback started by a call of nesting depth \<open>d\<close> makes calls of
  depth \<open>d - 1\<close>; at depth 0 the callbacks do nothing. The depth is a parameter of every
  theorem, so reentrancy is covered to any depth.
\<close>

type_synonym script = "obs list \<Rightarrow> (call \<times> bool) list \<times> exn option"

record behaviour =
  b_buffered :: bool
  b_aiofn :: bool
  b_connection_made :: script
  b_connection_lost :: script
  b_data_received :: script
  b_eof_received :: script
  b_keep_open :: "obs list \<Rightarrow> bool"
  b_get_buffer :: script
  b_buffer :: "obs list \<Rightarrow> pybuf"
  b_buffer_updated :: script
  b_pause_writing :: script
  b_resume_writing :: script
  b_local_size :: "obs list \<Rightarrow> int"

definition run_script ::
  "(nat \<Rightarrow> 'a stream_transport_scheme app) \<Rightarrow> script \<Rightarrow> ('a stream_transport_scheme, unit) prog" where
  "run_script apps sc =
     bnd (gets (\<lambda>w. sc (trace w))) (\<lambda>(cs, e).
       andthen
         (for_each cs (\<lambda>(c, survives).
            if survives then try_except (run_call apps c) (\<lambda>_. ret ()) else run_call apps c))
         (case e of None \<Rightarrow> ret () | Some x \<Rightarrow> reraise x))"

definition inert_app :: "bool \<Rightarrow> bool \<Rightarrow> 'w app" where
  "inert_app buffered aiofn = idle_app\<lparr>app_buffered := buffered, app_aiofn := aiofn\<rparr>"

definition scripted_app ::
  "(nat \<Rightarrow> 'a stream_transport_scheme app) \<Rightarrow> behaviour \<Rightarrow> 'a stream_transport_scheme app" where
  "scripted_app apps b =
     \<lparr>app_buffered = b_buffered b, app_aiofn = b_aiofn b,
      on_connection_made = run_script apps (b_connection_made b),
      on_connection_lost = (\<lambda>_. run_script apps (b_connection_lost b)),
      on_data_received = (\<lambda>_. run_script apps (b_data_received b)),
      on_eof_received = andthen (run_script apps (b_eof_received b)) (gets (\<lambda>w. b_keep_open b (trace w))),
      on_get_buffer = (\<lambda>_. andthen (run_script apps (b_get_buffer b)) (gets (\<lambda>w. b_buffer b (trace w)))),
      on_buffer_updated = (\<lambda>_. run_script apps (b_buffer_updated b)),
      on_pause_writing = run_script apps (b_pause_writing b),
      on_resume_writing = run_script apps (b_resume_writing b),
      on_datagram_received = (\<lambda>_ _. ret ()), on_error_received = (\<lambda>_. ret ()),
      on_local_write_buffer_size = gets (\<lambda>w. b_local_size b (trace w))\<rparr>"

fun scripted :: "nat \<Rightarrow> (nat \<Rightarrow> behaviour) \<Rightarrow> nat \<Rightarrow> 'a stream_transport_scheme app" where
  "scripted 0 B p = inert_app (b_buffered (B p)) (b_aiofn (B p))"
| "scripted (Suc d) B p = scripted_app (scripted d B) (B p)"

section \<open>Every call of an application is in the relation\<close>

lemma start_reading_in_rel: "steps_in stream_rel (m_start_reading stream_methods)"
  by (simp add: stream_methods_def writable_methods_def fd_methods_base_def fd_start_reading_def
      reading_in_rel)

context reentrant_app
begin

lemma run_call_in_rel: "steps_in stream_rel (run_call apps c)"
proof (cases c)
  case CallAbort
  then show ?thesis
    by (simp add: run_call_def abort_def stream_methods_def writable_methods_def)
       (intro st.order_rules check_thread_in_rel force_close_in_rel)
next
  case CallPauseReading
  have "pause_reading_nocheck (stream_methods :: 'a stream_transport_scheme methods) =
          pause_reading_nocheck fd_methods_base"
    by (simp add: pause_reading_nocheck_def stream_methods_def writable_methods_def)
  with CallPauseReading show ?thesis
    by (simp add: run_call_def pause_reading_def)
       (intro st.order_rules check_thread_in_rel pause_reading_nocheck_in_rel)
next
  case (CallWritelines ds)
  have "steps_in stream_rel (transport_writelines (writelines_nocheck apps) ds)"
    unfolding transport_writelines_def
    by (cases "ds = []")
       (simp_all, (intro st.order_rules check_thread_in_rel writelines_nocheck_in_rel)+)
  with CallWritelines show ?thesis by (simp add: run_call_def)
qed (auto simp: run_call_def transport_write_def resume_reading_def get_write_buffer_size_def
    set_protocol_def intro!: st.order_rules check_thread_in_rel write_nocheck_in_rel write_c_in_rel
    sendfile_in_rel write_eof_in_rel close_in_rel start_reading_in_rel reading_in_rel set_limits_in_rel
    buffer_size_in_rel set_protocol_in_rel)

lemma run_script_in_rel: "steps_in stream_rel (run_script apps sc)"
proof (rule steps_in_wp)
  fix w :: "'a stream_transport_scheme"
  have "steps_in stream_rel (andthen
         (for_each cs (\<lambda>(c, survives).
            if survives then try_except (run_call apps c) (\<lambda>_. ret ()) else run_call apps c))
         (case e of None \<Rightarrow> ret () | Some x \<Rightarrow> reraise x))" for cs e
    by (intro st.andthen_in st.for_each_in)
       (auto intro: st.order_rules run_call_in_rel split: option.splits prod.splits)
  from wp_rel_steps [OF stream_rel_refl this]
  show "wp (run_script apps sc) (\<lambda>_. stream_rel w) (\<lambda>_. stream_rel w) w"
    by (cases "sc (trace w)") (simp add: run_script_def wps)
qed

end

lemma scripted_in_rel: "apps_in stream_rel (scripted d B :: nat \<Rightarrow> 'a stream_transport_scheme app)"
proof (induction d)
  case 0
  show ?case
    by (simp add: apps_in_def app_in_def inert_app_def idle_app_def st.ret_in)
next
  case (Suc d)
  then have r: "reentrant_app (scripted d B :: nat \<Rightarrow> 'a stream_transport_scheme app)" by (rule reentrant_app.intro)
  show ?case
    unfolding apps_in_def app_in_def
    using reentrant_app.run_script_in_rel [OF r]
    by (simp add: scripted_app_def st.order_rules)
qed

end
