(* ===== verification/Session.thy ===== *)
theory Session
  imports SelectorSocket
begin

text \<open>
  Whole sessions of a selector socket transport: the event loop runs scheduled callbacks and
  readiness handlers, tasks call the transport, and the kernel changes its mind in between.
  The phase of a connection is read off the trace: \<open>connection_made\<close> first, then input, then
  \<open>connection_lost\<close> last, each of the two once, and at most one \<open>eof_received\<close>.
\<close>

section \<open>Phases\<close>

datatype phase = Fresh | Connected | Lost

definition life_next :: "phase \<times> bool \<Rightarrow> obs \<Rightarrow> (phase \<times> bool) option" where
  "life_next s ob =
     (if \<not> is_life ob then Some s
      else case ob of
        ObConnectionMade \<Rightarrow> (if fst s = Fresh then Some (Connected, snd s) else None)
      | ObConnectionLost _ \<Rightarrow> (if fst s = Connected then Some (Lost, snd s) else None)
      | ObEofReceived \<Rightarrow> (if fst s = Connected \<and> \<not> snd s then Some (Connected, True) else None)
      | _ \<Rightarrow> (if fst s = Connected then Some s else None))"

fun life_run :: "phase \<times> bool \<Rightarrow> obs list \<Rightarrow> (phase \<times> bool) option" where
  "life_run s [] = Some s"
| "life_run s (ob # tr) = (case life_next s ob of None \<Rightarrow> None | Some s' \<Rightarrow> life_run s' tr)"

lemma life_run_append:
  "life_run s (xs @ ys) = (case life_run s xs of None \<Rightarrow> None | Some s' \<Rightarrow> life_run s' ys)"
  by (induction s xs rule: life_run.induct) (auto split: option.splits)

lemma life_run_life: "life_run s (life tr) = life_run s tr"
  by (induction s tr rule: life_run.induct) (auto simp: life_def life_next_def split: option.splits)

lemma life_next_fresh:
  "life_next s ob = Some s' \<Longrightarrow> fst s' = Fresh \<longleftrightarrow> fst s = Fresh \<and> ob \<noteq> ObConnectionMade"
  by (auto simp: life_next_def is_life_def split: if_splits obs.splits)

lemma life_run_fresh:
  "life_run s tr = Some s' \<Longrightarrow> fst s' = Fresh \<longleftrightarrow> fst s = Fresh \<and> ObConnectionMade \<notin> set tr"
  by (induction s tr rule: life_run.induct) (auto dest: life_next_fresh split: option.splits)

text \<open>The input an application has been given, in order.\<close>

definition received :: "obs list \<Rightarrow> bytes" where
  "received tr =
     concat (map (\<lambda>ob. case ob of ObDataReceived d \<Rightarrow> d | ObBufferUpdated d \<Rightarrow> d | _ \<Rightarrow> []) tr)"

lemma received_append [simp]: "received (xs @ ys) = received xs @ received ys"
  by (simp add: received_def)

lemma received_life: "received (life tr) = received tr"
  by (induction tr) (auto simp: received_def life_def is_life_def split: obs.splits)

definition started :: "'a pyworld_scheme \<Rightarrow> bool" where
  "started w = (ObConnectionMade \<in> set (trace w))"

lemma started_life: "ObConnectionMade \<in> set (life tr) \<longleftrightarrow> ObConnectionMade \<in> set tr"
  by (simp add: life_def is_life_def)

section \<open>The invariant of a session\<close>

definition life_inv :: "'a stream_transport_scheme \<Rightarrow> bool" where
  "life_inv w =
     (\<exists>ph. life_run (Fresh, False) (trace w) = Some (ph, t_eof_received w) \<and>
        (t_connected w \<longleftrightarrow> ph = Connected) \<and> (ph = Lost \<longrightarrow> t_finalizing w))"

definition ended_inv :: "'a stream_transport_scheme \<Rightarrow> bool" where
  "ended_inv w = (\<not> f_open w \<longrightarrow> t_finalizing w \<and> finalize_count w = 0)"

definition session_inv :: "'a stream_transport_scheme \<Rightarrow> bool" where
  "session_inv w = (stream_inv w \<and> flow_inv w_watermarks w \<and> life_inv w \<and> ended_inv w)"

definition session_step :: "'a stream_transport_scheme \<Rightarrow> 'a stream_transport_scheme \<Rightarrow> bool" where
  "session_step w w' =
     (t_connected w' = t_connected w \<and> (started w \<longrightarrow> started w') \<and>
      (t_closing w \<longrightarrow> t_closing w') \<and> (t_finalizing w \<longrightarrow> t_finalizing w') \<and>
      received (trace w') @ stream_of (k_recv w') = received (trace w) @ stream_of (k_recv w) \<and>
      set (k_send w') \<subseteq> set (k_send w) \<and> prefix (wire w) (wire w') \<and>
      (kernel_ok w \<and> \<not> t_finalizing w' \<longrightarrow> prefix (stream_out w) (stream_out w')))"

definition session_rel :: "'a stream_transport_scheme \<Rightarrow> 'a stream_transport_scheme \<Rightarrow> bool" where
  "session_rel w w' = (session_inv w \<longrightarrow> session_inv w' \<and> session_step w w')"

lemma session_step_refl: "session_step w w"
  by (simp add: session_step_def)

lemma session_step_trans:
  assumes "session_step u v" "session_step v w"
  shows "session_step u w"
proof -
  have k: "kernel_ok u \<Longrightarrow> kernel_ok v" using assms(1) by (auto simp: session_step_def kernel_ok_def)
  have "\<not> t_finalizing w \<Longrightarrow> \<not> t_finalizing v" using assms(2) by (auto simp: session_step_def)
  with k assms have "kernel_ok u \<and> \<not> t_finalizing w \<longrightarrow> prefix (stream_out u) (stream_out w)"
    unfolding session_step_def using prefix_order.trans by blast
  moreover have "prefix (wire u) (wire w)"
    using assms prefix_order.trans unfolding session_step_def by blast
  moreover have "set (k_send w) \<subseteq> set (k_send u)"
    using assms unfolding session_step_def by blast
  moreover have "received (trace w) @ stream_of (k_recv w) = received (trace u) @ stream_of (k_recv u)"
    using assms unfolding session_step_def by metis
  moreover have "t_connected w = t_connected u"
    using assms unfolding session_step_def by metis
  moreover have "(started u \<longrightarrow> started w) \<and> (t_closing u \<longrightarrow> t_closing w) \<and>
      (t_finalizing u \<longrightarrow> t_finalizing w)"
    using assms unfolding session_step_def by blast
  ultimately show ?thesis unfolding session_step_def by blast
qed

lemma session_rel_refl: "session_rel w w"
  by (simp add: session_rel_def session_step_refl)

lemma session_rel_trans: "session_rel u v \<Longrightarrow> session_rel v w \<Longrightarrow> session_rel u w"
  unfolding session_rel_def using session_step_trans by blast

interpretation se: step_order session_rel
  by unfold_locales (rule session_rel_refl, rule session_rel_trans)

lemma session_of_stream:
  assumes "stream_rel u v"
  shows "session_rel u v"
  unfolding session_rel_def
proof
  assume inv: "session_inv u"
  with assms have f: "stream_frame u v" and i: "stream_inv u" "stream_inv v" "flow_inv w_watermarks v"
    and out: "kernel_ok u \<and> \<not> t_finalizing v \<longrightarrow> prefix (stream_out u) (stream_out v)"
    by (auto simp: stream_rel_def session_inv_def)
  have l: "life (trace v) = life (trace u)" and k: "k_recv v = k_recv u"
    using f by (auto simp: stream_frame_def)
  have tr: "life_run s (trace v) = life_run s (trace u)" for s
    using life_run_life [of s "trace v"] life_run_life [of s "trace u"] l by simp
  have rc: "received (trace v) = received (trace u)"
    using received_life [of "trace v"] received_life [of "trace u"] l by simp
  have st: "started u = started v"
    using started_life [of "trace v"] started_life [of "trace u"] l by (simp add: started_def)
  have fr: "t_eof_received v = t_eof_received u" "t_connected v = t_connected u"
    "t_finalizing u \<longrightarrow> t_finalizing v"
    using f by (simp_all add: stream_frame_def)
  obtain ph where "life_run (Fresh, False) (trace u) = Some (ph, t_eof_received u)"
    "t_connected u \<longleftrightarrow> ph = Connected" "ph = Lost \<longrightarrow> t_finalizing u"
    using inv by (auto simp: session_inv_def life_inv_def)
  then have "life_inv v" unfolding life_inv_def tr fr using fr(3) by blast
  moreover have "ended_inv v"
    using inv f i by (auto simp: session_inv_def ended_inv_def stream_frame_def stream_inv_def)
  ultimately have "session_inv v" using i by (simp add: session_inv_def)
  moreover have "session_step u v"
    using f out st rc k by (auto simp: session_step_def stream_frame_def)
  ultimately show "session_inv v \<and> session_step u v" ..
qed

lemma steps_session: "steps_in stream_rel m \<Longrightarrow> steps_in session_rel m"
  by (simp add: steps_in_def session_of_stream)

section \<open>Reading keeps the session\<close>

lemma connected_if:
  assumes "session_inv w" "started w" "\<not> t_finalizing w"
  shows "t_connected w"
proof -
  obtain ph where ph: "life_run (Fresh, False) (trace w) = Some (ph, t_eof_received w)"
    "t_connected w \<longleftrightarrow> ph = Connected" "ph = Lost \<longrightarrow> t_finalizing w"
    using assms(1) by (auto simp: session_inv_def life_inv_def)
  have "ph \<noteq> Fresh" using life_run_fresh [OF ph(1)] assms(2) by (simp add: started_def)
  with ph assms(3) show ?thesis by (cases ph) auto
qed

lemma session_input:
  \<comment> \<open>Input that is consumed and delivered in one step, or a callback without input.\<close>
  assumes inv: "session_inv v" and c: "t_connected v"
    and ob: "is_life ob" "ob = ObEofReceived \<longrightarrow> \<not> t_eof_received v" "\<forall>e. ob \<noteq> ObConnectionLost e"
      "ob \<noteq> ObConnectionMade"
    and d: "received [ob] @ stream_of ks = stream_of (k_recv v)"
    and v': "v' = v\<lparr>k_recv := ks, trace := trace v @ [ob], t_eof_received := (t_eof_received v \<or> ob = ObEofReceived)\<rparr>"
  shows "session_inv v' \<and> session_step v v'"
proof -
  have fl: "flow_run b (trace v @ [ob]) = flow_run b (trace v)" for b
    using ob(1) by (cases ob) (auto simp: flow_run_append is_life_def split: option.splits)
  have l: "life_run (Fresh, False) (trace v) = Some (Connected, t_eof_received v)"
    using inv c by (auto simp: session_inv_def life_inv_def)
  have "life_run (Fresh, False) (trace v') = Some (Connected, t_eof_received v')"
    using l ob by (cases ob) (auto simp: v' life_run_append life_next_def is_life_def)
  then have "life_inv v'" using c by (simp add: life_inv_def v')
  moreover have "stream_inv v'" using inv by (auto simp: v' session_inv_def stream_inv_def finalize_count_def)
  moreover have "flow_inv w_watermarks v'" using inv by (simp add: v' session_inv_def flow_inv_def fl)
  moreover have "ended_inv v'" using inv by (simp add: v' session_inv_def ended_inv_def finalize_count_def)
  ultimately have "session_inv v'" by (simp add: session_inv_def)
  moreover have "session_step v v'"
    using d by (auto simp: v' session_step_def started_def stream_out_def pending_def)
  ultimately show ?thesis ..
qed

text \<open>
  \<open>reads w v\<close>: where the handler is while it reads, seen from its start. The invariant holds
  and nothing was lost.
\<close>

definition reads :: "'a stream_transport_scheme \<Rightarrow> 'a stream_transport_scheme \<Rightarrow> bool" where
  "reads w v = (session_inv v \<and> session_step w v)"

lemma reads_rel: "reads w v \<Longrightarrow> session_rel v u \<Longrightarrow> reads w u"
  unfolding reads_def session_rel_def using session_step_trans by blast

lemma reads_wp:
  "reads w v \<Longrightarrow> steps_in stream_rel m \<Longrightarrow> wp m (\<lambda>_. reads w) (\<lambda>_. reads w) v"
  by (rule wp_steps_in [OF steps_session]) (auto intro: reads_rel)

lemma reads_connected: "reads w v \<Longrightarrow> session_rel v u \<Longrightarrow> t_connected u = t_connected v"
  unfolding reads_def session_rel_def session_step_def by blast

lemma reads_wp_connected:
  "reads w v \<Longrightarrow> t_connected v \<Longrightarrow> steps_in stream_rel m \<Longrightarrow>
     wp m (\<lambda>_ u. reads w u \<and> t_connected u) (\<lambda>_. reads w) v"
  by (rule wp_steps_in [OF steps_session]) (auto intro: reads_rel dest: reads_connected)

lemma eof_trace_swap:
  "(v :: 'a transport_scheme)\<lparr>t_eof_received := b, trace := tr\<rparr> = v\<lparr>trace := tr, t_eof_received := b\<rparr>"
  by (cases v) simp

context reentrant_app
begin

lemma call_protocol_c_wp:
  assumes "reads w (v\<lparr>trace := trace v @ [ob]\<rparr>)" "t_connected v"
    and "\<And>p. steps_in stream_rel (cb (apps p))"
  shows "wp (call_protocol_c apps ob cb) (\<lambda>_ u. reads w u \<and> t_connected u) (\<lambda>_. reads w) v"
  using assms
  by (auto simp: call_protocol_c_def call_protocol_def log_def wps
      intro!: reads_wp_connected split: option.splits)

lemma call_protocol_wp:
  assumes "reads w (v\<lparr>trace := trace v @ [ob]\<rparr>)" "t_connected v"
    and "\<And>p. steps_in stream_rel (cb (apps p))"
  shows "wp (call_protocol apps ob cb) (\<lambda>_ u. reads w u \<and> t_connected u) (\<lambda>_. reads w) v"
  using assms
  by (auto simp: call_protocol_def log_def wps intro!: reads_wp_connected split: option.splits)

lemma reads_log:
  assumes "reads w v" "t_connected v" "is_life ob" "ob = ObEofReceived \<longrightarrow> \<not> t_eof_received v"
    "\<forall>e. ob \<noteq> ObConnectionLost e" "ob \<noteq> ObConnectionMade"
    "received [ob] @ stream_of ks = stream_of (k_recv v)"
  shows "reads w (v\<lparr>k_recv := ks, trace := trace v @ [ob],
                    t_eof_received := (t_eof_received v \<or> ob = ObEofReceived)\<rparr>)"
  using session_input [of v ob ks] assms session_step_trans unfolding reads_def by blast

lemma eof_wp:
  assumes "reads w v"
  shows "wp (read_ready_on_eof apps) (\<lambda>_. reads w) (\<lambda>_. reads w) v"
proof -
  have close: "wp (if keep then remove_reader else writable_close) (\<lambda>_. reads w) (\<lambda>_. reads w) u"
    if "reads w u" for keep u
    by (rule reads_wp [OF that]) (simp add: reading_in_rel close_in_rel)
  have "wp (call_protocol_eof_received apps)
          (\<lambda>keep. wp (if keep then remove_reader else writable_close) (\<lambda>_. reads w) (\<lambda>_. reads w))
          (\<lambda>_. reads w) v"
  proof (cases "\<not> t_connected v \<or> t_eof_received v")
    case True
    with close [OF assms, of False] show ?thesis by (simp add: call_protocol_eof_received_def wps)
  next
    case False
    have "reads w (v\<lparr>t_eof_received := True, trace := trace v @ [ObEofReceived]\<rparr>)"
      using reads_log [OF assms, of ObEofReceived "k_recv v"] False
      by (simp add: is_life_def received_def eof_trace_swap)
    then have "wp (call_protocol apps ObEofReceived on_eof_received)
        (\<lambda>_ u. reads w u \<and> t_connected u) (\<lambda>_. reads w) (v\<lparr>t_eof_received := True\<rparr>)"
      using False by (intro call_protocol_wp apps_inD [OF apps_rel]) simp_all
    then have "wp (call_protocol apps ObEofReceived on_eof_received)
        (\<lambda>keep. wp (if keep then remove_reader else writable_close) (\<lambda>_. reads w) (\<lambda>_. reads w))
        (\<lambda>_. reads w) (v\<lparr>t_eof_received := True\<rparr>)"
      by (rule wp_weaken) (rule close, simp)
    with False show ?thesis
      by (simp add: call_protocol_eof_received_def aiofn_add_info_and_reraise_def wp_cond wp_andthen
          wp_try_except wp_upd wp_reraise)
  qed
  then show ?thesis unfolding read_ready_on_eof_def wp_bnd .
qed

lemma data_received_wp:
  assumes "reads w v" "t_connected v" "d @ stream_of ks = stream_of (k_recv v)"
  shows "wp (call_protocol_data_received apps d) (\<lambda>_ u. reads w u \<and> t_connected u) (\<lambda>_. reads w)
           (v\<lparr>k_recv := ks\<rparr>)"
proof -
  have "reads w (v\<lparr>k_recv := ks, trace := trace v @ [ObDataReceived d]\<rparr>)"
    using reads_log [OF assms(1,2), of "ObDataReceived d" ks] assms(3)
    by (simp add: is_life_def received_def)
  then have "wp (call_protocol_c apps (ObDataReceived d) (\<lambda>a. on_data_received a d))
        (\<lambda>_ u. reads w u \<and> t_connected u) (\<lambda>_. reads w) (v\<lparr>k_recv := ks\<rparr>)"
    using assms(2) by (intro call_protocol_c_wp apps_inD [OF apps_rel]) simp_all
  then show ?thesis
    by (simp add: call_protocol_data_received_def aiofn_add_info_and_reraise_def wp_try_except wp_reraise)
qed

lemma buffer_updated_wp:
  assumes "reads w v" "t_connected v" "d @ stream_of ks = stream_of (k_recv v)"
  shows "wp (call_protocol_buffer_updated apps d) (\<lambda>_ u. reads w u \<and> t_connected u) (\<lambda>_. reads w)
           (v\<lparr>k_recv := ks\<rparr>)"
proof -
  have "reads w (v\<lparr>k_recv := ks, trace := trace v @ [ObBufferUpdated d]\<rparr>)"
    using reads_log [OF assms(1,2), of "ObBufferUpdated d" ks] assms(3)
    by (simp add: is_life_def received_def)
  then have "wp (call_protocol_c apps (ObBufferUpdated d) (\<lambda>a. on_buffer_updated a (int (length d))))
        (\<lambda>_ u. reads w u \<and> t_connected u) (\<lambda>_. reads w) (v\<lparr>k_recv := ks\<rparr>)"
    using assms(2) by (intro call_protocol_c_wp apps_inD [OF apps_rel]) simp_all
  then show ?thesis
    by (simp add: call_protocol_buffer_updated_def aiofn_add_info_and_reraise_def wp_try_except wp_reraise)
qed

lemma get_buffer_wp:
  assumes "reads w v" "t_connected v"
  shows "wp (call_protocol_get_buffer apps) (\<lambda>n u. reads w u \<and> t_connected u \<and> 0 < n) (\<lambda>_. reads w) v"
proof -
  have "reads w (v\<lparr>trace := trace v @ [ObGetBuffer]\<rparr>)"
    using reads_log [OF assms, of ObGetBuffer "k_recv v"]
    by (simp add: is_life_def received_def)
  then have "wp (call_protocol_c apps ObGetBuffer (\<lambda>a. on_get_buffer a (-1)))
        (\<lambda>_ u. reads w u \<and> t_connected u) (\<lambda>_. reads w) v"
    using assms(2) by (intro call_protocol_c_wp apps_inD [OF apps_rel]) simp_all
  then have "wp (call_protocol_c apps ObGetBuffer (\<lambda>a. on_get_buffer a (-1)))
        (\<lambda>buf. wp (bnd (lift_exn (aiofn_unpack_simple_buffer True buf))
           (\<lambda>mem. if length mem = 0 then raise RuntimeErr else ret (length mem)))
             (\<lambda>n u. reads w u \<and> t_connected u \<and> 0 < n) (\<lambda>_. reads w)) (\<lambda>_. reads w) v"
    by (rule wp_weaken) (auto simp: wps split: sum.splits)
  then show ?thesis
    by (simp add: call_protocol_get_buffer_def aiofn_add_info_and_reraise_def wp_try_except wp_bnd wp_reraise)
qed

end

section \<open>The read handler\<close>

lemma sys_read_cases:
  obtains (data) d ks where "sys_read n w = (Inr (Some d), w\<lparr>k_recv := ks\<rparr>)"
      "d @ stream_of ks = stream_of (k_recv w)" "length d \<le> n"
  | (block) ks where "sys_read n w = (Inr None, w\<lparr>k_recv := ks\<rparr>)" "stream_of ks = stream_of (k_recv w)"
  | (err) e ks where "sys_read n w = (Inl (exn_of (OSErr e)), w\<lparr>k_recv := ks\<rparr>)"
      "stream_of ks = stream_of (k_recv w)"
proof (cases "aiofn_read (k_recv w) n")
  case (Pair r ks)
  then consider c where "r = Inl c" | "r = Inr None" | d where "r = Inr (Some d)"
    by (cases r) (auto split: option.splits)
  then show ?thesis
  proof cases
    case 1
    with Pair err [of _ ks] show ?thesis
      by (auto simp: sys_read_def dest: aiofn_read_stream_err)
  next
    case 2
    with Pair block [of ks] show ?thesis by (simp add: sys_read_def aiofn_read_stream_none)
  next
    case 3
    with Pair data [of _ ks] show ?thesis
      by (simp add: sys_read_def aiofn_read_stream [symmetric] aiofn_read_length)
  qed
qed

lemma sys_simple_read_alt:
  "sys_simple_read n w =
     (case sys_read n w of
        (Inl e, v) \<Rightarrow> (Inl e, v)
      | (Inr None, v) \<Rightarrow> (Inr ([], -1), v)
      | (Inr (Some bs), v) \<Rightarrow> (Inr (bs, int (length bs)), v))"
  by (auto simp: sys_simple_read_def sys_read_def aiofn_simple_read_def split: prod.splits sum.splits option.splits)

lemma reads_kernel:
  assumes "reads w v" "stream_of ks = stream_of (k_recv v)"
  shows "reads w (v\<lparr>k_recv := ks\<rparr>)"
proof -
  let ?u = "v\<lparr>k_recv := ks\<rparr>"
  have "session_inv ?u = session_inv v"
    by (simp add: session_inv_def stream_inv_def flow_inv_def life_inv_def ended_inv_def finalize_count_def)
  moreover have "session_step v ?u"
    using assms(2) by (simp add: session_step_def started_def stream_out_def pending_def)
  ultimately show ?thesis using assms(1) session_step_trans unfolding reads_def by blast
qed

lemma reads_connected_if:
  assumes "reads w v" "started w" "\<not> t_finalizing v"
  shows "t_connected v"
  using assms connected_if [of v] unfolding reads_def session_step_def by blast

context reentrant_app
begin

lemma read_step_data_wp:
  assumes v: "reads w v" "started w"
  shows "wp (read_step_data_received apps n)
           (\<lambda>x u. reads w u \<and> (case x of Inl n' \<Rightarrow> n < n' \<and> n < MAX_READ_BYTES_PER_CYCLE_HINT | Inr _ \<Rightarrow> True))
           (\<lambda>_. reads w) v"
proof (cases "n < MAX_READ_BYTES_PER_CYCLE_HINT \<and> \<not> t_finalizing v \<and> \<not> t_read_paused v")
  case False
  with v show ?thesis by (auto simp: read_step_data_received_def wps)
next
  case True
  then have c: "t_connected v" using reads_connected_if v by blast
  show ?thesis
  proof (rule sys_read_cases [of DATA_RECEIVED_MAX_SIZE v])
    fix d ks
    assume r: "sys_read DATA_RECEIVED_MAX_SIZE v = (Inr (Some d), v\<lparr>k_recv := ks\<rparr>)"
      and d: "d @ stream_of ks = stream_of (k_recv v)"
    let ?Q = "\<lambda>x u. reads w u \<and>
        (case x of Inl n' \<Rightarrow> n < n' \<and> n < MAX_READ_BYTES_PER_CYCLE_HINT | Inr _ \<Rightarrow> True)"
    show ?thesis
    proof (cases "d = []")
      case nil: True
      have "wp (read_ready_on_eof apps) (\<lambda>_. reads w) (\<lambda>_. reads w) (v\<lparr>k_recv := ks\<rparr>)"
        using reads_kernel [OF v(1)] d nil by (intro eof_wp) simp
      then show ?thesis
        using True nil r
        by (simp add: read_step_data_received_def wps wp_def [of "sys_simple_read _"] sys_simple_read_alt)
    next
      case False
      have "wp (call_protocol_data_received apps d)
              (\<lambda>_. wp (if int (length d) < int DATA_RECEIVED_MAX_SIZE then leave_with ()
               else cond t_buffered (leave_with ()) (continue_with (n + nat (int (length d))))) ?Q (\<lambda>_. reads w))
              (\<lambda>_. reads w) (v\<lparr>k_recv := ks\<rparr>)"
        by (rule wp_weaken [OF data_received_wp [OF v(1) c d]])
           (use True False in \<open>auto simp: wps\<close>)
      then show ?thesis
        using True False r
        by (simp add: read_step_data_received_def wp_bnd wp_cond wp_andthen
            wp_def [of "sys_simple_read _"] sys_simple_read_alt)
    qed
  next
    fix ks
    assume "sys_read DATA_RECEIVED_MAX_SIZE v = (Inr None, v\<lparr>k_recv := ks\<rparr>)"
      "stream_of ks = stream_of (k_recv v)"
    then show ?thesis
      using True reads_kernel [OF v(1)]
      by (simp add: read_step_data_received_def wps wp_def [of "sys_simple_read _"] sys_simple_read_alt)
  next
    fix e ks
    assume "sys_read DATA_RECEIVED_MAX_SIZE v = (Inl (exn_of (OSErr e)), v\<lparr>k_recv := ks\<rparr>)"
      "stream_of ks = stream_of (k_recv v)"
    then show ?thesis
      using True reads_kernel [OF v(1)]
      by (simp add: read_step_data_received_def wps wp_def [of "sys_simple_read _"] sys_simple_read_alt)
  qed
qed

lemma read_step_buffer_wp:
  assumes v: "reads w v" "started w"
  shows "wp (read_step_get_buffer apps n)
           (\<lambda>x u. reads w u \<and> (case x of Inl n' \<Rightarrow> n < n' \<and> n < MAX_READ_BYTES_PER_CYCLE_HINT | Inr _ \<Rightarrow> True))
           (\<lambda>_. reads w) v"
proof (cases "n < MAX_READ_BYTES_PER_CYCLE_HINT \<and> \<not> t_finalizing v \<and> \<not> t_read_paused v")
  case False
  with v show ?thesis by (auto simp: read_step_get_buffer_def wps)
next
  case True
  let ?Q = "\<lambda>x u. reads w u \<and>
        (case x of Inl n' \<Rightarrow> n < n' \<and> n < MAX_READ_BYTES_PER_CYCLE_HINT | Inr _ \<Rightarrow> True)"
  let ?after = "\<lambda>buf_len r. case r of
              None \<Rightarrow> leave_with ()
            | Some bs \<Rightarrow>
                if bs = [] then andthen (read_ready_on_eof apps) (leave_with ())
                else
                  andthen (call_protocol_buffer_updated apps bs)
                    (if length bs < buf_len then leave_with ()
                     else cond t_buffered (continue_with (n + length bs)) (leave_with ()))"
  have c: "t_connected v" using True reads_connected_if v by blast
  have rest: "wp (bnd (sys_read buf_len) (?after buf_len)) ?Q (\<lambda>_. reads w) u"
    if u: "reads w u" "t_connected u" for u buf_len
  proof (rule sys_read_cases [of buf_len u])
    fix d ks
    assume r: "sys_read buf_len u = (Inr (Some d), u\<lparr>k_recv := ks\<rparr>)"
      and d: "d @ stream_of ks = stream_of (k_recv u)"
    show ?thesis
    proof (cases "d = []")
      case nil: True
      have "wp (read_ready_on_eof apps) (\<lambda>_. reads w) (\<lambda>_. reads w) (u\<lparr>k_recv := ks\<rparr>)"
        using reads_kernel [OF u(1)] d nil by (intro eof_wp) simp
      then show ?thesis using nil r by (simp add: wps wp_def [of "sys_read _"])
    next
      case False
      have "wp (call_protocol_buffer_updated apps d)
              (\<lambda>_. wp (if length d < buf_len then leave_with ()
                     else cond t_buffered (continue_with (n + length d)) (leave_with ())) ?Q (\<lambda>_. reads w))
              (\<lambda>_. reads w) (u\<lparr>k_recv := ks\<rparr>)"
        by (rule wp_weaken [OF buffer_updated_wp [OF u d]])
           (use True False in \<open>auto simp: wps\<close>)
      then show ?thesis using False r by (simp add: wp_bnd wp_andthen wp_def [of "sys_read _"])
    qed
  next
    fix ks
    assume "sys_read buf_len u = (Inr None, u\<lparr>k_recv := ks\<rparr>)" "stream_of ks = stream_of (k_recv u)"
    then show ?thesis using reads_kernel [OF u(1)] by (simp add: wps wp_def [of "sys_read _"])
  next
    fix e ks
    assume "sys_read buf_len u = (Inl (exn_of (OSErr e)), u\<lparr>k_recv := ks\<rparr>)"
      "stream_of ks = stream_of (k_recv u)"
    then show ?thesis using reads_kernel [OF u(1)] by (simp add: wps wp_def [of "sys_read _"])
  qed
  have "wp (call_protocol_get_buffer apps)
          (\<lambda>buf_len. wp (bnd (sys_read buf_len) (?after buf_len)) ?Q (\<lambda>_. reads w)) (\<lambda>_. reads w) v"
    by (rule wp_weaken [OF get_buffer_wp [OF v(1) c]]) (auto intro: rest)
  then show ?thesis
    using True unfolding read_step_get_buffer_def by (simp add: wp_cond wp_bnd [of "call_protocol_get_buffer _"])
qed

lemma read_loop_wp:
  assumes step: "\<And>n v. reads w v \<Longrightarrow> wp (b n)
           (\<lambda>x u. reads w u \<and> (case x of Inl n' \<Rightarrow> n < n' \<and> n < MAX_READ_BYTES_PER_CYCLE_HINT | Inr _ \<Rightarrow> True))
           (\<lambda>_. reads w) v"
    and "reads w v"
  shows "wp (loop (MAX_READ_BYTES_PER_CYCLE_HINT + 1) b 0) (\<lambda>(_ :: unit). reads w) (\<lambda>_. reads w) v"
proof (rule wp_loop_total [where J = "\<lambda>_ v. reads w v" and m = "\<lambda>n _. MAX_READ_BYTES_PER_CYCLE_HINT - n"])
  fix n v
  assume "reads w v"
  then show "wp (b n)
       (\<lambda>x u. case x of
          Inl n' \<Rightarrow> reads w u \<and> MAX_READ_BYTES_PER_CYCLE_HINT - n' < MAX_READ_BYTES_PER_CYCLE_HINT - n
        | Inr r \<Rightarrow> reads w u) (\<lambda>_. reads w) v"
    by (rule wp_weaken [OF step]) (auto split: sum.splits)
qed (use assms in auto)

lemma read_ready_keeps:
  assumes "session_inv w" "started w"
  shows "wp (selector_socket_read_ready apps) (\<lambda>_. reads w) (\<lambda>_. reads w) w"
proof -
  have w: "reads w w" using assms by (simp add: reads_def session_step_refl)
  have h: "wp (handle_error stream_methods msg e) (\<lambda>_. reads w) (\<lambda>_. reads w) v"
    if "reads w v" for msg e v by (rule reads_wp [OF that handle_error_in_rel])
  have l: "wp (loop (MAX_READ_BYTES_PER_CYCLE_HINT + 1) b 0) (\<lambda>_. reads w)
        (\<lambda>e. wp (handle_error stream_methods msg e) (\<lambda>_. reads w) (\<lambda>_. reads w)) w"
    if "b = read_step_get_buffer apps \<or> b = read_step_data_received apps" for b msg
    by (rule wp_weaken [OF read_loop_wp [of w b, OF _ w]])
       (use that read_step_buffer_wp read_step_data_wp assms(2) h in blast)+
  show ?thesis
    unfolding selector_socket_read_ready_def wp_try_except wp_cond
    using l [OF disjI1 [OF refl]] l [OF disjI2 [OF refl]] by (simp del: loop.simps)
qed

end

end
