(* ===== verification/Reach.thy ===== *)
theory Reach
  imports Session
begin

text \<open>
  The reachable states of a session and what holds in all of them. A step is one callback of
  the event loop, one call of a task (from any thread, but only after the application was
  handed the transport), or a change on the kernel's side.
\<close>

section \<open>Steps\<close>

datatype event = EvSoon | EvRead | EvWrite | EvCall nat call | EvKernel "sysret list" "unit recvret list"

inductive session_next ::
  "(nat \<Rightarrow> stream_transport app) \<Rightarrow> event \<Rightarrow> stream_transport \<Rightarrow> stream_transport \<Rightarrow> bool"
  for apps where
  next_soon: "soon w = s # rest \<Longrightarrow>
     session_next apps EvSoon w (snd (run_soon apps s (w\<lparr>soon := rest\<rparr>)))"
| next_read: "reader_on w \<Longrightarrow> session_next apps EvRead w (snd (selector_socket_read_ready apps w))"
| next_write: "writer_on w \<Longrightarrow> session_next apps EvWrite w (snd (write_ready apps w))"
| next_call: "started w \<Longrightarrow> session_next apps (EvCall i c) w
     ((snd (run_call apps c (w\<lparr>thread_now := i\<rparr>)))\<lparr>thread_now := thread_now w\<rparr>)"
| next_kernel: "SysOk 0 \<notin> set ks \<Longrightarrow> session_next apps (EvKernel ks kr) w
     (w\<lparr>k_send := ks, k_recv := k_recv w @ kr\<rparr>)"

inductive reachable ::
  "(nat \<Rightarrow> stream_transport app) \<Rightarrow> stream_transport \<Rightarrow> event list \<Rightarrow> stream_transport \<Rightarrow> bool"
  for apps w0 where
  reach_start: "reachable apps w0 [] w0"
| reach_next: "reachable apps w0 evs w \<Longrightarrow> session_next apps ev w w' \<Longrightarrow> reachable apps w0 (evs @ [ev]) w'"

inductive_cases session_nextE: "session_next apps ev w w'"
inductive_simps session_next_simps:
  "session_next apps EvSoon w w'" "session_next apps EvRead w w'" "session_next apps EvWrite w w'"
  "session_next apps (EvCall i c) w w'" "session_next apps (EvKernel ks kr) w w'"

text \<open>The bytes the kernel received from the peer during a sequence of events.\<close>

definition input_of :: "event list \<Rightarrow> bytes" where
  "input_of evs = concat (map (\<lambda>ev. case ev of EvKernel _ kr \<Rightarrow> stream_of kr | _ \<Rightarrow> []) evs)"

text \<open>A world in which a transport can be created: nothing has happened on the descriptor.\<close>

definition fresh_world :: "pyworld \<Rightarrow> bool" where
  "fresh_world w =
     (\<not> reader_on w \<and> \<not> writer_on w \<and> soon w = [] \<and> trace w = [] \<and> wire w = [] \<and>
      SysOk 0 \<notin> set (k_send w))"

definition reach_inv :: "stream_transport \<Rightarrow> bool" where
  "reach_inv w =
     (session_inv w \<and> kernel_ok w \<and>
      (\<not> started w \<longrightarrow>
         \<not> reader_on w \<and> \<not> writer_on w \<and> \<not> t_finalizing w \<and> (\<exists>rest. soon w = SoonConnectionMade # rest)))"

lemma session_inv_same:
  assumes "w_backlog w' = w_backlog w" "w_size w' = w_size w" "w_registered w' = w_registered w"
    "writer_on w' = writer_on w" "t_finalizing w' = t_finalizing w" "t_closing w' = t_closing w"
    "finalize_count w' = finalize_count w" "w_watermarks w' = w_watermarks w" "trace w' = trace w"
    "t_connected w' = t_connected w" "t_eof_received w' = t_eof_received w" "f_open w' = f_open w"
  shows "session_inv w' = session_inv w"
  using assms by (simp add: session_inv_def stream_inv_def flow_inv_def life_inv_def ended_inv_def)

lemma session_inv_thread [simp]: "session_inv (w\<lparr>thread_now := i\<rparr>) = session_inv w"
  by (rule session_inv_same) (simp_all add: finalize_count_def)

lemma initial_inv:
  assumes "fresh_world w"
  shows "reach_inv (selector_socket_new apps p waiter server fd w)"
  using assms
  by (auto simp: fresh_world_def reach_inv_def session_inv_def stream_inv_def flow_inv_def life_inv_def
      ended_inv_def selector_socket_new_eq finalize_count_def limits_new kernel_ok_def started_def
      watermarks_new_eq limits_ok_def py_ssize_max_def split: option.splits)

text \<open>A call or handler that moves the session by \<open>session_rel\<close> keeps the invariant.\<close>

lemma started_keeps:
  assumes "reach_inv w" "started w" "session_rel w w'"
  shows "reach_inv w' \<and> started w' \<and> session_step w w'"
proof -
  have "session_inv w'" "session_step w w'" using assms by (auto simp: reach_inv_def session_rel_def)
  moreover have "kernel_ok w'"
    using assms(1) calculation(2) by (auto simp: reach_inv_def session_step_def kernel_ok_def)
  moreover have "started w'" using assms(2) calculation(2) by (simp add: session_step_def)
  ultimately show ?thesis by (simp add: reach_inv_def)
qed

text \<open>
  What a step does to the two streams: bytes on the wire stay there, bytes still owed are only
  added to unless the connection was cut, and what was delivered together with what the
  kernel still holds grows by what the kernel received, \<open>inp\<close>.
\<close>

definition advance :: "bytes \<Rightarrow> stream_transport \<Rightarrow> stream_transport \<Rightarrow> bool" where
  "advance inp w w' =
     (prefix (wire w) (wire w') \<and> (t_closing w \<longrightarrow> t_closing w') \<and> (t_finalizing w \<longrightarrow> t_finalizing w') \<and>
      (\<not> t_finalizing w' \<longrightarrow> prefix (stream_out w) (stream_out w')) \<and>
      received (trace w') @ stream_of (k_recv w') = received (trace w) @ stream_of (k_recv w) @ inp)"

lemma advance_refl: "advance [] w w"
  by (simp add: advance_def)

lemma advance_trans: "advance a u v \<Longrightarrow> advance b v w \<Longrightarrow> advance (a @ b) u w"
  unfolding advance_def using prefix_order.trans
  by (metis (no_types, lifting) append.assoc)

lemma advance_session: "kernel_ok w \<Longrightarrow> session_step w w' \<Longrightarrow> advance [] w w'"
  by (simp add: advance_def session_step_def)

lemma advance_same:
  assumes "wire w' = wire w" "w_backlog w' = w_backlog w" "files w' = files w" "t_closing w' = t_closing w"
    "t_finalizing w' = t_finalizing w" "k_recv w' = k_recv w" "received (trace w') = received (trace w)"
  shows "advance [] w w'"
  using assms by (simp add: advance_def stream_out_def pending_def)

section \<open>Every step keeps the invariant\<close>

definition running :: "stream_transport \<Rightarrow> bool" where
  "running w = (reach_inv w \<and> started w)"

definition goes :: "stream_transport \<Rightarrow> stream_transport \<Rightarrow> bool" where
  "goes w w' = (running w' \<and> advance [] w w')"

lemma goes_trans: "goes u v \<Longrightarrow> goes v w \<Longrightarrow> goes u w"
  unfolding goes_def using advance_trans [of "[]" u v "[]" w] by simp

lemma running_rel: "running w \<Longrightarrow> session_rel w w' \<Longrightarrow> goes w w'"
  using started_keeps [of w w'] advance_session [of w w'] unfolding running_def goes_def reach_inv_def
  by blast

lemma running_steps: "running w \<Longrightarrow> steps_in stream_rel m \<Longrightarrow> goes w (snd (m w))"
  by (rule running_rel, assumption) (metis steps_in_def steps_session)

lemma running_same:
  assumes "running w" "session_inv w' = session_inv w" "trace w' = trace w" "k_send w' = k_send w"
  shows "running w'"
  using assms by (simp add: running_def reach_inv_def started_def kernel_ok_def)

lemma life_started: "session_inv w \<Longrightarrow> t_connected w \<Longrightarrow> started w"
  using life_run_fresh [of "(Fresh, False)" "trace w"]
  by (auto simp: session_inv_def life_inv_def started_def)

lemma finalize_count_pop:
  "soon w = s # rest \<Longrightarrow> finalize_count w =
     (case s of SoonFinalizeClose _ \<Rightarrow> Suc (finalize_count (w\<lparr>soon := rest\<rparr>)) | _ \<Rightarrow> finalize_count (w\<lparr>soon := rest\<rparr>))"
  by (simp add: finalize_count_def split: soon.splits)

lemma made_inv:
  assumes "reach_inv w" "\<not> started w" "soon w = s # rest"
  shows "s = SoonConnectionMade \<and>
    running (w\<lparr>soon := rest, t_connected := True, trace := trace w @ [ObConnectionMade]\<rparr>)"
proof -
  let ?v = "w\<lparr>soon := rest, t_connected := True, trace := trace w @ [ObConnectionMade]\<rparr>"
  have s: "s = SoonConnectionMade" using assms by (auto simp: reach_inv_def)
  have inv: "session_inv w" "\<not> t_finalizing w" using assms by (auto simp: reach_inv_def)
  obtain ph where ph: "life_run (Fresh, False) (trace w) = Some (ph, t_eof_received w)"
    using inv by (auto simp: session_inv_def life_inv_def)
  then have "ph = Fresh" using life_run_fresh [OF ph] assms(2) by (simp add: started_def)
  then have "life_inv ?v" using ph by (simp add: life_inv_def life_run_append life_next_def is_life_def)
  moreover have "stream_inv ?v"
    using inv s finalize_count_pop [OF assms(3)]
    by (auto simp: session_inv_def stream_inv_def finalize_count_def assms(3))
  moreover have "flow_inv w_watermarks ?v"
    using inv by (simp add: session_inv_def flow_inv_def flow_run_append)
  moreover have "ended_inv ?v" using inv s by (auto simp: session_inv_def ended_inv_def)
  ultimately have "session_inv ?v" by (simp add: session_inv_def)
  then show ?thesis using s assms(1) by (simp add: running_def reach_inv_def started_def kernel_ok_def)
qed

lemma pop_inv:
  assumes "running w" "soon w = s # rest"
  shows "running (w\<lparr>soon := rest\<rparr>) \<and> (\<forall>exc. s = SoonFinalizeClose exc \<longrightarrow>
           t_finalizing w \<and> f_open w \<and> finalize_count (w\<lparr>soon := rest\<rparr>) = 0)"
proof -
  let ?v = "w\<lparr>soon := rest\<rparr>"
  have inv: "session_inv w" using assms(1) by (simp add: running_def reach_inv_def)
  have c: "finalize_count ?v \<le> finalize_count w"
    using finalize_count_pop [OF assms(2)] by (auto split: soon.splits)
  have "stream_inv ?v" using inv c by (auto simp: session_inv_def stream_inv_def)
  moreover have "ended_inv ?v" using inv c by (auto simp: session_inv_def ended_inv_def)
  moreover have "flow_inv w_watermarks ?v \<and> life_inv ?v"
    using inv by (simp add: session_inv_def flow_inv_def life_inv_def)
  ultimately have v: "session_inv ?v" by (simp add: session_inv_def)
  have fin: "t_finalizing w \<and> f_open w \<and> finalize_count ?v = 0" if "s = SoonFinalizeClose exc" for exc
    using inv finalize_count_pop [OF assms(2)] that
    by (auto simp: session_inv_def stream_inv_def ended_inv_def split: if_splits)
  from v fin assms(1) show ?thesis
    by (simp add: running_def reach_inv_def started_def kernel_ok_def)
qed

lemma lost_inv:
  assumes "running w" "t_connected w" "t_finalizing w"
  shows "running (w\<lparr>t_connected := False, trace := trace w @ [ObConnectionLost exc]\<rparr>)"
proof -
  let ?v = "w\<lparr>t_connected := False, trace := trace w @ [ObConnectionLost exc]\<rparr>"
  have inv: "session_inv w" using assms(1) by (simp add: running_def reach_inv_def)
  then have l: "life_run (Fresh, False) (trace w) = Some (Connected, t_eof_received w)"
    using assms(2) by (auto simp: session_inv_def life_inv_def)
  then have "life_inv ?v"
    using assms(3) by (simp add: life_inv_def life_run_append life_next_def is_life_def)
  moreover have "stream_inv ?v" using inv by (auto simp: session_inv_def stream_inv_def finalize_count_def)
  moreover have "flow_inv w_watermarks ?v" using inv by (simp add: session_inv_def flow_inv_def flow_run_append)
  moreover have "ended_inv ?v" using inv by (simp add: session_inv_def ended_inv_def finalize_count_def)
  ultimately show ?thesis
    using assms(1) by (simp add: running_def reach_inv_def session_inv_def started_def kernel_ok_def)
qed

lemma closed_inv:
  assumes "running w" "t_finalizing w" "finalize_count w = 0"
  shows "running (w\<lparr>f_open := False, t_protocol := None\<rparr>)"
proof -
  have "session_inv (w\<lparr>f_open := False, t_protocol := None\<rparr>)"
    using assms
    by (auto simp: running_def reach_inv_def session_inv_def stream_inv_def flow_inv_def life_inv_def
        ended_inv_def finalize_count_def)
  then show ?thesis using assms(1) by (simp add: running_def reach_inv_def started_def kernel_ok_def)
qed

lemma detach_inv:
  assumes "running w"
  shows "running (w\<lparr>trace := trace w @ [ObServerDetach], s_server := False\<rparr>)"
proof -
  let ?v = "w\<lparr>trace := trace w @ [ObServerDetach], s_server := False\<rparr>"
  have inv: "session_inv w" using assms by (simp add: running_def reach_inv_def)
  have "session_inv ?v"
    using inv
    by (auto simp: session_inv_def stream_inv_def flow_inv_def flow_run_append life_inv_def
        life_run_append life_next_def is_life_def ended_inv_def finalize_count_def)
  then show ?thesis using assms by (simp add: running_def reach_inv_def started_def kernel_ok_def)
qed

lemma call_protocol_running:
  fixes apps :: "nat \<Rightarrow> stream_transport app"
  assumes "running (w\<lparr>trace := trace w @ [ob]\<rparr>)"
    and "\<And>p. steps_in stream_rel (cb (apps p))"
  shows "goes (w\<lparr>trace := trace w @ [ob]\<rparr>) (snd (call_protocol apps ob cb w))"
proof -
  have "steps_in stream_rel
      (case t_protocol w of None \<Rightarrow> raise AttributeErr | Some i \<Rightarrow> cb (apps i))"
    using assms(2) by (auto intro: st.raise_in split: option.splits)
  from running_steps [OF assms(1) this] show ?thesis
    by (simp add: call_protocol_def log_def run)
qed

lemma finalize_running:
  fixes apps :: "nat \<Rightarrow> stream_transport app"
  assumes app: "reentrant_app apps" and w: "running w" "t_finalizing w" "finalize_count w = 0"
  shows "goes w (snd (finalize_close apps exc w)) \<and> \<not> f_open (snd (finalize_close apps exc w))"
proof -
  let ?lost = "call_protocol_connection_lost apps exc"
  have cb: "steps_in stream_rel (on_connection_lost (apps p) exc)" for p
    using app apps_inD by (auto simp: reentrant_app_def)
  have lost: "goes w (snd (?lost w)) \<and> t_finalizing (snd (?lost w)) \<and> finalize_count (snd (?lost w)) = 0"
  proof (cases "t_connected w")
    case False
    with w show ?thesis by (simp add: call_protocol_connection_lost_def run goes_def advance_refl)
  next
    case True
    let ?v = "w\<lparr>t_connected := False, trace := trace w @ [ObConnectionLost exc]\<rparr>"
    let ?m = "case t_protocol w of None \<Rightarrow> raise AttributeErr | Some i \<Rightarrow> on_connection_lost (apps i) exc"
    have v: "running ?v" using lost_inv [OF w(1) True w(2)] .
    have gv: "goes w ?v" using v by (simp add: goes_def advance_same received_def)
    have m: "steps_in stream_rel ?m" using cb by (auto intro: st.raise_in split: option.splits)
    have e: "snd (?lost w) = snd (?m ?v)"
      using True by (simp add: call_protocol_connection_lost_def call_protocol_def log_def run)
    have "stream_rel ?v (snd (?m ?v))" using m by (simp add: steps_in_def)
    moreover have "stream_inv ?v" using v by (simp add: running_def reach_inv_def session_inv_def)
    ultimately have "stream_frame ?v (snd (?m ?v))" by (simp add: stream_rel_def)
    moreover have "t_closing w" using w by (simp add: running_def reach_inv_def session_inv_def stream_inv_def)
    ultimately have "t_finalizing (snd (?m ?v)) \<and> finalize_count (snd (?m ?v)) = 0"
      using w by (simp add: stream_frame_def finalize_count_def)
    with e goes_trans [OF gv running_steps [OF v m]] show ?thesis by simp
  qed
  let ?last = "\<lambda>w. snd (block [
         upd (\<lambda>w. w\<lparr>f_open := False, t_protocol := None\<rparr>),
         only_if s_server
           (block [log ObServerDetach, upd (\<lambda>w. w\<lparr>s_server := False\<rparr>)])] w)"
  have c: "goes u (?last u) \<and> \<not> f_open (?last u)"
    if "running u" "t_finalizing u" "finalize_count u = 0" for u
    using closed_inv [OF that] detach_inv [OF closed_inv [OF that]]
    by (simp add: run log_def goes_def advance_same received_def)
  have e: "snd (finalize_close apps exc w) = ?last (snd (?lost w))"
    unfolding finalize_close_def by (rule snd_try_finally) (simp add: run log_def)
  from lost have l: "running (snd (?lost w))" by (simp add: goes_def)
  have c': "goes (snd (?lost w)) (?last (snd (?lost w))) \<and> \<not> f_open (?last (snd (?lost w)))"
    by (rule c [OF l conjunct1 [OF conjunct2 [OF lost]] conjunct2 [OF conjunct2 [OF lost]]])
  show ?thesis
    unfolding e by (rule conjI [OF goes_trans [OF conjunct1 [OF lost] conjunct1 [OF c']] conjunct2 [OF c']])
qed

lemma run_made:
  "\<not> t_connected w \<Longrightarrow> \<not> t_finalizing w \<Longrightarrow>
     run_soon apps SoonConnectionMade w =
       call_protocol apps ObConnectionMade on_connection_made (w\<lparr>t_connected := True\<rparr>)"
  by (simp add: run_soon_def call_protocol_connection_made_def run)

lemma made_goes:
  assumes app: "reentrant_app apps" and w: "reach_inv w" "\<not> started w" "soon w = s # rest"
  shows "goes w (snd (run_soon apps s (w\<lparr>soon := rest\<rparr>)))"
proof -
  let ?v = "w\<lparr>soon := rest, t_connected := True, trace := trace w @ [ObConnectionMade]\<rparr>"
  let ?u = "w\<lparr>soon := rest\<rparr>" and ?w = "w\<lparr>soon := rest, t_connected := True\<rparr>"
  have s: "s = SoonConnectionMade" and v: "running ?v" using made_inv [OF w] by auto
  have nc: "\<not> t_connected w" "\<not> t_finalizing w"
    using life_started [of w] w by (auto simp: reach_inv_def)
  have cb: "steps_in stream_rel (on_connection_made (apps p))" for p
    using app apps_inD by (auto simp: reentrant_app_def)
  have gv: "goes w ?v" using v by (simp add: goes_def advance_same received_def)
  have gc: "goes ?v (snd (call_protocol apps ObConnectionMade on_connection_made ?w))"
    using call_protocol_running [of ?w ObConnectionMade on_connection_made apps] v cb by simp
  have e: "run_soon apps s ?u = call_protocol apps ObConnectionMade on_connection_made ?w"
    using run_made [of ?u] s nc by simp
  show ?thesis unfolding e by (rule goes_trans [OF gv gc])
qed

lemma soon_goes:
  assumes app: "reentrant_app apps" and r: "running w" and w: "soon w = s # rest"
  shows "goes w (snd (run_soon apps s (w\<lparr>soon := rest\<rparr>)))"
proof -
  let ?w = "w\<lparr>soon := rest\<rparr>"
  note p = pop_inv [OF r w]
  have gw: "goes w ?w" using p by (simp add: goes_def advance_same)
  have "goes ?w (snd (run_soon apps s ?w))"
  proof (cases s)
    case SoonConnectionMade
    have "t_connected ?w \<or> t_finalizing ?w"
      using connected_if [of ?w] p by (auto simp: running_def reach_inv_def)
    then have "snd (run_soon apps s ?w) = ?w" using SoonConnectionMade
      by (auto simp: run_soon_def call_protocol_connection_made_def run)
    with p show ?thesis by (simp add: goes_def advance_refl)
  next
    case SoonAddReader
    then show ?thesis using running_steps [OF conjunct1 [OF p] reading_in_rel(1)]
      by (simp add: run_soon_def)
  next
    case (SoonSetResult i)
    have "steps_in stream_rel (aiofn_set_result_unless_cancelled i ::
            (stream_transport, unit) prog)"
      unfolding aiofn_set_result_unless_cancelled_def fut_set_def
      by (intro st.order_rules upd_same_in_rel rel_same) (simp_all add: finalize_count_def)
    from running_steps [OF conjunct1 [OF p] this] show ?thesis
      using SoonSetResult by (simp add: run_soon_def)
  next
    case (SoonFinalizeClose exc)
    with p finalize_running [OF app, of ?w exc] show ?thesis by (simp add: run_soon_def)
  qed (use p in \<open>simp_all add: run_soon_def goes_def advance_refl\<close>)
  with gw show ?thesis by (rule goes_trans)
qed

lemma next_advance:
  assumes app: "reentrant_app apps" and w: "reach_inv w" and n: "session_next apps ev w w'"
  shows "reach_inv w' \<and> (started w \<longrightarrow> started w') \<and> advance (input_of [ev]) w w'"
  using n
proof (cases rule: session_next.cases)
  case (next_soon s rest)
  have "goes w w'"
  proof (cases "started w")
    case False
    with made_goes [OF app w False next_soon(3)] next_soon show ?thesis by simp
  next
    case True
    with soon_goes [OF app _ next_soon(3)] next_soon w show ?thesis by (simp add: running_def)
  qed
  then show ?thesis using next_soon by (simp add: goes_def running_def input_of_def)
next
  case next_read
  have st: "started w" using w next_read by (auto simp: reach_inv_def)
  have "reads w w'"
    using reentrant_app.read_ready_keeps [OF app _ st] w next_read
    by (simp add: reach_inv_def wp_snd)
  then have "session_rel w w'" by (simp add: reads_def session_rel_def)
  with started_keeps [OF w st] w show ?thesis
    by (simp add: next_read(1) input_of_def advance_session reach_inv_def)
next
  case next_write
  have st: "started w" using w next_write by (auto simp: reach_inv_def)
  have "running w" using w st by (simp add: running_def)
  from running_steps [OF this reentrant_app.write_ready_in_rel [OF app]] next_write
  show ?thesis by (simp add: running_def goes_def input_of_def)
next
  case (next_call i c)
  let ?w = "w\<lparr>thread_now := i\<rparr>"
  have "running w" using w next_call by (simp add: running_def)
  then have r: "running ?w" by (rule running_same) simp_all
  from running_steps [OF this reentrant_app.run_call_in_rel [OF app]]
  have g: "goes ?w (snd (run_call apps c ?w))" .
  then have "running w'" unfolding next_call(2) goes_def
    by (elim conjE) (rule running_same, simp_all)
  moreover have "advance [] w w'"
    using g unfolding next_call(2) goes_def by (simp add: advance_def stream_out_def pending_def)
  ultimately show ?thesis using next_call(1) by (simp add: running_def input_of_def)
next
  case (next_kernel ks kr)
  have "session_inv w' = session_inv w" unfolding next_kernel(2)
    by (rule session_inv_same) (simp_all add: finalize_count_def)
  moreover have "advance (stream_of kr) w w'"
    unfolding next_kernel(2) by (simp add: advance_def stream_out_def pending_def stream_of_append)
  ultimately show ?thesis using w next_kernel
    by (simp add: reach_inv_def started_def kernel_ok_def input_of_def)
qed

lemma reachable_inv:
  assumes "reentrant_app apps" "reachable apps w0 evs w" "reach_inv w0"
  shows "reach_inv w \<and> advance (input_of evs) w0 w"
  using assms(2,3)
proof induction
  case reach_start
  then show ?case by (simp add: input_of_def advance_refl)
next
  case (reach_next evs w ev w')
  then show ?case
    using next_advance [OF assms(1), of w ev w'] advance_trans [of "input_of evs" w0 w "input_of [ev]" w']
    by (simp add: input_of_def)
qed

lemma scripted_reentrant: "reentrant_app (scripted d B)"
  by (rule reentrant_app.intro) (rule scripted_in_rel)

interpretation scripted: reentrant_app "scripted d B" for d B
  by (rule scripted_reentrant)

section \<open>Steps as a function\<close>

text \<open>The event decides the step; this is the form that can be run.\<close>

definition step_event ::
  "(nat \<Rightarrow> stream_transport app) \<Rightarrow> event \<Rightarrow> stream_transport \<Rightarrow> stream_transport option" where
  "step_event apps ev w =
     (case ev of
        EvSoon \<Rightarrow> (case soon w of
            [] \<Rightarrow> None
          | s # rest \<Rightarrow> Some (snd (run_soon apps s (w\<lparr>soon := rest\<rparr>))))
      | EvRead \<Rightarrow> if reader_on w then Some (snd (selector_socket_read_ready apps w)) else None
      | EvWrite \<Rightarrow> if writer_on w then Some (snd (write_ready apps w)) else None
      | EvCall i c \<Rightarrow>
          if started w
          then Some ((snd (run_call apps c (w\<lparr>thread_now := i\<rparr>)))\<lparr>thread_now := thread_now w\<rparr>)
          else None
      | EvKernel ks kr \<Rightarrow>
          if SysOk 0 \<notin> set ks then Some (w\<lparr>k_send := ks, k_recv := k_recv w @ kr\<rparr>) else None)"

lemma session_next_step: "session_next apps ev w w' \<longleftrightarrow> step_event apps ev w = Some w'"
  by (cases ev) (auto simp: session_next_simps step_event_def split: list.splits)

fun run_events ::
  "(nat \<Rightarrow> stream_transport app) \<Rightarrow> event list \<Rightarrow> stream_transport \<Rightarrow> stream_transport option" where
  "run_events apps [] w = Some w"
| "run_events apps (ev # evs) w =
     (case step_event apps ev w of None \<Rightarrow> None | Some w' \<Rightarrow> run_events apps evs w')"

lemma run_events_reachable:
  "reachable apps w0 pre w \<Longrightarrow> run_events apps evs w = Some w' \<Longrightarrow> reachable apps w0 (pre @ evs) w'"
proof (induction apps evs w arbitrary: pre rule: run_events.induct)
  case (2 apps ev evs w)
  from 2(3) obtain v where v: "step_event apps ev w = Some v" "run_events apps evs v = Some w'"
    by (auto split: option.splits)
  then have "reachable apps w0 (pre @ [ev]) v"
    using 2(2) by (auto intro: reach_next simp: session_next_step)
  from 2(1) [OF v(1) this v(2)] show ?case by simp
qed simp

end
