(* ===== verification/StreamProps.thy ===== *)
theory StreamProps
  imports Reach
begin

text \<open>
  The main properties of the stream transport over a selector: what holds in every state that
  a session can reach, whatever the application does in its callbacks, and what one write, one
  drain and one abort achieve. \<open>scripted d B\<close> stands for every application whose callbacks call
  the transport again, nested to depth \<open>d\<close>.
\<close>

section \<open>A concrete session\<close>

text \<open>
  The session the witnesses run on: the application writes three bytes from
  \<open>connection_made\<close>, of which the kernel takes one.
\<close>

definition quiet :: behaviour where
  "quiet = \<lparr>b_buffered = False, b_aiofn = False, b_connection_made = (\<lambda>_. ([], None)),
     b_connection_lost = (\<lambda>_. ([], None)), b_data_received = (\<lambda>_. ([], None)),
     b_eof_received = (\<lambda>_. ([], None)), b_keep_open = (\<lambda>_. False), b_get_buffer = (\<lambda>_. ([], None)),
     b_buffer = (\<lambda>_. PyBytearray [0, 0]), b_buffer_updated = (\<lambda>_. ([], None)),
     b_pause_writing = (\<lambda>_. ([], None)), b_resume_writing = (\<lambda>_. ([], None)),
     b_local_size = (\<lambda>_. 0)\<rparr>"

definition greeter :: behaviour where
  "greeter = quiet\<lparr>b_connection_made := (\<lambda>_. ([(CallWrite (PyBytes [1, 2, 3]), False)], None))\<rparr>"

definition demo_world :: pyworld where
  "demo_world = \<lparr>thread_now = 7, reader_on = False, writer_on = False, soon = [], trace = [],
     k_send = [SysOk 1], k_recv = [RecvOk [9] ()], wire = [], shutdown_wr = False, shutdown_result = None,
     files = (\<lambda>_. None), futures = []\<rparr>"

definition demo_apps :: "nat \<Rightarrow> stream_transport app" where
  "demo_apps = scripted 1 (\<lambda>_. greeter)"

definition demo_start :: stream_transport where
  "demo_start = selector_socket_new demo_apps 0 None False 5 demo_world"

definition demo_greeted :: stream_transport where
  "demo_greeted = demo_start\<lparr>soon := [SoonAddReader], t_connected := True,
     trace := [ObConnectionMade], k_send := [], wire := [1], w_backlog := [WriteReq [2, 3]],
     w_size := 2, w_registered := True, writer_on := True\<rparr>"

lemmas demo_defs = demo_greeted_def demo_start_def demo_apps_def demo_world_def greeter_def quiet_def
  selector_socket_new_eq watermarks_new_eq

lemma demo_fresh: "fresh_world demo_world"
  by (simp add: fresh_world_def demo_world_def)

lemma demo_run: "run_events demo_apps [EvSoon] demo_start = Some demo_greeted"
  by (simp add: demo_defs step_event_def run_soon_def call_protocol_connection_made_def run
      call_protocol_def log_def scripted_app_def run_script_def run_call_def transport_write_def
      check_thread_def aiofn_validate_buffer_def write_nocheck_def pre_write_check_def try_write_def
      sys_write_def make_write_request_tail_def aiofn_maybe_copy_buffer_tail_def slice_start_def
      queue_request_def append_request_def start_backlog_writing_def add_writer_def
      maybe_pause_protocol_def get_write_buffer_size_nocheck_def maybe_pause_protocol_raw_def
      inert_app_def idle_app_def current_app_def)

lemma demo_reachable: "reachable demo_apps demo_start [EvSoon] demo_greeted"
  using run_events_reachable [OF reach_start demo_run] by simp

text \<open>A session of any scripted application starts in the invariant and stays there.\<close>

lemma session_reach_inv:
  assumes "fresh_world w0"
    "reachable (scripted d B) (selector_socket_new (scripted d B) p waiter server fd w0) evs w"
  shows "reach_inv w"
  using reachable_inv [OF scripted_reentrant assms(2) initial_inv [OF assms(1)]] by simp

section \<open>Invariants of a session\<close>

text \<open>C1: in every reachable state the backlog size is the sum of the sizes of the queued
  requests, none of which is empty; the writer is registered exactly when the transport
  believes so, which it does while anything is queued or a graceful close is draining; and a
  transport that finalizes has dropped its backlog.\<close>

theorem backlog_accounted:
  assumes "fresh_world w0"
    "reachable (scripted d B) (selector_socket_new (scripted d B) p waiter server fd w0) evs w"
  shows "w_size w = (\<Sum>it\<leftarrow>w_backlog w. item_size it) \<and>
         list_all (\<lambda>it. 0 < item_size it) (w_backlog w) \<and>
         writer_on w = w_registered w \<and>
         (w_registered w \<or> w_backlog w = [] \<and> (t_closing w = t_finalizing w)) \<and>
         (if t_finalizing w then t_closing w \<and> w_backlog w = [] else True)"
  using session_reach_inv [OF assms]
  by (auto simp: reach_inv_def session_inv_def stream_inv_def backlog_ok_def list_all_iff)

theorem backlog_accounted_witness:
  "w_size demo_greeted = (\<Sum>it\<leftarrow>w_backlog demo_greeted. item_size it) \<and>
   list_all (\<lambda>it. 0 < item_size it) (w_backlog demo_greeted) \<and>
   writer_on demo_greeted = w_registered demo_greeted \<and>
   (w_registered demo_greeted \<or>
      w_backlog demo_greeted = [] \<and> (t_closing demo_greeted = t_finalizing demo_greeted)) \<and>
   (if t_finalizing demo_greeted then t_closing demo_greeted \<and> w_backlog demo_greeted = [] else True)"
  by (rule backlog_accounted [OF demo_fresh demo_reachable [unfolded demo_start_def demo_apps_def]])

text \<open>C2: the callbacks of a session follow the protocol of asyncio: \<open>connection_made\<close> first and
  once, then input, at most one \<open>eof_received\<close>, then \<open>connection_lost\<close> once and nothing after
  it. \<open>t_connected\<close> says exactly whether the application is between the two, and the
  connection is lost only when the transport finalizes.\<close>

theorem lifecycle_respected:
  assumes "fresh_world w0"
    "reachable (scripted d B) (selector_socket_new (scripted d B) p waiter server fd w0) evs w"
  shows "\<exists>ph. life_run (Fresh, False) (trace w) = Some (ph, t_eof_received w) \<and>
           (t_connected w \<longleftrightarrow> ph = Connected) \<and> (if ph = Lost then t_finalizing w else True)"
proof -
  obtain ph where "life_run (Fresh, False) (trace w) = Some (ph, t_eof_received w)"
    "t_connected w \<longleftrightarrow> ph = Connected" "ph = Lost \<longrightarrow> t_finalizing w"
    using session_reach_inv [OF assms] by (auto simp: reach_inv_def session_inv_def life_inv_def)
  then show ?thesis by (intro exI [of _ ph]) simp
qed

theorem lifecycle_respected_witness:
  "\<exists>ph. life_run (Fresh, False) (trace demo_greeted) = Some (ph, t_eof_received demo_greeted) \<and>
     (t_connected demo_greeted \<longleftrightarrow> ph = Connected) \<and> (if ph = Lost then t_finalizing demo_greeted else True)"
  by (rule lifecycle_respected [OF demo_fresh demo_reachable [unfolded demo_start_def demo_apps_def]])

text \<open>C3: flow control alternates: \<open>pause_writing\<close> and \<open>resume_writing\<close> take turns, starting with
  a pause, and the flag of the watermarks says which of the two came last, whatever either
  callback does; the limits stay ordered and within a \<open>Py_ssize_t\<close>.\<close>

theorem flow_control_alternates:
  assumes "fresh_world w0"
    "reachable (scripted d B) (selector_socket_new (scripted d B) p waiter server fd w0) evs w"
  shows "flow_run False (trace w) = Some (wm_paused (w_watermarks w)) \<and> limits_ok (w_watermarks w)"
  using session_reach_inv [OF assms]
  by (auto simp: reach_inv_def session_inv_def flow_inv_def stream_inv_def)

theorem flow_control_alternates_witness:
  "flow_run False (trace demo_greeted) = Some (wm_paused (w_watermarks demo_greeted)) \<and>
   limits_ok (w_watermarks demo_greeted)"
  by (rule flow_control_alternates [OF demo_fresh demo_reachable [unfolded demo_start_def demo_apps_def]])

text \<open>C4: no output is lost, duplicated or reordered: in every step of a session the bytes on the
  wire stay a prefix of the bytes on the wire, and unless the connection was cut the whole
  outgoing stream (the wire, then everything the backlog still owes) is only appended to.\<close>

theorem output_only_grows:
  assumes "fresh_world w0"
    "reachable (scripted d B) (selector_socket_new (scripted d B) p waiter server fd w0) evs w"
    "session_next (scripted d B) ev w w'"
  shows "prefix (wire w) (wire w') \<and> (t_finalizing w' \<or> prefix (stream_out w) (stream_out w'))"
  using next_advance [OF scripted_reentrant session_reach_inv [OF assms(1,2)] assms(3)]
  by (auto simp: advance_def)

lemma demo_next:
  "session_next demo_apps (EvCall 7 (CallWrite (PyBytes [4]))) demo_greeted
     (demo_greeted\<lparr>w_backlog := [WriteReq [2, 3], WriteReq [4]], w_size := 3\<rparr>)"
  unfolding session_next_step
  by (simp add: demo_defs step_event_def started_def run scripted_app_def run_call_def
      transport_write_def check_thread_def aiofn_validate_buffer_def write_nocheck_def
      pre_write_check_def make_write_request_def aiofn_maybe_copy_buffer_def queue_request_def
      append_request_def start_backlog_writing_def maybe_pause_protocol_def
      get_write_buffer_size_nocheck_def maybe_pause_protocol_raw_def current_app_def)

theorem output_only_grows_witness:
  "prefix (wire demo_greeted) (wire (demo_greeted\<lparr>w_backlog := [WriteReq [2, 3], WriteReq [4]], w_size := 3\<rparr>)) \<and>
   (t_finalizing (demo_greeted\<lparr>w_backlog := [WriteReq [2, 3], WriteReq [4]], w_size := 3\<rparr>) \<or>
    prefix (stream_out demo_greeted)
      (stream_out (demo_greeted\<lparr>w_backlog := [WriteReq [2, 3], WriteReq [4]], w_size := 3\<rparr>)))"
  by (rule output_only_grows [OF demo_fresh demo_reachable [unfolded demo_start_def demo_apps_def]
        demo_next [unfolded demo_apps_def]])

text \<open>C5: the application is given exactly the input of the connection: what it has received,
  followed by what the kernel still holds, is what the kernel held at the start followed by
  what arrived since. Nothing is lost, delivered twice or delivered out of order, under any
  mix of errors, pauses, reentrant calls and closes.\<close>

theorem input_exact:
  assumes "fresh_world w0"
    "reachable (scripted d B) (selector_socket_new (scripted d B) p waiter server fd w0) evs w"
  shows "received (trace w) @ stream_of (k_recv w) = stream_of (k_recv w0) @ input_of evs"
proof -
  have "trace w0 = []" using assms(1) by (simp add: fresh_world_def)
  then show ?thesis
    using reachable_inv [OF scripted_reentrant assms(2) initial_inv [OF assms(1)]]
    by (simp add: advance_def selector_socket_new_eq received_def)
qed

theorem input_exact_witness:
  "received (trace demo_greeted) @ stream_of (k_recv demo_greeted) =
     stream_of (k_recv demo_world) @ input_of [EvSoon]"
  by (rule input_exact [OF demo_fresh demo_reachable [unfolded demo_start_def demo_apps_def]])

text \<open>C6: the descriptor is closed by the finalizer only, and finalizing happens once: a closed
  descriptor means that the transport finalized and has no further finalizer scheduled, and
  there is never more than one.\<close>

theorem closed_once:
  assumes "fresh_world w0"
    "reachable (scripted d B) (selector_socket_new (scripted d B) p waiter server fd w0) evs w"
  shows "finalize_count w \<le> (if t_finalizing w then 1 else 0) \<and>
         (f_open w \<or> t_finalizing w \<and> finalize_count w = 0)"
  using session_reach_inv [OF assms]
  by (auto simp: reach_inv_def session_inv_def ended_inv_def stream_inv_def)

theorem closed_once_witness:
  "finalize_count demo_greeted \<le> (if t_finalizing demo_greeted then 1 else 0) \<and>
   (f_open demo_greeted \<or> t_finalizing demo_greeted \<and> finalize_count demo_greeted = 0)"
  by (rule closed_once [OF demo_fresh demo_reachable [unfolded demo_start_def demo_apps_def]])

end
