(* ===== verification/StreamCalls.thy ===== *)
theory StreamCalls
  imports StreamProps
begin

text \<open>
  What single operations of the stream transport achieve: a write appends exactly its data, a
  drain terminates, an abort releases everything that waits.
\<close>

section \<open>What one call achieves\<close>

text \<open>
  \<open>taken bs w v\<close>: the outgoing stream of \<open>w\<close> was continued by \<open>bs\<close> (and then by whatever a
  callback wrote), or the connection was cut.
\<close>

definition taken :: "bytes \<Rightarrow> 'a stream_transport_scheme \<Rightarrow> 'a stream_transport_scheme \<Rightarrow> bool" where
  "taken bs w v = (t_finalizing v \<or> prefix (stream_out w @ bs) (stream_out v))"

lemma force_close_finalizes: "wp (writable_force_close exc) (\<lambda>_ v. t_finalizing v) (\<lambda>_ v. t_finalizing v) w"
  by (auto simp: writable_force_close_def wps stop_backlog_writing_def clear_write_backlog_def
      schedule_finalize_close_def call_soon_def remove_writer_def
      intro!: pause_reading_wp release_all_wp)

lemma handle_error_finalizes:
  "\<not> is_exit e \<Longrightarrow> wp (handle_error stream_methods msg e) (\<lambda>_ v. t_finalizing v) (\<lambda>_ v. t_finalizing v) w"
  by (auto simp: handle_error_def fatal_error_def wps stream_methods_def writable_methods_def
      report_protocol_exception_def call_exception_handler_def log_def
      intro!: force_close_finalizes)

lemma taken_rel:
  assumes "taken bs w v" "stream_inv v" "kernel_ok v" "stream_rel v u"
  shows "taken bs w u"
proof -
  have "t_finalizing v \<longrightarrow> t_finalizing u" "\<not> t_finalizing u \<longrightarrow> prefix (stream_out v) (stream_out u)"
    using assms(2-4) by (auto simp: stream_rel_def stream_frame_def)
  with assms(1) show ?thesis unfolding taken_def using prefix_order.trans by blast
qed

text \<open>
  \<open>holds bs w v\<close>: \<open>taken\<close> in a state from which callbacks may go on.
\<close>

definition holds :: "bytes \<Rightarrow> 'a stream_transport_scheme \<Rightarrow> 'a stream_transport_scheme \<Rightarrow> bool" where
  "holds bs w v = (taken bs w v \<and> stream_inv v \<and> kernel_ok v)"

lemma holds_rel: "holds bs w v \<Longrightarrow> stream_rel v u \<Longrightarrow> holds bs w u"
  using taken_rel [of bs w v u] kernel_ok_frame [of v u] unfolding holds_def stream_rel_def by blast

lemma holds_steps:
  "holds bs w v \<Longrightarrow> steps_in stream_rel m \<Longrightarrow> wp m (\<lambda>_. holds bs w) (\<lambda>_. holds bs w) v"
  by (rule wp_steps_in [of stream_rel]) (auto intro: holds_rel)

lemma taken_weak:
  "\<not> is_exit e \<Longrightarrow> wp (handle_error stream_methods msg e) (\<lambda>_. taken bs w) (\<lambda>_. taken bs w) v"
  by (rule wp_weaken [OF handle_error_finalizes]) (auto simp: taken_def)

lemma holds_taken: "holds bs w v \<Longrightarrow> taken bs w v"
  by (simp add: holds_def)

text \<open>The end of every write: the request is queued, the writer registered, the protocol paused.\<close>

lemma append_start_holds:
  assumes "stream_inv w" "kernel_ok w" "\<not> t_finalizing w" "m \<noteq> []"
  shows "holds m w (snd (block [append_request m, start_backlog_writing] w))"
proof -
  let ?v = "snd (block [append_request m, start_backlog_writing] w)"
  have r: "stream_rel w ?v" by (rule append_start_rel) (rule assms)+
  have "stream_out ?v = stream_out w @ m"
    by (simp add: run append_request_def start_backlog_writing_def add_writer_def stream_out_def
        pending_def)
  then show ?thesis using r assms kernel_ok_frame [of w ?v] by (auto simp: holds_def taken_def stream_rel_def)
qed

text \<open>Several buffers: all of them readable, of byte-sized items.\<close>

definition readable :: "pybuf \<Rightarrow> bool" where
  "readable d = (byte_items d \<and> aiofn_unpack_simple_buffer False d = Inr (data_bytes d))"

lemma readable_mems:
  "list_all readable ds \<Longrightarrow> concat (iov_mems iov_of_data ds) = concat (map data_bytes ds)"
  by (induction ds) (auto simp: readable_def iov_of_data_def)

lemma writev_data_wp:
  assumes "list_all readable ds"
  shows "wp (try_writelines iov_of_data ds)
           (\<lambda>(b, n) v. \<exists>ks k. v = w\<lparr>k_send := ks, wire := wire w @ take k (concat (map data_bytes ds))\<rparr> \<and>
               set ks \<subseteq> set (k_send w) \<and> n = int k \<and> (b \<longleftrightarrow> k = length (concat (map data_bytes ds))) \<and>
               k \<le> length (concat (map data_bytes ds)))
           (\<lambda>e v. \<not> is_exit e) w"
proof -
  have "sent_part (concat ([] @ iov_mems iov_of_data ds)) 0 w
          (fst (try_writelines iov_of_data ds w)) (snd (try_writelines iov_of_data ds w))"
    unfolding try_writelines_def
    by (rule try_writelines_sent [OF _ data_mems_nonempty _ data_errors])
       (simp_all add: AIOFN_MAX_IOVEC_def)
  then show ?thesis
    unfolding readable_mems [OF assms] append_Nil
    by (rule sent_partE; cases "try_writelines iov_of_data ds w") (auto simp: wp_def split: sum.splits)
qed

lemma append_lines_holds:
  assumes w: "stream_inv w" "kernel_ok w" "\<not> t_finalizing w"
    and ds: "list_all readable ds" and k: "k \<le> length (concat (map data_bytes ds))"
  shows "wp (append_lines_tail ds (int k))
           (\<lambda>_. wp start_backlog_writing
              (\<lambda>_. holds (drop k (concat (map data_bytes ds))) w) (\<lambda>e _. \<not> is_exit e))
           (\<lambda>e _. \<not> is_exit e) w"
proof -
  obtain ms where
    v: "snd (append_lines_tail ds (int k) w) =
          w\<lparr>w_backlog := w_backlog w @ map WriteReq ms, w_size := w_size w + total_size ms\<rparr>"
    and ms: "[] \<notin> set ms"
    and e: "\<forall>e. fst (append_lines_tail ds (int k) w) = Inl e \<longrightarrow> \<not> is_exit e"
    and c: "fst (append_lines_tail ds (int k) w) = Inr () \<Longrightarrow>
              concat ms = drop k (concat (map data_bytes ds))"
    using append_lines_spec [of "int k" ds w] ds by (auto simp: readable_def list_all_iff)
  let ?v = "w\<lparr>w_backlog := w_backlog w @ map WriteReq ms, w_size := w_size w + total_size ms\<rparr>"
  let ?u = "snd (start_backlog_writing ?v)"
  have pos: "\<forall>m \<in> set ms. 0 < length m" using ms by (metis length_greater_0_conv)
  have bl: "backlog_ok (w_backlog w @ map WriteReq ms) (w_size w + total_size ms)"
    using w(1) pos by (auto simp: stream_inv_def backlog_ok_def total_size_def length_concat_int o_def)
  have u: "stream_inv ?u \<and> kernel_ok ?u \<and> stream_out ?u = stream_out w @ concat ms"
    using w bl
    by (auto simp: start_backlog_writing_def add_writer_def run stream_inv_def finalize_count_def
        kernel_ok_def stream_out_def pending_def o_def)
  have inr: "start_backlog_writing ?v = (Inr (), ?u)"
    by (simp add: start_backlog_writing_def add_writer_def run)
  have "holds (drop k (concat (map data_bytes ds))) w ?u"
    if "fst (append_lines_tail ds (int k) w) = Inr ()"
    using u c [OF that] by (simp add: holds_def taken_def)
  then show ?thesis
    using v e inr by (cases "append_lines_tail ds (int k) w") (auto simp: wp_def split: sum.splits)
qed

context reentrant_app
begin

lemma queue_request_holds:
  assumes "stream_inv w" "kernel_ok w" "\<not> t_finalizing w" "m \<noteq> []"
  shows "wp (queue_request apps (Some m)) (\<lambda>_. holds m w) (\<lambda>_. holds m w) w"
proof -
  have h: "holds m w (snd (block [append_request m, start_backlog_writing] w))"
    by (rule append_start_holds) (rule assms)+
  have "block [append_request m, start_backlog_writing] w =
        (Inr (), snd (block [append_request m, start_backlog_writing] w))"
    by (simp add: run append_request_def start_backlog_writing_def add_writer_def)
  then have "wp (queue_request apps (Some m)) (\<lambda>_. holds m w) (\<lambda>_. holds m w) w =
      wp (maybe_pause_protocol apps) (\<lambda>_. holds m w) (\<lambda>_. holds m w)
        (snd (block [append_request m, start_backlog_writing] w))"
    by (auto simp: queue_request_def wp_def run split: prod.splits sum.splits)
  then show ?thesis using holds_steps [OF h maybe_pause_in_rel] by simp
qed

lemma holds_handled:
  "holds bs w v \<Longrightarrow> wp (handle_error stream_methods msg e) (\<lambda>_. taken bs w) (\<lambda>_. taken bs w) v"
  by (rule wp_weaken [OF holds_steps [OF _ handle_error_in_rel]]) (auto intro: holds_taken)

lemma queue_tail_taken:
  \<comment> \<open>Part of the data went to the wire, the rest is queued.\<close>
  assumes "stream_inv v" "kernel_ok v" "\<not> t_finalizing v" "tail \<noteq> []"
    and "stream_out v @ tail = stream_out w @ m"
  shows "wp (queue_request apps (Some tail)) (\<lambda>_. taken m w)
           (\<lambda>e. wp (handle_error stream_methods msg e) (\<lambda>_. taken m w) (\<lambda>_. taken m w)) v"
proof -
  have t: "taken tail v u \<Longrightarrow> taken m w u" for u using assms(5) by (simp add: taken_def)
  show ?thesis
    by (rule wp_weaken [OF queue_request_holds [OF assms(1-4)]])
       (auto intro: t holds_taken wp_weaken [OF holds_handled])
qed

lemma first_write_taken:
  assumes w: "stream_inv w" "kernel_ok w" "\<not> t_finalizing w" "w_size w = 0" and m: "m \<noteq> []"
    and d: "\<And>n. n < length m \<Longrightarrow>
              (case d of None \<Rightarrow> True | Some x \<Rightarrow> make_write_request_tail x (drop n m) = Inr (drop n m))"
  shows "wp (bnd (try_write d m) (queue_request apps)) (\<lambda>_. taken m w)
           (\<lambda>e. wp (handle_error stream_methods msg e) (\<lambda>_. taken m w) (\<lambda>_. taken m w)) w"
proof -
  have out: "stream_out w = wire w" using w inv_size_zero [of w] by (simp add: stream_out_def pending_def)
  have go: "wp (queue_request apps (Some (drop n m))) (\<lambda>_. taken m w)
        (\<lambda>e. wp (handle_error stream_methods msg e) (\<lambda>_. taken m w) (\<lambda>_. taken m w))
        (w\<lparr>k_send := ks, wire := wire w @ take n m\<rparr>)"
    if "n < length m" "set ks \<subseteq> set (k_send w)" for n ks
  proof (rule queue_tail_taken)
    let ?v = "w\<lparr>k_send := ks, wire := wire w @ take n m\<rparr>"
    show "stream_inv ?v" using w(1) rel_wire [OF w(4) that(2), of "take n m"] by (simp add: stream_rel_def)
    show "kernel_ok ?v" using w(2) that(2) by (auto simp: kernel_ok_def)
    have "stream_out ?v = wire w @ take n m"
      using w inv_size_zero [of w] by (simp add: stream_out_def pending_def)
    then show "stream_out ?v @ drop n m = stream_out w @ m" by (simp add: out)
  qed (use w that in simp_all)
  have full: "taken m w (w\<lparr>k_send := ks, wire := wire w @ m\<rparr>)" for ks
    using w inv_size_zero [of w] by (simp add: taken_def stream_out_def pending_def)
  show ?thesis
    unfolding wp_bnd try_write_def
  proof (rule sys_write_wp)
    fix n ks
    assume n: "n = -1 \<or> (0 < n \<and> n \<le> int (length m))" and ks: "set ks \<subseteq> set (k_send w)"
    consider "n = int (length m)" | "n = -1" | k where "n = int k" "0 < k" "k < length m"
      using n by (cases "n = int (length m)") (auto elim: pos_int_cases)
    then show "wp (if n = int (length m) then ret None
        else let tail = if n > 0 then drop (nat n) m else m
             in case d of None \<Rightarrow> ret (Some (make_write_request_from_ptr tail))
                | Some d \<Rightarrow> bnd (lift_exn (make_write_request_tail d tail)) (\<lambda>r. ret (Some r)))
      (\<lambda>a. wp (queue_request apps a) (\<lambda>_. taken m w)
         (\<lambda>e. wp (handle_error stream_methods msg e) (\<lambda>_. taken m w) (\<lambda>_. taken m w)))
      (\<lambda>e. wp (handle_error stream_methods msg e) (\<lambda>_. taken m w) (\<lambda>_. taken m w))
      (w\<lparr>k_send := ks, wire := wire w @ take (nat n) m\<rparr>)"
    proof cases
      case 1
      then show ?thesis using full by (simp add: wps queue_request_def)
    next
      case 2
      then show ?thesis using go [of 0 ks] d [of 0] m ks
        by (cases d) (simp_all add: wps make_write_request_from_ptr_def)
    next
      case (3 k)
      then show ?thesis using go [of k ks] d [of k] ks
        by (cases d) (simp_all add: wps make_write_request_from_ptr_def Let_def)
    qed
  next
    fix c ks
    assume "\<not> is_exit (exn_of c)"
    then show "wp (handle_error stream_methods msg (exn_of c)) (\<lambda>_. taken m w) (\<lambda>_. taken m w)
        (w\<lparr>k_send := ks\<rparr>)" by (rule taken_weak)
  qed
qed

lemma write_taken:
  assumes w: "stream_inv w" "kernel_ok w" "\<not> t_finalizing w" "\<not> s_write_eof w"
    and d: "aiofn_unpack_simple_buffer False d = Inr m" "byte_items d"
  shows "wp (write_nocheck apps d) (\<lambda>_. taken m w) (\<lambda>_. taken m w) w"
proof -
  let ?T = "\<lambda>_. taken m w"
  let ?E = "\<lambda>e. wp (handle_error stream_methods ''Fatal write error on transport'' e) ?T ?T"
  have e: "taken [] w w" by (simp add: taken_def)
  have first: "wp (bnd (lift_exn (aiofn_unpack_simple_buffer False d)) (\<lambda>mem.
       if mem = [] then ret None else try_write (Some d) mem))
        (\<lambda>a. wp (queue_request apps a) ?T ?E) ?E w" if "w_size w = 0"
  proof (cases "m = []")
    case True
    then show ?thesis using d e by (simp add: wps queue_request_def)
  next
    case False
    have "wp (bnd (try_write (Some d) m) (queue_request apps)) ?T ?E w"
      by (rule first_write_taken)
         (use w that False d make_write_request_tail_content [of d m] in simp_all)
    then show ?thesis using d False by (simp add: wps)
  qed
  have later: "wp (bnd (lift_exn (make_write_request d)) (\<lambda>m. if m = [] then ret None else ret (Some m)))
        (\<lambda>a. wp (queue_request apps a) ?T ?E) ?E w"
  proof (cases "make_write_request d")
    case (Inl c)
    then have "\<not> is_exit (exn_of c)"
      by (auto simp: make_write_request_def aiofn_maybe_copy_buffer_def dest: unpack_no_exit
          split: sum.splits pybuf.splits bool.splits option.splits)
    then show ?thesis using Inl by (simp add: wps taken_weak)
  next
    case (Inr r)
    then have "r = m" using make_write_request_content [OF Inr] unpack_content [OF d(1)] by simp
    then show ?thesis
      using Inr e queue_tail_taken [of w m w m] w
      by (cases "m = []") (simp_all add: wps queue_request_def)
  qed
  show ?thesis
    using first later w(3,4)
    by (simp add: write_nocheck_def pre_write_check_def wp_bnd wp_cond wp_ret wp_try_except)
qed

lemma write_c_taken:
  assumes w: "stream_inv w" "kernel_ok w" "\<not> t_finalizing w" "\<not> s_write_eof w"
  shows "wp (write_c apps m) (\<lambda>_. taken m w) (\<lambda>_. taken m w) w"
proof (cases "m = []")
  case True
  then show ?thesis using w by (simp add: write_c_def pre_write_check_def wps taken_def)
next
  case False
  then show ?thesis
    using w first_write_taken [of w m None] queue_tail_taken [of w m w m]
    by (simp add: write_c_def pre_write_check_def wp_bnd wp_cond wp_ret wp_try_except
        make_write_request_from_ptr_def)
qed

lemma lines_tail_taken:
  assumes v: "stream_inv v" "kernel_ok v" "\<not> t_finalizing v"
    and ds: "list_all readable ds" and k: "k \<le> length (concat (map data_bytes ds))"
    and out: "stream_out v @ drop k (concat (map data_bytes ds)) = stream_out w @ concat (map data_bytes ds)"
  shows "wp (block [append_lines_tail ds (int k), start_backlog_writing, maybe_pause_protocol apps])
           (\<lambda>_. taken (concat (map data_bytes ds)) w)
           (\<lambda>e. wp (handle_error stream_methods msg e) (\<lambda>_. taken (concat (map data_bytes ds)) w)
              (\<lambda>_. taken (concat (map data_bytes ds)) w)) v"
proof -
  let ?bs = "concat (map data_bytes ds)"
  let ?T = "\<lambda>_. taken ?bs w"
  let ?E = "\<lambda>e. wp (handle_error stream_methods msg e) ?T ?T"
  have t: "taken (drop k ?bs) v u \<Longrightarrow> taken ?bs w u" for u using out by (simp add: taken_def)
  have pause: "wp (maybe_pause_protocol apps) ?T ?E u" if h: "holds (drop k ?bs) v u" for u
    by (rule wp_weaken [OF holds_steps [OF h maybe_pause_in_rel]])
       (auto intro: t holds_taken wp_weaken [OF holds_handled])
  have start: "wp start_backlog_writing (\<lambda>_. wp (maybe_pause_protocol apps) ?T ?E) ?E u"
    if "wp start_backlog_writing (\<lambda>_. holds (drop k ?bs) v) (\<lambda>e _. \<not> is_exit e) u" for u
    by (rule wp_weaken [OF that]) (auto intro: pause taken_weak)
  have "wp (append_lines_tail ds (int k)) (\<lambda>_. wp start_backlog_writing
           (\<lambda>_. wp (maybe_pause_protocol apps) ?T ?E) ?E) ?E v"
    by (rule wp_weaken [OF append_lines_holds [OF v ds k]]) (auto intro: start taken_weak)
  then show ?thesis by (simp add: wps)
qed

lemma writelines_taken:
  assumes w: "stream_inv w" "kernel_ok w" "\<not> t_finalizing w" "\<not> s_write_eof w"
    and ds: "list_all readable ds"
  shows "wp (writelines_nocheck apps ds) (\<lambda>_. taken (concat (map data_bytes ds)) w)
           (\<lambda>_. taken (concat (map data_bytes ds)) w) w"
proof -
  let ?bs = "concat (map data_bytes ds)"
  let ?T = "\<lambda>_. taken ?bs w"
  let ?E = "\<lambda>e. wp (handle_error stream_methods ''Fatal write error on transport'' e) ?T ?T"
  let ?rest = "\<lambda>n. wp (block [append_lines_tail ds n, start_backlog_writing, maybe_pause_protocol apps]) ?T ?E"
  have part: "(k = length ?bs \<longrightarrow> ?T () v) \<and> ?rest (int k) v"
    if s: "w_size w = 0" "set ks \<subseteq> set (k_send w)" "k \<le> length ?bs"
      "v = w\<lparr>k_send := ks, wire := wire w @ take k ?bs\<rparr>" for v ks k
  proof -
    have out: "stream_out v = stream_out w @ take k ?bs"
      using s(1,4) inv_size_zero [OF w(1)] by (simp add: stream_out_def pending_def)
    have v: "stream_inv v" "kernel_ok v" "\<not> t_finalizing v"
      using w rel_wire [OF s(1,2), of "take k ?bs"] s(2,4) by (auto simp: stream_rel_def kernel_ok_def)
    show ?thesis
      using lines_tail_taken [OF v ds s(3), of w] out by (auto simp: taken_def)
  qed
  have first: "wp (try_writelines iov_of_data ds)
      (\<lambda>a. wp (case a of (all_sent, n) \<Rightarrow> if all_sent then ret ()
            else block [append_lines_tail ds n, start_backlog_writing, maybe_pause_protocol apps]) ?T ?E) ?E w"
    if s: "w_size w = 0"
    by (rule wp_weaken [OF writev_data_wp [OF ds]])
       (use part [OF s] in \<open>auto intro: taken_weak simp: wp_ret wp_if\<close>)
  have later: "?rest 0 w" using lines_tail_taken [OF w(1-3) ds, of 0 w] by simp
  show ?thesis
    using first later w(3,4)
    by (simp add: writelines_nocheck_def pre_write_check_def wp_bnd wp_cond wp_ret wp_try_except)
qed

end

section \<open>Writes\<close>

text \<open>The bytes a writing call stands for, when its arguments are acceptable.\<close>

fun call_bytes :: "call \<Rightarrow> bytes option" where
  "call_bytes (CallWrite d) =
     (if readable d \<and> aiofn_validate_buffer d = Inr () then Some (data_bytes d) else None)"
| "call_bytes (CallWritelines ds) =
     (if list_all readable ds \<and> list_all (\<lambda>d. aiofn_validate_buffer d = Inr ()) ds
      then Some (concat (map data_bytes ds)) else None)"
| "call_bytes (CallWriteC m) = Some m"
| "call_bytes _ = None"

lemma validated_each:
  "list_all (\<lambda>d. aiofn_validate_buffer d = Inr ()) ds \<Longrightarrow>
     for_each ds (\<lambda>d. lift_exn (aiofn_validate_buffer d)) w = (Inr (), w)"
  by (induction ds) (simp_all add: run)

context reentrant_app
begin

lemma call_taken:
  assumes w: "stream_inv w" "kernel_ok w" "\<not> t_finalizing w" "\<not> s_write_eof w"
    and t: "t_thread_id w = thread_now w" and c: "call_bytes c = Some bs"
  shows "taken bs w (snd (run_call apps c w))"
  using c
proof (cases c rule: call_bytes.cases)
  case (1 d)
  with c have "readable d" "aiofn_validate_buffer d = Inr ()" "bs = data_bytes d"
    by (auto split: if_splits)
  then show ?thesis
    using write_taken [OF w, of d bs] t 1
    by (auto simp: run_call_def transport_write_def run check_thread_def readable_def wp_snd)
next
  case (2 ds)
  then have ds: "list_all readable ds" "list_all (\<lambda>d. aiofn_validate_buffer d = Inr ()) ds"
    "bs = concat (map data_bytes ds)"
    using c by (auto split: if_splits)
  show ?thesis
  proof (cases "ds = []")
    case True
    with 2 ds t show ?thesis
      by (simp add: run_call_def transport_writelines_def run check_thread_def taken_def)
  next
    case False
    then show ?thesis
      using writelines_taken [OF w ds(1)] 2 ds t validated_each [OF ds(2), of w]
      by (simp add: run_call_def transport_writelines_def run check_thread_def wp_snd)
  qed
next
  case (3 m)
  then show ?thesis using write_c_taken [OF w, of m] c by (simp add: run_call_def wp_snd)
qed simp_all

end



text \<open>C8: a vectored write of any number of buffers, in batches of at most \<open>AIOFN_MAX_IOVEC\<close>, is
  indistinguishable from one write of their concatenation: what reaches the wire is a prefix of
  it, of the length that is reported, and success is reported exactly when that is all.\<close>

theorem vectored_as_one:
  assumes "list_all readable ds" "try_writelines iov_of_data ds w = (Inr (done, n), w')"
  shows "wire w' = wire w @ take (nat n) (concat (map data_bytes ds)) \<and>
         0 \<le> n \<and> n \<le> int (length (concat (map data_bytes ds))) \<and>
         (done \<longleftrightarrow> n = int (length (concat (map data_bytes ds))))"
  using writev_data_wp [OF assms(1), of w] assms(2) by (auto simp: wp_def)

theorem vectored_as_one_witness:
  "wire (demo_greeted\<lparr>k_send := [], wire := [1, 4, 5]\<rparr>) =
     wire (demo_greeted\<lparr>k_send := [SysOk 2]\<rparr>) @ take (nat 2) (concat (map data_bytes [PyBytes [4], PyBytes [5, 6]])) \<and>
   0 \<le> (2 :: int) \<and> 2 \<le> int (length (concat (map data_bytes [PyBytes [4], PyBytes [5, 6]]))) \<and>
   (False \<longleftrightarrow> 2 = int (length (concat (map data_bytes [PyBytes [4], PyBytes [5, 6]]))))"
  by (rule vectored_as_one)
     (simp_all add: demo_defs readable_def data_bytes_def try_writelines_def iov_of_data_def
       AIOFN_MAX_IOVEC_def finish_writelines_def flush_iovecs_def sys_writev_def run total_size_def)

section \<open>Loops\<close>



section \<open>Abort and misuse\<close>

text \<open>The futures of the queued file transfers.\<close>

fun item_waiter :: "item \<Rightarrow> nat option" where
  "item_waiter (SendFile r) = sf_waiter r"
| "item_waiter _ = None"

definition settled :: "exn option \<Rightarrow> future" where
  "settled exc = (case exc of None \<Rightarrow> FutCancelled | Some e \<Rightarrow> FutException e)"

lemma release_waiter_eq:
  "release_waiter exc it w =
     (Inr (), case item_waiter it of
        None \<Rightarrow> w
      | Some i \<Rightarrow> if fut_done i w then w else w\<lparr>futures := (futures w)[i := settled exc]\<rparr>)"
proof (cases it)
  case (SendFile r)
  then show ?thesis
    by (cases "sf_waiter r"; cases exc) (simp_all add: release_waiter_def run fut_cancel_def fut_set_def settled_def)
qed (simp_all add: release_waiter_def)

lemma settled_done [simp]: "settled exc \<noteq> FutPending"
  by (cases exc) (simp_all add: settled_def)

lemma release_waiter_done:
  "item_waiter it = Some i \<Longrightarrow> i < length (futures w) \<Longrightarrow> fut_done i (snd (release_waiter exc it w))"
  by (simp add: release_waiter_eq fut_done_def)

lemma release_waiter_mono:
  "fut_done i w \<Longrightarrow> fut_done i (snd (release_waiter exc it w))"
proof (cases "item_waiter it")
  case (Some a)
  then show "fut_done i w \<Longrightarrow> ?thesis" by (cases "a = i") (auto simp: release_waiter_eq fut_done_def)
qed (simp add: release_waiter_eq)

lemma release_waiter_futures_length:
  "length (futures (snd (release_waiter exc it w))) = length (futures w)"
  by (cases "item_waiter it") (auto simp: release_waiter_eq)

lemma release_all_done:
  "fut_done i w \<or> (\<exists>it \<in> set q. item_waiter it = Some i) \<and> i < length (futures w) \<Longrightarrow>
     fut_done i (snd (for_each q (release_waiter exc) w))"
proof (induction q arbitrary: w)
  case Nil
  then show ?case by simp
next
  case (Cons it q)
  obtain v where v: "release_waiter exc it w = (Inr (), v)"
    by (simp add: release_waiter_eq)
  then have e: "snd (for_each (it # q) (release_waiter exc) w) = snd (for_each q (release_waiter exc) v)"
    by (simp add: run)
  have "fut_done i v \<or> (\<exists>it \<in> set q. item_waiter it = Some i) \<and> i < length (futures v)"
    using Cons.prems release_waiter_done [of it i w exc] release_waiter_mono [of i w exc it]
      release_waiter_futures_length [of exc it w] v by auto
  from Cons.IH [OF this] show ?case unfolding e .
qed

text \<open>Of the first \<open>n\<close> futures, those that a request of \<open>q\<close> completes are done in \<open>f\<close>.\<close>

definition waiters_done :: "nat \<Rightarrow> future list \<Rightarrow> item list \<Rightarrow> bool" where
  "waiters_done n f q =
     list_all (\<lambda>it. case item_waiter it of None \<Rightarrow> True | Some i \<Rightarrow> n \<le> i \<or> i < length f \<and> f ! i \<noteq> FutPending) q"

lemma release_all_done_wp:
  assumes "\<And>f. waiters_done (length (futures v)) f q \<Longrightarrow> Q () (v\<lparr>futures := f\<rparr>)"
  shows "wp (for_each q (release_waiter exc)) Q E v"
proof -
  obtain f where f: "for_each q (release_waiter exc) v = (Inr (), v\<lparr>futures := f\<rparr>)"
    using release_all_futures by blast
  have "i < length f \<and> f ! i \<noteq> FutPending"
    if "it \<in> set q" "item_waiter it = Some i" "i < length (futures v)" for it i
    using release_all_done [of i v q exc] that f by (auto simp: fut_done_def)
  then have "waiters_done (length (futures v)) f q"
    by (fastforce simp: waiters_done_def list_all_iff split: option.split)
  from assms [OF this] f show ?thesis by (simp add: wp_def)
qed

lemma force_close_effect:
  assumes "\<not> t_finalizing w" "w_registered w = writer_on w"
  shows "wp (writable_force_close exc)
     (\<lambda>_ w'. t_closing w' \<and> t_finalizing w' \<and> w_backlog w' = [] \<and> w_size w' = 0 \<and> \<not> writer_on w' \<and>
            soon w' = soon w @ [SoonFinalizeClose exc] \<and> trace w' = trace w \<and> wire w' = wire w \<and>
            waiters_done (length (futures w)) (futures w') (w_backlog w))
     (\<lambda>_ _. False) w"
  using assms
  by (auto simp: writable_force_close_def wps stop_backlog_writing_def clear_write_backlog_def
      schedule_finalize_close_def call_soon_def remove_writer_def
      intro!: pause_reading_wp release_all_done_wp)

text \<open>C10: \<open>abort\<close> releases everything that waits on the transport: the backlog is dropped, the
  writer unregistered, every future of a queued file transfer is done, and exactly one
  finalizer is scheduled, without calling the application and without sending a byte.\<close>

theorem abort_releases:
  assumes "t_thread_id w = thread_now w" "\<not> t_finalizing w" "w_registered w = writer_on w"
  shows "fst (abort stream_methods w) = Inr () \<and>
         (let w' = snd (abort stream_methods w) in
            t_closing w' \<and> t_finalizing w' \<and> w_backlog w' = [] \<and> w_size w' = 0 \<and> \<not> writer_on w' \<and>
            soon w' = soon w @ [SoonFinalizeClose None] \<and> trace w' = trace w \<and> wire w' = wire w \<and>
            waiters_done (length (futures w)) (futures w') (w_backlog w))"
proof -
  have "abort stream_methods w = writable_force_close None w"
    using assms(1) by (simp add: abort_def check_thread_def stream_methods_def writable_methods_def run)
  with force_close_effect [OF assms(2,3), of None] show ?thesis
    by (cases "writable_force_close None w") (auto simp: wp_def Let_def split: sum.splits)
qed

theorem abort_releases_witness:
  "fst (abort stream_methods demo_greeted) = Inr () \<and>
   (let w' = snd (abort stream_methods demo_greeted) in
      t_closing w' \<and> t_finalizing w' \<and> w_backlog w' = [] \<and> w_size w' = 0 \<and> \<not> writer_on w' \<and>
      soon w' = soon demo_greeted @ [SoonFinalizeClose None] \<and> trace w' = trace demo_greeted \<and>
      wire w' = wire demo_greeted \<and>
      waiters_done (length (futures demo_greeted)) (futures w') (w_backlog demo_greeted))"
  by (rule abort_releases) (simp_all add: demo_defs)

text \<open>A call from a thread other than the one that created the transport raises
  \<open>RuntimeError\<close> and changes nothing, for every operation of the Python interface.\<close>

theorem foreign_thread_refused:
  assumes "t_thread_id w \<noteq> thread_now w" "case c of CallWriteC _ \<Rightarrow> False | _ \<Rightarrow> True"
  shows "run_call apps c w = (Inl (exn_of RuntimeErr), w)"
  using assms
  by (cases c) (simp_all add: run_call_def transport_write_def transport_writelines_def run check_thread_def
      stream_sendfile_def write_eof_def writable_close_def abort_def pause_reading_def resume_reading_def
      set_write_buffer_limits_def get_write_buffer_size_def set_protocol_def)

theorem foreign_thread_refused_witness:
  "run_call demo_apps CallAbort (demo_greeted\<lparr>thread_now := 8\<rparr>) =
     (Inl (exn_of RuntimeErr), demo_greeted\<lparr>thread_now := 8\<rparr>)"
  by (rule foreign_thread_refused) (simp_all add: demo_defs)

text \<open>Of two limits for the write buffer, exactly the pairs with \<open>0 \<le> low \<le> high\<close> that fit a
  \<open>Py_ssize_t\<close> are accepted; a missing limit is four times, or a quarter of, the other, and
  the pause state is untouched. Everything else is a \<open>ValueError\<close> or an \<open>OverflowError\<close>.\<close>

theorem write_limits_checked:
  "set_write_buffer_limits_raw high low wm =
     (let h = (case (high, low) of (Some h, _) \<Rightarrow> h | (None, Some l) \<Rightarrow> 4 * l | (None, None) \<Rightarrow> 65536);
          l = (case low of Some l \<Rightarrow> l | None \<Rightarrow> h div 4)
      in if l < 0 \<or> h < l then Inl ValueErr
         else if py_ssize_max < h then Inl OverflowErr
         else Inr \<lparr>low_water = l, high_water = h, wm_paused = wm_paused wm\<rparr>) \<and>
   (case set_write_buffer_limits_raw high low wm of
      Inl _ \<Rightarrow> True
    | Inr wm' \<Rightarrow> 0 \<le> low_water wm' \<and> low_water wm' \<le> high_water wm' \<and> high_water wm' \<le> py_ssize_max)"
  by (auto simp: set_write_buffer_limits_raw_def Let_def split: option.splits)

section \<open>A transfer that never completes\<close>




end
