(* ===== verification/Datagram.thy ===== *)
theory Datagram
  imports SelectorSocket
begin

text \<open>
  The datagram transport (transport.pyx, class \<open>DatagramTransport\<close>, and selector_transport.pyx,
  class \<open>SelectorDatagramTransport\<close>). A datagram is sent whole or not at all; an \<open>OSError\<close> of
  the kernel goes to \<open>error_received\<close> and costs that datagram only.

  \<open>d_recv\<close> is what the kernel will answer to \<open>recvfrom\<close>, with the raw source address, and
  \<open>d_sent\<close> what it has accepted. \<open>inet\<close> holds the address functions of the C library.
  \<open>write_ready\<close> carries fuel: a round that goes on has consumed an answer of the kernel.
\<close>

section \<open>State\<close>

record inet =
  inet_pton :: "family \<Rightarrow> string \<Rightarrow> bytes option"
  inet_ntop :: "family \<Rightarrow> bytes \<Rightarrow> string option"
  inet_errno :: int

record datagram_transport = writable_transport +
  d_address :: "pyaddr option"
  d_header_size :: int
  d_family :: family
  d_has_connection :: bool
  d_recv :: "(sockaddr \<times> int) recvret list"
  d_sent :: "(bytes \<times> (sockaddr \<times> int) option) list"

definition DATAGRAM_RECEIVED_MAX_SIZE :: nat where "DATAGRAM_RECEIVED_MAX_SIZE = 64 * 1024"

text \<open>
  The base constructor fails on an address that is not resolved. \<open>connected\<close> says whether the
  socket has a peer name.
\<close>

definition datagram_init ::
  "inet \<Rightarrow> (nat \<Rightarrow> datagram_transport app) \<Rightarrow> nat \<Rightarrow> pyaddr \<Rightarrow> int \<Rightarrow> int \<Rightarrow> family \<Rightarrow> bool \<Rightarrow>
     (sockaddr \<times> int) recvret list \<Rightarrow> pyworld \<Rightarrow> exn_class + datagram_transport" where
  "datagram_init inet apps p address header_size fd family connected recvs w =
     (let made = (\<lambda>a. snd (set_protocol_nocheck apps p
            (writable_transport.extend (writable_init fd True w)
               (datagram_transport.fields a header_size family connected recvs []))))
      in if address = AddrNone then Inr (made None)
         else
           (case aiofn_pyaddr_to_sockaddr (inet_pton inet) family address of
              Inl c \<Rightarrow> Inl c
            | Inr _ \<Rightarrow> Inr (made (Some address))))"

definition selector_datagram_new ::
  "inet \<Rightarrow> (nat \<Rightarrow> datagram_transport app) \<Rightarrow> nat \<Rightarrow> pyaddr \<Rightarrow> nat \<Rightarrow> int \<Rightarrow> family \<Rightarrow> bool \<Rightarrow>
     (sockaddr \<times> int) recvret list \<Rightarrow> pyworld \<Rightarrow> exn_class + datagram_transport" where
  "selector_datagram_new inet apps p address waiter fd family connected recvs w =
     (case datagram_init inet apps p address 8 fd family connected recvs w of
        Inl c \<Rightarrow> Inl c
      | Inr t \<Rightarrow> Inr (schedule_start True (Some waiter) t))"

section \<open>Sending\<close>

definition sys_sendto ::
  "bytes \<Rightarrow> (sockaddr \<times> int) option \<Rightarrow> ('a datagram_transport_scheme, int) prog" where
  "sys_sendto bs raw w =
     (case aiofn_sendto (k_send w) (length bs) of
        (Inl c, ks) \<Rightarrow> (Inl (exn_of c), w\<lparr>k_send := ks\<rparr>)
      | (Inr n, ks) \<Rightarrow>
          (Inr n, w\<lparr>k_send := ks, d_sent := (if n = -1 then d_sent w else d_sent w @ [(bs, raw)])\<rparr>))"

definition validate_address :: "inet \<Rightarrow> pyaddr \<Rightarrow> ('a datagram_transport_scheme, pyaddr) prog" where
  "validate_address inet addr =
     andthen
       (unless d_has_connection
         (bnd (gets (\<lambda>w. aiofn_pyaddr_to_sockaddr (inet_pton inet) (d_family w) addr))
            (\<lambda>r. bnd (lift_exn r) (\<lambda>_. ret ()))))
       (ret addr)"

definition raw_address ::
  "inet \<Rightarrow> pyaddr \<Rightarrow> ('a datagram_transport_scheme, (sockaddr \<times> int) option) prog" where
  "raw_address inet addr =
     cond d_has_connection (ret None)
       (bnd (gets (\<lambda>w. aiofn_pyaddr_to_sockaddr (inet_pton inet) (d_family w) addr))
          (\<lambda>r. bnd (lift_exn r) (\<lambda>raw. ret (Some raw))))"

definition try_sendto ::
  "inet \<Rightarrow> (nat \<Rightarrow> 'a datagram_transport_scheme app) \<Rightarrow> pybuf \<Rightarrow> pyaddr \<Rightarrow>
     ('a datagram_transport_scheme, bool) prog" where
  "try_sendto inet apps data addr =
     try_except
       (bnd (lift_exn (aiofn_unpack_simple_buffer False data)) (\<lambda>mem.
         bnd (raw_address inet addr) (\<lambda>raw.
           bnd (sys_sendto mem raw) (\<lambda>bytes_sent. ret (bytes_sent \<noteq> -1)))))
       (\<lambda>e. if is_oserror e then andthen (call_protocol_error_received apps e) (ret True) else reraise e)"

definition queue_datagram ::
  "(nat \<Rightarrow> 'a datagram_transport_scheme app) \<Rightarrow> pybuf \<Rightarrow> pyaddr \<Rightarrow>
     ('a datagram_transport_scheme, unit) prog" where
  "queue_datagram apps data addr =
     bnd (lift_exn (aiofn_maybe_copy_buffer data)) (\<lambda>d.
       block [
         upd (\<lambda>w. w\<lparr>w_backlog := w_backlog w @ [Datagram d addr]\<rparr>),
         bnd (lift_exn (py_len data)) (\<lambda>n. upd (\<lambda>w. w\<lparr>w_size := w_size w + (n + d_header_size w)\<rparr>)),
         start_backlog_writing,
         maybe_pause_protocol apps])"

definition datagram_closed_write :: "('a datagram_transport_scheme, unit) prog" where
  "datagram_closed_write =
     block [
       only_if (\<lambda>w. w_closed_count w \<ge> LOG_THRESHOLD_FOR_CONNLOST_WRITES)
         (log (ObLogWarning ''socket.send() raised exception.'')),
       upd (\<lambda>w. w\<lparr>w_closed_count := w_closed_count w + 1\<rparr>)]"

definition sendto_nocheck ::
  "inet \<Rightarrow> (nat \<Rightarrow> 'a datagram_transport_scheme app) \<Rightarrow> pybuf \<Rightarrow> pyaddr \<Rightarrow>
     ('a datagram_transport_scheme, unit) prog" where
  "sendto_nocheck inet apps data addr =
     bnd
       (bnd (gets d_address) (\<lambda>fixed.
         case fixed of
           None \<Rightarrow> ret addr
         | Some a \<Rightarrow> if addr \<noteq> AddrNone \<and> addr \<noteq> a then raise ValueErr else ret a))
       (\<lambda>addr. bnd (validate_address inet addr) (\<lambda>addr.
         cond (\<lambda>w. t_finalizing w \<and> d_address w \<noteq> None) datagram_closed_write
           (try_except
             (bnd
               (cond (\<lambda>w. w_size w = 0) (try_sendto inet apps data addr) (ret False))
               (\<lambda>sent. if sent then ret () else queue_datagram apps data addr))
             (handle_error writable_methods ''Fatal write error on datagram transport''))))"

section \<open>Receiving\<close>

definition sys_recvfrom ::
  "nat \<Rightarrow> ('a datagram_transport_scheme, (bytes \<times> sockaddr \<times> int) option) prog" where
  "sys_recvfrom len w =
     (case aiofn_recvfrom (d_recv w) len of
        (Inl c, ks) \<Rightarrow> (Inl (exn_of c), w\<lparr>d_recv := ks\<rparr>)
      | (Inr r, ks) \<Rightarrow> (Inr r, w\<lparr>d_recv := ks\<rparr>))"

definition receive_datagram ::
  "inet \<Rightarrow> ('a datagram_transport_scheme, (bytes \<times> pyaddr) option) prog" where
  "receive_datagram inet =
     bnd (sys_recvfrom DATAGRAM_RECEIVED_MAX_SIZE) (\<lambda>r.
       case r of
         None \<Rightarrow> ret None
       | Some (data, sa, n) \<Rightarrow>
           bnd (lift_exn (aiofn_sockaddr_to_pyaddr (inet_ntop inet) (inet_errno inet) sa n))
             (\<lambda>addr. ret (Some (data, addr))))"

definition datagram_read_error ::
  "(nat \<Rightarrow> 'a datagram_transport_scheme app) \<Rightarrow> exn \<Rightarrow> ('a datagram_transport_scheme, unit) prog" where
  "datagram_read_error apps e =
     (if is_oserror e then call_protocol_error_received apps e
      else if is_exit e then reraise e
      else handle_error writable_methods ''Fatal read error on datagram transport'' e)"

definition datagram_read_ready ::
  "inet \<Rightarrow> (nat \<Rightarrow> 'a datagram_transport_scheme app) \<Rightarrow> ('a datagram_transport_scheme, unit) prog" where
  "datagram_read_ready inet apps =
     cond (\<lambda>w. t_finalizing w \<or> t_read_paused w) (ret ())
       (try_else (receive_datagram inet) (datagram_read_error apps)
         (\<lambda>r. case r of
            None \<Rightarrow> ret ()
          | Some (data, addr) \<Rightarrow> call_protocol_datagram_received apps data addr))"

section \<open>Draining\<close>

definition datagram_drain_step ::
  "inet \<Rightarrow> (nat \<Rightarrow> 'a datagram_transport_scheme app) \<Rightarrow> unit \<Rightarrow>
     ('a datagram_transport_scheme, unit + unit) prog" where
  "datagram_drain_step inet apps u =
     cond (\<lambda>w. \<not> w_size w > 0) (leave_with ())
       (bnd (gets w_backlog) (\<lambda>q.
         case q of
           [] \<Rightarrow> raise IndexErr
         | Datagram data addr # _ \<Rightarrow>
             bnd (try_sendto inet apps data addr) (\<lambda>sent.
               if \<not> sent then leave_with ()
               else
                 andthen
                   (block [
                     only_if (\<lambda>w. w_backlog w = []) (raise IndexErr),
                     upd (\<lambda>w. w\<lparr>w_backlog := drop 1 (w_backlog w)\<rparr>),
                     bnd (lift_exn (py_len data))
                       (\<lambda>n. upd (\<lambda>w. w\<lparr>w_size := w_size w - (n + d_header_size w)\<rparr>))])
                   (continue_with ()))
         | _ \<Rightarrow> raise TypeErr))"

definition datagram_write_ready ::
  "inet \<Rightarrow> (nat \<Rightarrow> 'a datagram_transport_scheme app) \<Rightarrow> ('a datagram_transport_scheme, unit) prog" where
  "datagram_write_ready inet apps =
     try_except
       (block [
         bnd (gets (\<lambda>w. length (k_send w) + 2)) (\<lambda>n. loop n (datagram_drain_step inet apps) ()),
         maybe_resume_protocol apps,
         only_if (\<lambda>w. w_size w = 0)
           (block [
             stop_backlog_writing,
             only_if (\<lambda>w. t_closing w \<and> \<not> t_finalizing w) (schedule_finalize_close None)])])
       (\<lambda>e. block [
          stop_backlog_writing,
          handle_error writable_methods ''Fatal write error on datagram transport'' e])"

end
