(* ===== verification/DatagramProps.thy ===== *)
theory DatagramProps
  imports Datagram StreamCalls
begin

text \<open>
  Properties of the datagram transport: draining keeps the order and the accounting, a read
  delivers one datagram with its source, and the two ways in which the accounting of the
  source fails.
\<close>

section \<open>One attempt to send\<close>


fun item_content :: "item \<Rightarrow> bytes" where
  "item_content (Datagram d _) = buf_content d"
| "item_content _ = []"


definition dgram_size :: "int \<Rightarrow> item list \<Rightarrow> int" where
  "dgram_size h q = (\<Sum>it\<leftarrow>q. int (length (item_content it)) + h)"



lemma recvfrom_error_class: "aiofn_recvfrom rs n = (Inl c, ks) \<Longrightarrow> is_oserror_class c"
  by (induction rs n rule: aiofn_recvfrom.induct) (auto split: if_splits)



section \<open>Draining\<close>





lemma dgram_size_simps [simp]:
  "dgram_size h [] = 0"
  "dgram_size h (it # q) = int (length (item_content it)) + h + dgram_size h q"
  by (simp_all add: dgram_size_def)














text \<open>A socket with a peer, two queued datagrams, of which the kernel refuses the first.\<close>

definition dgram_demo :: datagram_transport where
  "dgram_demo =
     (case selector_datagram_new \<lparr>inet_pton = \<lambda>_ _. None, inet_ntop = \<lambda>_ _. None, inet_errno = 0\<rparr>
             (\<lambda>_. idle_app) 0 AddrNone 0 5 AF_INET True [] (demo_world\<lparr>k_send := [SysErr 111, SysOk 1]\<rparr>) of
        Inr t \<Rightarrow> t\<lparr>w_backlog := [Datagram (PyBytes [1, 2]) AddrNone, Datagram (PyBytes [3]) AddrNone],
                 w_size := 19, w_registered := True, writer_on := True\<rparr>)"

lemmas dgram_demo_defs = dgram_demo_def selector_datagram_new_def datagram_init_def init_defs
  datagram_transport.defs demo_world_def


section \<open>Receiving\<close>

text \<open>C13: one read event delivers at most one datagram, cut at \<open>DATAGRAM_RECEIVED_MAX_SIZE\<close>
  bytes, with the address it came from; nothing is read while the transport is paused or
  finalizing, and an \<open>OSError\<close> of the kernel goes to \<open>error_received\<close> and does not close.\<close>

theorem datagram_read_one:
  assumes "t_protocol w = Some i" "\<And>d a. on_datagram_received (apps i) d a = ret ()"
    "\<And>e. on_error_received (apps i) e = ret ()"
  shows "datagram_read_ready inet apps w =
     (if t_finalizing w \<or> t_read_paused w then (Inr (), w)
      else let (r, ks) = aiofn_recvfrom (d_recv w) DATAGRAM_RECEIVED_MAX_SIZE in
        (Inr (), w\<lparr>d_recv := ks, trace := trace w @
          (case r of
             Inr None \<Rightarrow> []
           | Inr (Some (data, sa, n)) \<Rightarrow>
               (case aiofn_sockaddr_to_pyaddr (inet_ntop inet) (inet_errno inet) sa n of
                  Inr addr \<Rightarrow> [ObDatagramReceived data addr]
                | Inl c \<Rightarrow> [ObErrorReceived (exn_of c)])
           | Inl c \<Rightarrow> [ObErrorReceived (exn_of c)])\<rparr>))"
proof -
  have c: "is_oserror (exn_of c)" if "aiofn_recvfrom (d_recv w) n = (Inl c, ks)" for c ks n
    using recvfrom_error_class [OF that] by (simp add: is_oserror_def exn_of_def)
  have s: "is_oserror (exn_of c)" if "aiofn_sockaddr_to_pyaddr nt err sa n = Inl c" for nt err sa n c
    using that by (auto simp: aiofn_sockaddr_to_pyaddr_def is_oserror_def exn_of_def Let_def
        split: sockaddr.splits option.splits if_splits)
  obtain r ks where r: "aiofn_recvfrom (d_recv w) DATAGRAM_RECEIVED_MAX_SIZE = (r, ks)"
    by (cases "aiofn_recvfrom (d_recv w) DATAGRAM_RECEIVED_MAX_SIZE")
  have err: "call_protocol_error_received apps e v = (Inr (), v\<lparr>trace := trace v @ [ObErrorReceived e]\<rparr>)"
    if "t_protocol v = Some i" for e v
    using that assms(3) by (simp add: call_protocol_error_received_def call_protocol_def log_def run)
  have rcv: "call_protocol_datagram_received apps d a v =
      (Inr (), v\<lparr>trace := trace v @ [ObDatagramReceived d a]\<rparr>)"
    if "t_protocol v = Some i" for d a v
    using that assms(2) by (simp add: call_protocol_datagram_received_def call_protocol_def log_def run)
  show ?thesis
  proof (cases r)
    case (Inl k)
    then show ?thesis
      using r c [of _ k ks] assms(1)
      by (simp add: datagram_read_ready_def run receive_datagram_def sys_recvfrom_def
          datagram_read_error_def err)
  next
    case (Inr x)
    show ?thesis
    proof (cases x)
      case None
      then show ?thesis using Inr r
        by (simp add: datagram_read_ready_def run receive_datagram_def sys_recvfrom_def)
    next
      case (Some y)
      obtain d sa n where y: "y = (d, sa, n)" by (cases y)
      show ?thesis
        using Inr r Some y assms(1) s [of "inet_ntop inet" "inet_errno inet" sa n]
        by (cases "aiofn_sockaddr_to_pyaddr (inet_ntop inet) (inet_errno inet) sa n")
           (simp_all add: datagram_read_ready_def run receive_datagram_def sys_recvfrom_def
              datagram_read_error_def err rcv)
    qed
  qed
qed

theorem datagram_read_one_witness:
  "datagram_read_ready \<lparr>inet_pton = \<lambda>_ _. None, inet_ntop = \<lambda>_ _. Some ''h'', inet_errno = 0\<rparr> (\<lambda>_. idle_app)
     (dgram_demo\<lparr>d_recv := [RecvOk [7, 8] (SaIn [1, 2, 3, 4] 0, 16)]\<rparr>) =
   (Inr (), dgram_demo\<lparr>d_recv := [],
      trace := [ObDatagramReceived [7, 8] (AddrTuple [ElStr ''h'', ElInt (uint (htons 0))])]\<rparr>)"
  by (subst datagram_read_one [of _ 0])
     (simp_all add: dgram_demo_defs idle_app_def DATAGRAM_RECEIVED_MAX_SIZE_def aiofn_sockaddr_to_pyaddr_def)

section \<open>Where the accounting fails\<close>

text \<open>
  A view of a \<open>bytearray\<close> as two items of four bytes, sent while the socket is full and
  then drained, on a transport that was closed in between.
\<close>

definition wide_view :: pybuf where
  "wide_view = PyMemview False False True 4 [1, 2, 3, 4, 5, 6, 7, 8]"

definition dgram_idle :: datagram_transport where
  "dgram_idle =
     (case selector_datagram_new \<lparr>inet_pton = \<lambda>_ _. None, inet_ntop = \<lambda>_ _. None, inet_errno = 0\<rparr>
             (\<lambda>_. idle_app) 0 AddrNone 0 5 AF_INET True [] (demo_world\<lparr>k_send := [SysErr EAGAIN]\<rparr>) of
        Inr t \<Rightarrow> t)"

definition wide_close :: "inet \<Rightarrow> (datagram_transport, unit) prog" where
  "wide_close inet =
     block [
       sendto_nocheck inet (\<lambda>_. idle_app) wide_view AddrNone,
       writable_close,
       upd (\<lambda>w. w\<lparr>k_send := [SysOk 1]\<rparr>),
       datagram_write_ready inet (\<lambda>_. idle_app)]"

text \<open>A queued datagram counts \<open>len(data)\<close> items when it is added but the bytes of the stored copy
  when it is sent. For a view of a \<open>bytearray\<close> with items of four bytes the size becomes
  negative: after the datagram is sent the backlog is empty, but the writer stays registered
  and the close that waits for the backlog never finishes; every further write event does
  nothing.\<close>

theorem datagram_size_drifts:
  "let w = snd (wide_close inet dgram_idle) in
     d_sent w = [([1, 2, 3, 4, 5, 6, 7, 8], None)] \<and> w_backlog w = [] \<and> w_size w = -6 \<and>
     t_closing w \<and> \<not> t_finalizing w \<and> writer_on w \<and>
     datagram_write_ready inet (\<lambda>_. idle_app) w = (Inr (), w)"
  by (simp add: wide_close_def dgram_idle_def dgram_demo_defs wide_view_def idle_app_def run
      sendto_nocheck_def validate_address_def try_sendto_def raw_address_def sys_sendto_def errno_defs
      would_block_def queue_datagram_def aiofn_maybe_copy_buffer_def start_backlog_writing_def add_writer_def
      maybe_pause_protocol_def get_write_buffer_size_nocheck_def current_app_def
      maybe_pause_protocol_raw_def watermarks_new_eq writable_close_def check_thread_def
      pause_reading_nocheck_def fd_methods_base_def fd_stop_reading_def remove_reader_def set_read_paused_def
      datagram_write_ready_def datagram_drain_step_def maybe_resume_protocol_def
      maybe_resume_protocol_raw_def numeral_2_eq_2)



end
