(* ===== verification/Pipes.thy ===== *)
theory Pipes
  imports SelectorSocket
begin

text \<open>
  The two pipe transports (selector_transport.pyx, classes \<open>SelectorReadPipeTransport\<close> and
  \<open>SelectorWritePipeTransport\<close>). The read side adds nothing to the state of a descriptor
  transport; the write side is a stream transport whose read event means that the peer is
  gone. What \<open>os.fstat\<close> and \<open>sys.platform\<close> say is an argument.
\<close>

section \<open>Construction\<close>

record pipe_stat =
  st_is_char :: bool
  st_is_fifo :: bool
  st_is_socket :: bool
  st_nlink :: nat

definition read_pipe_new ::
  "(nat \<Rightarrow> fd_transport app) \<Rightarrow> nat \<Rightarrow> nat \<Rightarrow> int \<Rightarrow> pipe_stat \<Rightarrow> pyworld \<Rightarrow> exn_class + fd_transport" where
  "read_pipe_new apps p waiter fd st w =
     (if \<not> (st_is_fifo st \<or> st_is_socket st \<or> st_is_char st) then Inl ValueErr
      else Inr (schedule_start True (Some waiter)
             (snd (set_protocol_nocheck apps p (fd_transport_init fd False w)))))"

definition starts_with :: "string \<Rightarrow> string \<Rightarrow> bool" where
  "starts_with pre s = (take (length pre) s = pre)"

definition watches_peer :: "string \<Rightarrow> pipe_stat \<Rightarrow> bool" where
  "watches_peer platform st =
     (let is_named_fifo_on_apple =
            (platform \<in> {''darwin'', ''ios'', ''tvos'', ''watchos''} \<and> st_is_fifo st \<and> st_nlink st > 0)
      in st_is_socket st \<or>
         (st_is_fifo st \<and> \<not> starts_with ''aix'' platform \<and> \<not> is_named_fifo_on_apple))"

definition write_pipe_new ::
  "(nat \<Rightarrow> stream_transport app) \<Rightarrow> nat \<Rightarrow> nat \<Rightarrow> int \<Rightarrow> string \<Rightarrow> pipe_stat \<Rightarrow> pyworld \<Rightarrow>
     exn_class + stream_transport" where
  "write_pipe_new apps p waiter fd platform st w =
     (if \<not> (st_is_char st \<or> st_is_fifo st \<or> st_is_socket st) then Inl ValueErr
      else Inr (schedule_start (watches_peer platform st) (Some waiter)
             (stream_init apps p False fd False w)))"

section \<open>The read side\<close>

definition read_pipe_should_report_fatal_error :: "exn \<Rightarrow> bool" where
  "read_pipe_should_report_fatal_error e = (exn_cls e \<noteq> OSErr EIO)"

definition read_pipe_methods :: "'a fd_transport_scheme methods" where
  "read_pipe_methods = fd_methods\<lparr>m_should_report := read_pipe_should_report_fatal_error\<rparr>"

definition read_pipe_close :: "('a fd_transport_scheme, unit) prog" where
  "read_pipe_close = abort read_pipe_methods"

definition read_pipe_read_ready ::
  "(nat \<Rightarrow> 'a fd_transport_scheme app) \<Rightarrow> ('a fd_transport_scheme, unit) prog" where
  "read_pipe_read_ready apps =
     try_except
       (bnd (sys_simple_read DATA_RECEIVED_MAX_SIZE) (\<lambda>(d, bytes_read).
         if bytes_read = -1 then ret ()
         else if bytes_read = 0 then
           andthen (call_protocol_eof_received apps) (fd_force_close None)
         else call_protocol_data_received apps d))
       (handle_error read_pipe_methods ''Fatal read error on pipe transport'')"

section \<open>The write side\<close>

definition write_pipe_read_ready :: "('a writable_transport_scheme, unit) prog" where
  "write_pipe_read_ready =
     cond (\<lambda>w. w_size w > 0)
       (writable_force_close (Some (exn_of BrokenPipeError)))
       (writable_force_close None)"

end
