(* ===== verification/PipeProps.thy ===== *)
theory PipeProps
  imports Pipes StreamCalls
begin

text \<open>
  Properties of the pipe transports: a read passes on exactly what it read, end of file ends
  the read side, and the disappearance of the reader ends the write side.
\<close>

section \<open>The read side\<close>















section \<open>The write side\<close>

text \<open>C16: when the reading end of a pipe goes away, the write side finalizes: with a broken pipe if
  data was queued, which is dropped, and without an error otherwise.\<close>

theorem write_pipe_peer_gone:
  assumes "\<not> t_finalizing w" "w_registered w = writer_on w"
  shows "let w' = snd (write_pipe_read_ready w) in
           t_closing w' \<and> t_finalizing w' \<and> w_backlog w' = [] \<and> w_size w' = 0 \<and> \<not> writer_on w' \<and>
           wire w' = wire w \<and> trace w' = trace w \<and>
           soon w' = soon w @ [SoonFinalizeClose (if w_size w > 0 then Some (exn_of BrokenPipeError) else None)]"
  using force_close_effect [OF assms, of "Some (exn_of BrokenPipeError)"]
    force_close_effect [OF assms, of None]
  by (auto simp: write_pipe_read_ready_def run wp_def Let_def split: prod.splits sum.splits)

theorem write_pipe_peer_gone_witness:
  "let w' = snd (write_pipe_read_ready demo_greeted) in
     t_closing w' \<and> t_finalizing w' \<and> w_backlog w' = [] \<and> w_size w' = 0 \<and> \<not> writer_on w' \<and>
     wire w' = wire demo_greeted \<and> trace w' = trace demo_greeted \<and>
     soon w' = soon demo_greeted @
       [SoonFinalizeClose (if w_size demo_greeted > 0 then Some (exn_of BrokenPipeError) else None)]"
  by (rule write_pipe_peer_gone) (simp_all add: demo_defs)

end
