(* ===== verification/MemBio.thy ===== *)
theory MemBio
  imports Prelude "HOL-Library.Sublist"
begin

text \<open>
  The fixed-capacity memory BIO between the TLS engine and the socket (static_mem_bio.c). The
  caller's buffer \<open>[begin, end)\<close> is the list \<open>mb_buf\<close>; \<open>rptr\<close> and \<open>wptr\<close> are offsets
  into it. The BIO's flags are the two direction bits and the retry bit. A null argument is
  \<open>None\<close>. \<open>size_t\<close> values are naturals: no sum of the code exceeds the capacity. A 64-bit
  build is assumed for \<open>INT_MAX\<close> and \<open>LONG_MAX\<close>.
\<close>

section \<open>State\<close>

record mem_state =
  mb_buf :: bytes
  mb_rptr :: nat
  mb_wptr :: nat
  mb_eof_return :: int

record bio =
  bio_init :: bool
  bio_shutdown :: bool
  bio_read_flag :: bool
  bio_write_flag :: bool
  bio_retry :: bool
  bio_data :: "mem_state option"

definition INT_MAX :: nat where "INT_MAX = 2 ^ 31 - 1"
definition LONG_MAX :: nat where "LONG_MAX = 2 ^ 63 - 1"

definition static_mem_avail :: "mem_state \<Rightarrow> nat" where
  "static_mem_avail st = mb_wptr st - mb_rptr st"

definition static_mem_space :: "mem_state \<Rightarrow> nat" where
  "static_mem_space st = length (mb_buf st) - mb_wptr st"

definition bio_clear_flags :: "bio \<Rightarrow> bio" where
  "bio_clear_flags b = b\<lparr>bio_read_flag := False, bio_write_flag := False, bio_retry := False\<rparr>"

section \<open>BIO methods\<close>

definition static_mem_bio_create :: "bio \<Rightarrow> int \<times> bio" where
  "static_mem_bio_create b = (1, b\<lparr>bio_init := False, bio_data := None, bio_shutdown := False\<rparr>)"

definition static_mem_bio_destroy :: "bio option \<Rightarrow> int \<times> bio option" where
  "static_mem_bio_destroy b =
     (case b of
        None \<Rightarrow> (0, None)
      | Some b \<Rightarrow> (1, Some (b\<lparr>bio_data := None, bio_init := False\<rparr>)))"

text \<open>\<open>out\<close> is whether the caller passed a buffer. The bytes are what was copied into it.\<close>

definition static_mem_bio_read :: "bool \<Rightarrow> int \<Rightarrow> bio \<Rightarrow> int \<times> bytes \<times> bio" where
  "static_mem_bio_read out outl b =
     (if \<not> out \<or> outl \<le> 0 then (0, [], b)
      else case bio_data b of
        None \<Rightarrow> (0, [], b)
      | Some st \<Rightarrow>
          let b = bio_clear_flags b; avail = static_mem_avail st in
          if avail = 0 then (mb_eof_return st, [], b\<lparr>bio_read_flag := True, bio_retry := True\<rparr>)
          else
            let n = min avail (nat outl);
                data = take n (drop (mb_rptr st) (mb_buf st));
                st = st\<lparr>mb_rptr := mb_rptr st + n\<rparr>;
                st = (if mb_rptr st = mb_wptr st then st\<lparr>mb_rptr := 0, mb_wptr := 0\<rparr> else st)
            in (if n > INT_MAX then int INT_MAX else int n, data, b\<lparr>bio_data := Some st\<rparr>))"

text \<open>Storing bytes at an offset of the buffer.\<close>

definition poke :: "nat \<Rightarrow> bytes \<Rightarrow> bytes \<Rightarrow> bytes" where
  "poke i bs buf = take i buf @ bs @ drop (i + length bs) buf"

definition static_mem_bio_write :: "bytes option \<Rightarrow> int \<Rightarrow> bio \<Rightarrow> int \<times> bio" where
  \<comment> \<open>the memory at \<open>in\<close> holds at least \<open>inl\<close> bytes\<close>
  "static_mem_bio_write inp inl b =
     (case inp of
        None \<Rightarrow> (0, b)
      | Some data \<Rightarrow>
          if inl \<le> 0 then (0, b)
          else case bio_data b of
            None \<Rightarrow> (0, b)
          | Some st \<Rightarrow>
              let b = bio_clear_flags b; space = static_mem_space st in
              if space = 0 then (-1, b\<lparr>bio_write_flag := True, bio_retry := True\<rparr>)
              else
                let n = min space (nat inl);
                    st = st\<lparr>mb_buf := poke (mb_wptr st) (take n data) (mb_buf st), mb_wptr := mb_wptr st + n\<rparr>;
                    b = b\<lparr>bio_data := Some st\<rparr>;
                    b = (if n < nat inl then b\<lparr>bio_write_flag := True, bio_retry := True\<rparr> else b)
                in (if n > INT_MAX then int INT_MAX else int n, b))"

definition static_mem_bio_puts :: "bio \<Rightarrow> string \<Rightarrow> int" where "static_mem_bio_puts b s = -2"
definition static_mem_bio_gets :: "bio \<Rightarrow> int \<Rightarrow> int" where "static_mem_bio_gets b n = -2"

datatype bio_cmd =
    CTRL_RESET | CTRL_EOF | CTRL_INFO | CTRL_PENDING | CTRL_WPENDING | CTRL_FLUSH
  | C_FILE_SEEK | C_FILE_TELL | C_SET_BUF_MEM_EOF_RETURN | C_SET_NBIO | CTRL_DUP | CTRL_OTHER

definition long_avail :: "mem_state \<Rightarrow> int" where
  "long_avail st = (if static_mem_avail st > LONG_MAX then int LONG_MAX else int (static_mem_avail st))"

text \<open>The result, the read offset stored through \<open>ptr\<close> by \<open>CTRL_INFO\<close>, and the BIO.\<close>

definition static_mem_bio_ctrl :: "bio \<Rightarrow> bio_cmd \<Rightarrow> int \<Rightarrow> bool \<Rightarrow> int \<times> nat option \<times> bio" where
  "static_mem_bio_ctrl b cmd num ptr =
     (case bio_data b of
        None \<Rightarrow> (if cmd = CTRL_RESET then (1, None, b) else (0, None, b))
      | Some st \<Rightarrow>
          (case cmd of
             CTRL_RESET \<Rightarrow> (1, None, b\<lparr>bio_data := Some (st\<lparr>mb_rptr := 0, mb_wptr := 0\<rparr>)\<rparr>)
           | CTRL_EOF \<Rightarrow> (if mb_wptr st = mb_rptr st then 1 else 0, None, b)
           | CTRL_INFO \<Rightarrow> (long_avail st, if ptr then Some (mb_rptr st) else None, b)
           | CTRL_PENDING \<Rightarrow> (long_avail st, None, b)
           | CTRL_WPENDING \<Rightarrow> (0, None, b)
           | CTRL_FLUSH \<Rightarrow> (1, None, b)
           | C_FILE_SEEK \<Rightarrow> (-2, None, b)
           | C_FILE_TELL \<Rightarrow> (0, None, b)
           | C_SET_BUF_MEM_EOF_RETURN \<Rightarrow>
               (1, None, b\<lparr>bio_data := Some (st\<lparr>mb_eof_return := sint (word_of_int num :: 32 word)\<rparr>)\<rparr>)
           | C_SET_NBIO \<Rightarrow>
               (1, None, b\<lparr>bio_data := Some (st\<lparr>mb_eof_return := (if num \<noteq> 0 then -1 else 0)\<rparr>)\<rparr>)
           | CTRL_DUP \<Rightarrow> (1, None, b)
           | CTRL_OTHER \<Rightarrow> (0, None, b)))"

section \<open>Direct access\<close>

text \<open>
  "BIO_static_mem_get_write_buf": the offset and length of the writable tail, after the readable
  bytes were moved to the front if the tail was used up. The three flags say which of the
  arguments are not null.
\<close>

definition static_mem_compact :: "mem_state \<Rightarrow> mem_state" where
  "static_mem_compact st =
     (if mb_rptr st \<noteq> 0 \<and> mb_wptr st = length (mb_buf st)
      then let avail = static_mem_avail st in
        st\<lparr>mb_buf := poke 0 (take avail (drop (mb_rptr st) (mb_buf st))) (mb_buf st),
           mb_rptr := 0, mb_wptr := avail\<rparr>
      else st)"

definition BIO_static_mem_get_write_buf ::
  "bio option \<Rightarrow> bool \<Rightarrow> bool \<Rightarrow> int \<times> (nat \<times> nat) option \<times> bio option" where
  "BIO_static_mem_get_write_buf b pp space =
     (case b of
        None \<Rightarrow> (0, None, None)
      | Some b \<Rightarrow>
          if \<not> pp \<or> \<not> space then (0, None, Some b)
          else case bio_data b of
            None \<Rightarrow> (0, None, Some b)
          | Some st \<Rightarrow>
              let st = static_mem_compact st
              in (1, Some (mb_wptr st, static_mem_space st), Some (b\<lparr>bio_data := Some st\<rparr>)))"

definition BIO_static_mem_produce :: "bio option \<Rightarrow> nat \<Rightarrow> int \<times> bio option" where
  "BIO_static_mem_produce b nbytes =
     (case b of
        None \<Rightarrow> (-1, None)
      | Some b \<Rightarrow>
          (case bio_data b of
             None \<Rightarrow> (-1, Some b)
           | Some st \<Rightarrow>
               if nbytes > static_mem_space st then (-1, Some b)
               else (1, Some (b\<lparr>bio_data := Some (st\<lparr>mb_wptr := mb_wptr st + nbytes\<rparr>)\<rparr>))))"

definition BIO_static_mem_consume :: "bio option \<Rightarrow> nat \<Rightarrow> int \<times> bio option" where
  "BIO_static_mem_consume b nbytes =
     (case b of
        None \<Rightarrow> (-1, None)
      | Some b \<Rightarrow>
          (case bio_data b of
             None \<Rightarrow> (-1, Some b)
           | Some st \<Rightarrow>
               if nbytes > static_mem_avail st then (-1, Some b)
               else
                 let st = st\<lparr>mb_rptr := mb_rptr st + nbytes\<rparr>;
                     st = (if mb_rptr st = mb_wptr st then st\<lparr>mb_rptr := 0, mb_wptr := 0\<rparr> else st)
                 in (1, Some (b\<lparr>bio_data := Some st\<rparr>))))"

text \<open>
  "BIO_new_static_mem": \<open>alloc\<close> says whether OpenSSL can make the BIO and \<open>calloc\<close> the state.
\<close>

definition BIO_new_static_mem :: "bool \<Rightarrow> bytes option \<Rightarrow> bio option" where
  "BIO_new_static_mem alloc buf =
     (case buf of
        None \<Rightarrow> None
      | Some mem \<Rightarrow>
          if mem = [] \<or> \<not> alloc then None
          else
            let (_, b) = static_mem_bio_create \<lparr>bio_init = False, bio_shutdown = False, bio_read_flag = False,
                  bio_write_flag = False, bio_retry = False, bio_data = None\<rparr>
            in Some (b\<lparr>bio_data := Some \<lparr>mb_buf = mem, mb_rptr = 0, mb_wptr = 0, mb_eof_return = 0\<rparr>,
                       bio_init := True\<rparr>))"

section \<open>The queue it implements\<close>

definition mem_ok :: "mem_state \<Rightarrow> bool" where
  "mem_ok st =
     (mb_rptr st \<le> mb_wptr st \<and> mb_wptr st \<le> length (mb_buf st) \<and>
      (mb_rptr st = mb_wptr st \<longrightarrow> mb_rptr st = 0))"

definition bio_ok :: "bio \<Rightarrow> bool" where
  "bio_ok b = (case bio_data b of None \<Rightarrow> False | Some st \<Rightarrow> mem_ok st \<and> mb_buf st \<noteq> [])"

definition mem_content :: "mem_state \<Rightarrow> bytes" where
  "mem_content st = take (static_mem_avail st) (drop (mb_rptr st) (mb_buf st))"

definition bio_content :: "bio \<Rightarrow> bytes" where
  "bio_content b = (case bio_data b of None \<Rightarrow> [] | Some st \<Rightarrow> mem_content st)"

definition bio_capacity :: "bio \<Rightarrow> nat" where
  "bio_capacity b = (case bio_data b of None \<Rightarrow> 0 | Some st \<Rightarrow> length (mb_buf st))"

text \<open>
  The contract of a byte channel: what is put in comes out, in order. \<open>run\<close> performs a
  sequence of attempts and collects what was accepted and what was taken out.
\<close>

datatype chan_op = Put bytes | Get nat

locale byte_channel =
  fixes good :: "'s \<Rightarrow> bool"
    and content :: "'s \<Rightarrow> bytes"
    and put :: "bytes \<Rightarrow> 's \<Rightarrow> nat \<times> 's"
    and get :: "nat \<Rightarrow> 's \<Rightarrow> bytes \<times> 's"
  assumes put_good: "good s \<Longrightarrow> good (snd (put bs s))"
    and get_good: "good s \<Longrightarrow> good (snd (get n s))"
    and put_content: "good s \<Longrightarrow> content (snd (put bs s)) = content s @ take (fst (put bs s)) bs"
    and get_content: "good s \<Longrightarrow> content s = fst (get n s) @ content (snd (get n s))"
    and get_length: "good s \<Longrightarrow> length (fst (get n s)) \<le> n"
begin

fun transfer :: "chan_op list \<Rightarrow> bytes \<times> bytes \<times> 's \<Rightarrow> bytes \<times> bytes \<times> 's" where
  "transfer [] x = x"
| "transfer (Put bs # ops) (a, t, s) =
     transfer ops (a @ take (fst (put bs s)) bs, t, snd (put bs s))"
| "transfer (Get n # ops) (a, t, s) =
     transfer ops (a, t @ fst (get n s), snd (get n s))"

lemma transfer_good: "good s \<Longrightarrow> good (snd (snd (transfer ops (a, t, s))))"
  by (induction ops "(a, t, s)" arbitrary: a t s rule: transfer.induct) (auto intro: put_good get_good)

lemma transfer_fifo:
  assumes "good s" "t @ content s = a"
  shows "fst (snd (transfer ops (a, t, s))) @ content (snd (snd (transfer ops (a, t, s)))) =
           fst (transfer ops (a, t, s))"
  using assms
proof (induction ops "(a, t, s)" arbitrary: a t s rule: transfer.induct)
  case 1
  then show ?case by simp
next
  case (2 bs ops a t s)
  then show ?case using put_good put_content by simp
next
  case (3 n ops a t s)
  then show ?case using get_good get_content by simp
qed

end

section \<open>The operations on the queue\<close>

lemma poke_length: "i + length bs \<le> length buf \<Longrightarrow> length (poke i bs buf) = length buf"
  by (simp add: poke_def)

lemma poke_content:
  assumes "r \<le> w" "w + length bs \<le> length buf"
  shows "take (w + length bs - r) (drop r (poke w bs buf)) = take (w - r) (drop r buf) @ bs"
proof -
  have "drop r (poke w bs buf) = take (w - r) (drop r buf) @ bs @ drop (w + length bs) buf"
    using assms by (simp add: poke_def drop_take)
  moreover have "length (take (w - r) (drop r buf)) = w - r" using assms by simp
  ultimately show ?thesis using assms(1) by simp
qed

lemma write_refines:
  assumes "bio_ok b" "0 < inl" "inl \<le> int (length data)" "inl \<le> int INT_MAX"
    and "static_mem_bio_write (Some data) inl b = (r, b')"
  shows "bio_ok b' \<and> bio_capacity b' = bio_capacity b \<and>
         bio_content b' = bio_content b @ take (nat r) (take (nat inl) data) \<and>
         r \<le> inl \<and> (r = -1 \<or> 0 < r)"
proof -
  obtain st where st: "bio_data b = Some st" "mem_ok st" "mb_buf st \<noteq> []"
    using assms(1) by (auto simp: bio_ok_def split: option.splits)
  define n where "n = min (static_mem_space st) (nat inl)"
  have l: "length (take n data) = n" using assms(2,3) by (auto simp: n_def)
  have fit: "mb_wptr st + n \<le> length (mb_buf st)" "mb_rptr st \<le> mb_wptr st" "n \<le> INT_MAX"
    using st(2) assms(2,4) by (auto simp: n_def static_mem_space_def mem_ok_def)
  show ?thesis
  proof (cases "static_mem_space st = 0")
    case True
    then show ?thesis
      using assms st by (auto simp: static_mem_bio_write_def bio_clear_flags_def bio_ok_def bio_content_def
          bio_capacity_def)
  next
    case False
    then have pos: "0 < n" using assms(2) by (simp add: n_def)
    let ?st = "st\<lparr>mb_buf := poke (mb_wptr st) (take n data) (mb_buf st), mb_wptr := mb_wptr st + n\<rparr>"
    have "mem_ok ?st" using st(2) fit pos l poke_length [of "mb_wptr st" "take n data" "mb_buf st"]
      by (auto simp: mem_ok_def)
    moreover have "mem_content ?st = mem_content st @ take n data"
      using poke_content [OF fit(2), of "take n data" "mb_buf st"] fit l
      by (simp add: mem_content_def static_mem_avail_def)
    moreover have "length (mb_buf ?st) = length (mb_buf st)"
      using fit l poke_length [of "mb_wptr st" "take n data" "mb_buf st"] by simp
    moreover have "r = int n" "bio_data b' = Some ?st"
      using assms(5) False st(1) fit(3) assms(2)
      by (auto simp: static_mem_bio_write_def Let_def bio_clear_flags_def n_def [symmetric] split: if_splits)
    moreover have "take n (take (nat inl) data) = take n data" "n \<le> nat inl" by (auto simp: n_def min_def)
    ultimately show ?thesis
      using st pos by (auto simp: bio_ok_def bio_content_def bio_capacity_def)
  qed
qed

lemma content_advance:
  assumes "mem_ok st" "n \<le> static_mem_avail st"
  defines "st' \<equiv> (let st = st\<lparr>mb_rptr := mb_rptr st + n\<rparr>
                  in if mb_rptr st = mb_wptr st then st\<lparr>mb_rptr := 0, mb_wptr := 0\<rparr> else st)"
  shows "mem_ok st' \<and> mb_buf st' = mb_buf st \<and> mem_content st' = drop n (mem_content st)"
  using assms(1,2) unfolding st'_def Let_def
  by (auto simp: mem_ok_def mem_content_def static_mem_avail_def drop_take add.commute)

lemma content_length: "mem_ok st \<Longrightarrow> length (mem_content st) = static_mem_avail st"
  by (auto simp: mem_content_def mem_ok_def static_mem_avail_def)

lemma read_refines:
  assumes "bio_ok b" "0 < outl" "outl \<le> int INT_MAX"
    and "static_mem_bio_read True outl b = (r, data, b')"
  shows "bio_ok b' \<and> bio_capacity b' = bio_capacity b \<and>
         data = take (nat outl) (bio_content b) \<and> bio_content b' = drop (length data) (bio_content b) \<and>
         (if bio_content b = [] then bio_retry b' else r = int (length data))"
proof -
  obtain st where st: "bio_data b = Some st" "mem_ok st" "mb_buf st \<noteq> []"
    using assms(1) by (auto simp: bio_ok_def split: option.splits)
  have c: "bio_content b = mem_content st" using st by (simp add: bio_content_def)
  show ?thesis
  proof (cases "static_mem_avail st = 0")
    case True
    then have "mem_content st = []" by (simp add: mem_content_def)
    with True assms st c show ?thesis
      by (auto simp: static_mem_bio_read_def bio_clear_flags_def bio_ok_def bio_content_def bio_capacity_def)
  next
    case False
    define n where "n = min (static_mem_avail st) (nat outl)"
    let ?st = "let st = st\<lparr>mb_rptr := mb_rptr st + n\<rparr>
               in if mb_rptr st = mb_wptr st then st\<lparr>mb_rptr := 0, mb_wptr := 0\<rparr> else st"
    have n: "n \<le> static_mem_avail st" "\<not> n > INT_MAX" using assms(2,3) by (auto simp: n_def)
    have d: "take n (drop (mb_rptr st) (mb_buf st)) = take (nat outl) (mem_content st)"
      by (simp add: n_def mem_content_def min.commute)
    have e: "r = int n" "data = take (nat outl) (mem_content st)" "bio_data b' = Some ?st"
      using assms(2,4) False st(1) n(2) d
      by (auto simp: static_mem_bio_read_def Let_def bio_clear_flags_def n_def [symmetric])
    have len: "length data = n" "mem_content st \<noteq> []"
      using e(2) content_length [OF st(2)] False by (auto simp: n_def)
    show ?thesis
      using content_advance [OF st(2) n(1)] e len st c
      by (auto simp: bio_ok_def bio_content_def bio_capacity_def)
  qed
qed

definition bio_put :: "bytes \<Rightarrow> bio \<Rightarrow> nat \<times> bio" where
  "bio_put bs b =
     (let d = take INT_MAX bs; (r, b') = static_mem_bio_write (Some d) (int (length d)) b in (nat r, b'))"

definition bio_get :: "nat \<Rightarrow> bio \<Rightarrow> bytes \<times> bio" where
  "bio_get n b = (let (r, data, b') = static_mem_bio_read True (int (min n INT_MAX)) b in (data, b'))"

lemma put_refines:
  assumes "bio_ok b" "bio_put bs b = (n, b')"
  shows "bio_ok b' \<and> bio_content b' = bio_content b @ take n bs"
proof (cases "take INT_MAX bs = []")
  case True
  then have "bs = []" by (auto simp: INT_MAX_def)
  with assms show ?thesis by (auto simp: bio_put_def static_mem_bio_write_def)
next
  case False
  define d where "d = take INT_MAX bs"
  then have d: "d \<noteq> []" "length d \<le> INT_MAX" using False by simp_all
  obtain r b'' where w: "static_mem_bio_write (Some d) (int (length d)) b = (r, b'')"
    by (cases "static_mem_bio_write (Some d) (int (length d)) b")
  then have e: "n = nat r" "b' = b''" using assms(2) by (auto simp: bio_put_def Let_def d_def)
  have i: "bio_ok b'' \<and> bio_content b'' = bio_content b @ take (nat r) d \<and> r \<le> int (length d)"
    using write_refines [OF assms(1) _ _ _ w] d by simp
  then have "nat r \<le> INT_MAX" using d(2) by linarith
  then have "take (nat r) d = take (nat r) bs" by (simp add: d_def min_def)
  with i e show ?thesis by simp
qed

lemma get_refines:
  assumes "bio_ok b" "bio_get n b = (data, b')"
  shows "bio_ok b' \<and> bio_content b = data @ bio_content b' \<and> length data \<le> n"
proof (cases "n = 0")
  case True
  with assms show ?thesis by (auto simp: bio_get_def static_mem_bio_read_def)
next
  case False
  obtain r d b'' where w: "static_mem_bio_read True (int (min n INT_MAX)) b = (r, d, b'')"
    by (cases "static_mem_bio_read True (int (min n INT_MAX)) b")
  then have e: "data = d" "b' = b''" using assms(2) by (auto simp: bio_get_def)
  from read_refines [OF assms(1) _ _ w] False
  have "bio_ok b'' \<and> d = take (min n INT_MAX) (bio_content b) \<and> bio_content b'' = drop (length d) (bio_content b)"
    by (simp add: INT_MAX_def)
  then show ?thesis using e by (metis append_eq_conv_conj append_take_drop_id length_take min.cobounded2 min.bounded_iff)
qed

interpretation mb: byte_channel bio_ok bio_content bio_put bio_get
proof unfold_locales
  fix b bs n
  assume b: "bio_ok b"
  show "bio_ok (snd (bio_put bs b))" "bio_content (snd (bio_put bs b)) = bio_content b @ take (fst (bio_put bs b)) bs"
    using put_refines [OF b, of bs] by (cases "bio_put bs b"; simp)+
  show "bio_ok (snd (bio_get n b))" "bio_content b = fst (bio_get n b) @ bio_content (snd (bio_get n b))"
    "length (fst (bio_get n b)) \<le> n"
    using get_refines [OF b, of n] by (cases "bio_get n b"; simp)+
qed

lemma new_bio:
  "BIO_new_static_mem a buf = Some b \<Longrightarrow>
     bio_ok b \<and> bio_content b = [] \<and> bio_capacity b = length (the buf) \<and> 0 < bio_capacity b"
  by (auto simp: BIO_new_static_mem_def static_mem_bio_create_def bio_ok_def bio_content_def bio_capacity_def
      mem_ok_def mem_content_def static_mem_avail_def split: option.splits if_splits)

section \<open>Properties\<close>

definition demo_bio :: bio where
  "demo_bio = the (BIO_new_static_mem True (Some [0, 0, 0, 0]))"

lemmas demo_bio_defs = demo_bio_def BIO_new_static_mem_def static_mem_bio_create_def



text \<open>C18: the BIO is a byte queue: after any sequence of writes and reads on a new BIO, what was
  taken out, followed by what it still holds, is exactly what it accepted, in order.\<close>

theorem membio_fifo:
  assumes "BIO_new_static_mem True (Some mem) = Some b" "mb.transfer ops ([], [], b) = (accepted, taken, b')"
  shows "taken @ bio_content b' = accepted"
  using mb.transfer_fifo [of b "[]" "[]" ops] new_bio [OF assms(1)] assms(2) by simp

theorem membio_fifo_witness:
  "[1, 2] @ bio_content (demo_bio\<lparr>bio_data := Some \<lparr>mb_buf = [1, 2, 3, 0], mb_rptr = 2, mb_wptr = 3, mb_eof_return = 0\<rparr>\<rparr>) =
     [1, 2, 3]"
  by (rule membio_fifo [of "[0, 0, 0, 0]" demo_bio "[Put [1, 2, 3], Get 2]"])
     (simp_all add: demo_bio_defs bio_put_def bio_get_def INT_MAX_def static_mem_bio_write_def
        static_mem_bio_read_def static_mem_space_def static_mem_avail_def bio_clear_flags_def poke_def Let_def)

text \<open>
  What a producer does between "get_write_buf" and "produce": it stores bytes at the pointer
  it was given.
\<close>

definition bio_fill :: "nat \<Rightarrow> bytes \<Rightarrow> bio \<Rightarrow> bio" where
  "bio_fill i bs b =
     (case bio_data b of
        None \<Rightarrow> b
      | Some st \<Rightarrow> b\<lparr>bio_data := Some (st\<lparr>mb_buf := poke i bs (mb_buf st)\<rparr>)\<rparr>)"

lemma write_buf_spec:
  assumes "bio_ok b"
  obtains b' i n where "BIO_static_mem_get_write_buf (Some b) True True = (1, Some (i, n), Some b')"
    "bio_ok b'" "bio_content b' = bio_content b" "bio_capacity b' = bio_capacity b"
    "0 < n \<longleftrightarrow> length (bio_content b) < bio_capacity b"
    "\<exists>st. bio_data b' = Some st \<and> i = mb_wptr st \<and> n = static_mem_space st"
proof -
  obtain st where st: "bio_data b = Some st" "mem_ok st" "mb_buf st \<noteq> []"
    using assms by (auto simp: bio_ok_def split: option.splits)
  define st' where "st' = static_mem_compact st"
  have l: "length (take (static_mem_avail st) (drop (mb_rptr st) (mb_buf st))) = static_mem_avail st"
    using content_length [OF st(2)] by (simp add: mem_content_def)
  have p: "mem_ok st' \<and> mem_content st' = mem_content st \<and> length (mb_buf st') = length (mb_buf st)"
    using st(2) l by (auto simp: st'_def static_mem_compact_def mem_ok_def mem_content_def static_mem_avail_def poke_def Let_def)
  have s: "0 < static_mem_space st' \<longleftrightarrow> length (mem_content st) < length (mb_buf st)"
    using st(2) p content_length [OF st(2)]
    by (auto simp: st'_def static_mem_compact_def mem_ok_def static_mem_space_def static_mem_avail_def Let_def)
  have "mb_buf st' \<noteq> []" using p st(3) by (metis length_0_conv)
  then show ?thesis
    using st p s
    by (intro that [of "mb_wptr st'" "static_mem_space st'" "b\<lparr>bio_data := Some st'\<rparr>"])
       (simp_all add: BIO_static_mem_get_write_buf_def st'_def [symmetric] Let_def bio_ok_def bio_content_def
          bio_capacity_def)
qed

text \<open>C19: direct production is lossless and never refuses while there is room: "get_write_buf"
  keeps the content, moving it when the tail is used up, and offers space exactly when the
  content is below the capacity; filling \<open>k\<close> bytes of that space and producing them appends
  those bytes.\<close>

theorem membio_direct_produce:
  assumes "bio_ok b" "BIO_static_mem_get_write_buf (Some b) True True = (r, Some (i, n), Some b')"
  shows "(0 < n \<longleftrightarrow> length (bio_content b) < bio_capacity b) \<and> bio_content b' = bio_content b \<and>
         (if length bs \<le> n
          then fst (BIO_static_mem_produce (Some (bio_fill i bs b')) (length bs)) = 1 \<and>
               bio_content (the (snd (BIO_static_mem_produce (Some (bio_fill i bs b')) (length bs)))) =
                 bio_content b @ bs
          else fst (BIO_static_mem_produce (Some (bio_fill i [] b')) (length bs)) = -1)"
proof -
  obtain c j m where c: "BIO_static_mem_get_write_buf (Some b) True True = (1, Some (j, m), Some c)"
    "bio_ok c" "bio_content c = bio_content b" "bio_capacity c = bio_capacity b"
    "0 < m \<longleftrightarrow> length (bio_content b) < bio_capacity b"
    "\<exists>st. bio_data c = Some st \<and> j = mb_wptr st \<and> m = static_mem_space st"
    by (rule write_buf_spec [OF assms(1)]) blast
  then have e: "i = j" "n = m" "b' = c" using assms(2) by simp_all
  obtain st where st: "bio_data c = Some st" "i = mb_wptr st" "n = static_mem_space st" "mem_ok st"
    using c(2,6) e by (auto simp: bio_ok_def)
  have fit: "mb_wptr st + length bs \<le> length (mb_buf st)" if "length bs \<le> n"
    using that st(3,4) unfolding mem_ok_def static_mem_space_def by linarith
  have "take (mb_wptr st + length bs - mb_rptr st) (drop (mb_rptr st) (poke (mb_wptr st) bs (mb_buf st))) =
      mem_content st @ bs" if "length bs \<le> n"
    using fit [OF that] st poke_content [of "mb_rptr st" "mb_wptr st" bs "mb_buf st"]
    by (simp add: mem_content_def static_mem_avail_def mem_ok_def)
  moreover have "length (poke (mb_wptr st) bs (mb_buf st)) = length (mb_buf st)" if "length bs \<le> n"
    using fit [OF that] poke_length [of "mb_wptr st" bs "mb_buf st"] by simp
  moreover have "poke (mb_wptr st) [] (mb_buf st) = mb_buf st" by (simp add: poke_def)
  ultimately show ?thesis
    using c(3,5) e st
    by (auto simp: BIO_static_mem_produce_def bio_fill_def static_mem_space_def mem_ok_def bio_content_def
        mem_content_def static_mem_avail_def)
qed

theorem membio_direct_produce_witness:
  "(0 < (4 :: nat) \<longleftrightarrow> length (bio_content demo_bio) < bio_capacity demo_bio) \<and>
   bio_content demo_bio = bio_content demo_bio \<and>
   (if length [7, 8 :: byte] \<le> (4 :: nat)
    then fst (BIO_static_mem_produce (Some (bio_fill 0 [7, 8] demo_bio)) (length [7, 8 :: byte])) = 1 \<and>
         bio_content (the (snd (BIO_static_mem_produce (Some (bio_fill 0 [7, 8] demo_bio)) (length [7, 8 :: byte])))) =
           bio_content demo_bio @ [7, 8]
    else fst (BIO_static_mem_produce (Some (bio_fill 0 [] demo_bio)) (length [7, 8 :: byte])) = -1)"
  by (rule membio_direct_produce [where r = 1])
     (simp_all add: demo_bio_defs bio_ok_def mem_ok_def BIO_static_mem_get_write_buf_def static_mem_compact_def
        static_mem_space_def Let_def)

end
