(* ===== verification/SslEngine.thy ===== *)
theory SslEngine
  imports SelectorSocket MemBio
begin

text \<open>
  The TLS engines (ssl_engine.pyx, ssl_engine_direct.pyx, ssl_engine_fallback.pyx). OpenSSL and
  the \<open>ssl\<close> module are not code of the repository: what their calls answer is the list
  \<open>e_script\<close>, one element per call. An answer says what the call returned, what
  \<open>SSL_get_error\<close> and the error queue say afterwards, the plaintext a read gave, how many bytes
  the call took from the incoming BIO and what it put into the outgoing one. A call without an
  answer wants to read. The effect of a call on the memory BIOs goes through their own callbacks
  (\<open>MemBio\<close>); without memory BIOs OpenSSL writes to the socket itself.

  \<open>e_plain\<close> is the plaintext that the calls have accepted for sending, in order. It is not a
  field of the program; the properties of the transports are stated with it.
\<close>

section \<open>State\<close>

datatype ssl_error =
    SSL_ERROR_NONE | SSL_ERROR_SSL | SSL_ERROR_WANT_READ | SSL_ERROR_WANT_WRITE
  | SSL_ERROR_SYSCALL | SSL_ERROR_ZERO_RETURN | SSL_ERROR_OTHER int

text \<open>
  What \<open>SSL_get_error\<close> can say after a call that failed: anything but \<open>SSL_ERROR_NONE\<close>, by its
  documentation. The exceptions of the \<open>ssl\<close> module are classified in the same way.
\<close>

datatype ssl_failure =
    FailSsl | FailWantRead | FailWantWrite | FailSyscall | FailZeroReturn | FailOther int

fun get_error :: "ssl_failure \<Rightarrow> ssl_error" where
  "get_error FailSsl = SSL_ERROR_SSL"
| "get_error FailWantRead = SSL_ERROR_WANT_READ"
| "get_error FailWantWrite = SSL_ERROR_WANT_WRITE"
| "get_error FailSyscall = SSL_ERROR_SYSCALL"
| "get_error FailZeroReturn = SSL_ERROR_ZERO_RETURN"
| "get_error (FailOther n) = SSL_ERROR_OTHER n"

record ssl_answer =
  sa_rc :: int
  sa_fail :: ssl_failure
  sa_reason :: string
  sa_data :: bytes
  sa_taken :: nat
  sa_out :: bytes
  sa_pending :: nat

definition sa_err :: "ssl_answer \<Rightarrow> ssl_error" where
  "sa_err a = get_error (sa_fail a)"

lemma sa_err_failed [simp]: "sa_err a \<noteq> SSL_ERROR_NONE"
  by (cases "sa_fail a") (simp_all add: sa_err_def)

definition want_read_answer :: ssl_answer where
  "want_read_answer = \<lparr>sa_rc = -1, sa_fail = FailWantRead, sa_reason = [], sa_data = [],
     sa_taken = 0, sa_out = [], sa_pending = 0\<rparr>"

text \<open>
  \<open>e_incoming\<close> and \<open>e_outgoing\<close> are the BIOs of the direct engine, \<open>None\<close> when it uses the
  socket; \<open>e_py_in\<close> and \<open>e_py_out\<close> the \<open>ssl.MemoryBIO\<close> objects of the fallback engine and
  \<open>e_hint\<close> its bound for writing ahead. \<open>e_pending\<close> is what \<open>SSLObject.pending()\<close> says.
\<close>

record ssl_engine = transport +
  e_direct :: bool
  e_incoming :: "bio option"
  e_outgoing :: "bio option"
  e_py_in :: bytes
  e_py_out :: bytes
  e_hint :: nat
  e_pending :: nat
  e_script :: "ssl_answer list"
  e_ktls_send :: int
  e_has_sendfile :: bool
  e_plain :: bytes

definition bio_take :: "nat \<Rightarrow> bio \<Rightarrow> bio" where
  "bio_take n b = snd (snd (static_mem_bio_read True (int n) b))"

definition bio_put :: "bytes \<Rightarrow> bio \<Rightarrow> bio" where
  "bio_put bs b = snd (static_mem_bio_write (Some bs) (int (length bs)) b)"

definition ssl_effect :: "ssl_answer \<Rightarrow> 'a ssl_engine_scheme \<Rightarrow> 'a ssl_engine_scheme" where
  "ssl_effect a w =
     (if \<not> e_direct w then
        w\<lparr>e_py_in := drop (sa_taken a) (e_py_in w), e_py_out := e_py_out w @ sa_out a,
          e_pending := sa_pending a\<rparr>
      else
        (case e_outgoing w of
           None \<Rightarrow> w\<lparr>wire := wire w @ sa_out a\<rparr>
         | Some out \<Rightarrow>
             w\<lparr>e_incoming := map_option (bio_take (sa_taken a)) (e_incoming w),
               e_outgoing := Some (bio_put (sa_out a) out)\<rparr>))"

definition ssl_call :: "('a ssl_engine_scheme, ssl_answer) prog" where
  "ssl_call w =
     (case e_script w of
        [] \<Rightarrow> (Inr want_read_answer, w)
      | a # rest \<Rightarrow> (Inr a, ssl_effect a (w\<lparr>e_script := rest\<rparr>)))"

definition accept_plain :: "bytes \<Rightarrow> ('a ssl_engine_scheme, unit) prog" where
  "accept_plain bs = upd (\<lambda>w. w\<lparr>e_plain := e_plain w @ bs\<rparr>)"

section \<open>Exceptions of the direct engine\<close>

definition upper_char :: "char \<Rightarrow> char" where
  "upper_char c =
     (let n = of_char c :: nat in if 97 \<le> n \<and> n \<le> 122 then char_of (n - 32) else c)"

definition reason_name :: "string \<Rightarrow> string" where
  \<comment> \<open>\<open>reason.upper().replace(" ", "_")\<close>\<close>
  "reason_name r = map (\<lambda>c. if c = CHR '' '' then CHR ''_'' else upper_char c) r"

definition make_exc_from_ssl_error :: "ssl_answer \<Rightarrow> exn_class" where
  "make_exc_from_ssl_error a =
     (case sa_err a of
        SSL_ERROR_NONE \<Rightarrow> AssertErr
      | SSL_ERROR_WANT_READ \<Rightarrow> SSLWantRead
      | SSL_ERROR_WANT_WRITE \<Rightarrow> SSLWantWrite
      | SSL_ERROR_ZERO_RETURN \<Rightarrow> SSLZeroReturn
      | SSL_ERROR_SYSCALL \<Rightarrow> SSLSyscall
      | SSL_ERROR_SSL \<Rightarrow> SSLErr (reason_name (sa_reason a))
      | SSL_ERROR_OTHER _ \<Rightarrow> SSLErr [])"

section \<open>The direct engine: calls\<close>

definition direct_do_handshake :: "('a ssl_engine_scheme, ssl_error) prog" where
  "direct_do_handshake =
     bnd ssl_call (\<lambda>a.
       if sa_rc a = 1 then ret SSL_ERROR_NONE
       else if sa_err a = SSL_ERROR_WANT_READ \<or> sa_err a = SSL_ERROR_WANT_WRITE then ret (sa_err a)
       else raise (make_exc_from_ssl_error a))"

definition direct_shutdown :: "('a ssl_engine_scheme, ssl_error) prog" where
  "direct_shutdown =
     bnd ssl_call (\<lambda>a.
       if sa_rc a = 1 then ret SSL_ERROR_NONE
       else if sa_rc a = 0 then ret SSL_ERROR_WANT_READ
       else if sa_err a = SSL_ERROR_WANT_READ \<or> sa_err a = SSL_ERROR_WANT_WRITE then ret (sa_err a)
       else raise (make_exc_from_ssl_error a))"

text \<open>
  A read returns the error and the bytes it put at the start of the buffer. Every round of the
  loops below fills or sends at least one byte, or leaves.
\<close>

definition direct_read_failed :: "ssl_answer \<Rightarrow> exn_class + ssl_error" where
  "direct_read_failed a =
     (if sa_err a = SSL_ERROR_WANT_READ \<or> sa_err a = SSL_ERROR_WANT_WRITE \<or>
         sa_err a = SSL_ERROR_ZERO_RETURN then Inr (sa_err a)
      else if sa_err a = SSL_ERROR_SYSCALL then Inl ConnectionResetError
      else if make_exc_from_ssl_error a = SSLErr ''UNEXPECTED_EOF_WHILE_READING''
      then Inl ConnectionResetError
      else Inl (make_exc_from_ssl_error a))"

definition direct_read_step ::
  "nat \<times> bytes \<Rightarrow> ('a ssl_engine_scheme, nat \<times> bytes + ssl_error \<times> bytes) prog" where
  "direct_read_step l =
     (case l of (buf_len, got) \<Rightarrow>
       if buf_len = 0 then leave_with (SSL_ERROR_NONE, got)
       else
         bnd ssl_call (\<lambda>a.
           let data = take (min buf_len INT_MAX) (sa_data a) in
           if sa_rc a > 0 \<and> data \<noteq> [] then continue_with (buf_len - length data, got @ data)
           else bnd (lift_exn (direct_read_failed a)) (\<lambda>err. leave_with (err, got))))"

definition direct_read :: "nat \<Rightarrow> ('a ssl_engine_scheme, ssl_error \<times> bytes) prog" where
  "direct_read buf_len = loop (buf_len + 1) direct_read_step (buf_len, [])"

text \<open>
  \<open>SSL_write\<close> takes its length as a C \<open>int\<close>. The result of a write is the error and the number
  of bytes accepted before it.
\<close>

definition c_int :: "nat \<Rightarrow> int" where
  "c_int n = sint (word_of_int (int n) :: 32 word)"

definition direct_write_failed :: "ssl_answer \<Rightarrow> exn_class + ssl_error" where
  "direct_write_failed a =
     (if sa_err a = SSL_ERROR_SSL then Inl (make_exc_from_ssl_error a)
      else if sa_err a = SSL_ERROR_SYSCALL \<or> sa_err a = SSL_ERROR_ZERO_RETURN
      then Inl ConnectionResetError
      else Inr (sa_err a))"

definition direct_write_step ::
  "bytes \<times> nat \<Rightarrow> ('a ssl_engine_scheme, bytes \<times> nat + ssl_error \<times> nat) prog" where
  "direct_write_step l =
     (case l of (rest, written) \<Rightarrow>
       if rest = [] then leave_with (SSL_ERROR_NONE, written)
       else
         bnd ssl_call (\<lambda>a.
           let n = nat (min (sa_rc a) (c_int (length rest))) in
           if n > 0
           then andthen (accept_plain (take n rest)) (continue_with (drop n rest, written + n))
           else bnd (lift_exn (direct_write_failed a)) (\<lambda>err. leave_with (err, written))))"

definition direct_write :: "bytes \<Rightarrow> ('a ssl_engine_scheme, ssl_error \<times> nat) prog" where
  "direct_write data = loop (length data + 1) direct_write_step (data, 0)"

definition direct_sendfile_failed :: "ssl_answer \<Rightarrow> exn_class + ssl_error" where
  "direct_sendfile_failed a =
     (if sa_err a = SSL_ERROR_WANT_READ \<or> sa_err a = SSL_ERROR_WANT_WRITE then Inr (sa_err a)
      else if sa_err a = SSL_ERROR_SYSCALL then Inl ConnectionResetError
      else Inl (make_exc_from_ssl_error a))"

definition direct_sendfile_step ::
  "int \<Rightarrow> int \<times> int \<times> int \<Rightarrow>
     ('a ssl_engine_scheme, int \<times> int \<times> int + ssl_error \<times> int) prog" where
  "direct_sendfile_step fd l =
     (case l of (offset, count, written) \<Rightarrow>
       if count = 0 then leave_with (SSL_ERROR_NONE, written)
       else
         bnd ssl_call (\<lambda>a.
           let n = min (sa_rc a) count in
           if n > 0 then
             andthen
               (bnd (gets (\<lambda>w. take (nat n) (drop (nat offset) (file_bytes w fd)))) accept_plain)
               (continue_with (offset + n, count - n, written + n))
           else bnd (lift_exn (direct_sendfile_failed a)) (\<lambda>err. leave_with (err, written))))"

definition direct_sendfile ::
  "int \<Rightarrow> int \<Rightarrow> int \<Rightarrow> ('a ssl_engine_scheme, ssl_error \<times> int) prog" where
  "direct_sendfile fd offset count =
     loop (nat count + 1) (direct_sendfile_step fd) (offset, count, 0)"

section \<open>The direct engine: memory BIOs\<close>

definition direct_outgoing_bio_reset :: "('a ssl_engine_scheme, unit) prog" where
  "direct_outgoing_bio_reset =
     bnd (gets e_outgoing) (\<lambda>b.
       case b of
         None \<Rightarrow> raise RuntimeErr
       | Some b \<Rightarrow> upd (\<lambda>w. w\<lparr>e_outgoing := Some (snd (snd (static_mem_bio_ctrl b CTRL_RESET 0 False)))\<rparr>))"

definition direct_outgoing_bio_pending :: "('a ssl_engine_scheme, int) prog" where
  "direct_outgoing_bio_pending =
     bnd (gets e_outgoing) (\<lambda>b.
       case b of
         None \<Rightarrow> raise RuntimeErr
       | Some b \<Rightarrow>
           let n = fst (static_mem_bio_ctrl b CTRL_PENDING 0 False) in
           if n < 0 then raise RuntimeErr else ret n)"

text \<open>\<open>BIO_get_mem_data\<close>: the readable bytes. The engine has the BIO whenever it is called.\<close>

definition direct_outgoing_bio_get_data :: "('a ssl_engine_scheme, bytes) prog" where
  "direct_outgoing_bio_get_data =
     bnd (gets e_outgoing) (\<lambda>b.
       case b of
         None \<Rightarrow> raise NullDeref
       | Some b \<Rightarrow>
           (case static_mem_bio_ctrl b CTRL_INFO 0 True of
              (n, Some off, _) \<Rightarrow>
                ret (take (nat n) (drop off (case bio_data b of None \<Rightarrow> [] | Some st \<Rightarrow> mb_buf st)))
            | _ \<Rightarrow> ret []))"

definition direct_outgoing_bio_consume :: "nat \<Rightarrow> ('a ssl_engine_scheme, unit) prog" where
  "direct_outgoing_bio_consume nbytes =
     bnd (gets (\<lambda>w. BIO_static_mem_consume (e_outgoing w) nbytes)) (\<lambda>(rc, b).
       if rc \<noteq> 1 then raise RuntimeErr else upd (\<lambda>w. w\<lparr>e_outgoing := b\<rparr>))"

definition direct_incoming_bio_get_write_buf :: "('a ssl_engine_scheme, nat) prog" where
  "direct_incoming_bio_get_write_buf =
     bnd (gets (\<lambda>w. BIO_static_mem_get_write_buf (e_incoming w) True True)) (\<lambda>(rc, buf, b).
       case buf of
         None \<Rightarrow> raise RuntimeErr
       | Some (off, space) \<Rightarrow>
           if rc \<noteq> 1 then raise RuntimeErr
           else
             andthen (upd (\<lambda>w. w\<lparr>e_incoming := b\<rparr>))
               (if space = 0 then raise RuntimeErr else ret space))"

text \<open>The bytes that the caller has stored in the write buffer, then made readable.\<close>

definition bio_store :: "bytes \<Rightarrow> bio \<Rightarrow> bio" where
  "bio_store bs b =
     b\<lparr>bio_data := map_option (\<lambda>st. st\<lparr>mb_buf := poke (mb_wptr st) bs (mb_buf st)\<rparr>) (bio_data b)\<rparr>"

definition direct_incoming_bio_produce :: "bytes \<Rightarrow> ('a ssl_engine_scheme, unit) prog" where
  "direct_incoming_bio_produce bs =
     andthen (upd (\<lambda>w. w\<lparr>e_incoming := map_option (bio_store bs) (e_incoming w)\<rparr>))
       (bnd (gets (\<lambda>w. BIO_static_mem_produce (e_incoming w) (length bs))) (\<lambda>(rc, b).
          if rc \<noteq> 1 then raise RuntimeErr else upd (\<lambda>w. w\<lparr>e_incoming := b\<rparr>)))"

section \<open>The fallback engine\<close>

text \<open>
  The exception of a call of \<open>ssl.SSLObject\<close>, by its class. The engine returns the classes
  that the transport handles and raises the others, a \<open>SSLSyscallError\<close> as a lost connection.
\<close>

definition translate_ssl_error :: "ssl_answer \<Rightarrow> exn_class + ssl_error" where
  "translate_ssl_error a =
     (case sa_err a of
        SSL_ERROR_WANT_READ \<Rightarrow> Inr SSL_ERROR_WANT_READ
      | SSL_ERROR_WANT_WRITE \<Rightarrow> Inr SSL_ERROR_WANT_WRITE
      | SSL_ERROR_ZERO_RETURN \<Rightarrow> Inr SSL_ERROR_ZERO_RETURN
      | SSL_ERROR_SYSCALL \<Rightarrow> Inl ConnectionResetError
      | _ \<Rightarrow> Inl (SSLErr (sa_reason a)))"

definition fallback_do_handshake :: "('a ssl_engine_scheme, ssl_error) prog" where
  "fallback_do_handshake =
     bnd ssl_call (\<lambda>a.
       if sa_rc a = 1 then ret SSL_ERROR_NONE
       else bnd (lift_exn (translate_ssl_error a)) (\<lambda>err.
         if err = SSL_ERROR_WANT_READ \<or> err = SSL_ERROR_WANT_WRITE then ret err
         else raise SSLZeroReturn))"

definition fallback_shutdown :: "('a ssl_engine_scheme, ssl_error) prog" where
  "fallback_shutdown =
     bnd ssl_call (\<lambda>a.
       if sa_rc a = 1 then ret SSL_ERROR_NONE
       else bnd (lift_exn (translate_ssl_error a)) (\<lambda>err.
         if err = SSL_ERROR_WANT_READ \<or> err = SSL_ERROR_WANT_WRITE then ret err
         else ret SSL_ERROR_NONE))"

definition fallback_read_step ::
  "nat \<times> bytes \<Rightarrow> ('a ssl_engine_scheme, nat \<times> bytes + ssl_error \<times> bytes) prog" where
  "fallback_read_step l =
     (case l of (buf_len, got) \<Rightarrow>
       if buf_len = 0 then leave_with (SSL_ERROR_NONE, got)
       else
         cond (\<lambda>w. e_pending w = 0 \<and> e_py_in w = []) (leave_with (SSL_ERROR_WANT_READ, got))
           (bnd ssl_call (\<lambda>a.
              let data = take buf_len (sa_data a) in
              if sa_rc a < 0
              then bnd (lift_exn (translate_ssl_error a)) (\<lambda>err. leave_with (err, got))
              else if sa_rc a = 0 \<or> data = [] then leave_with (SSL_ERROR_ZERO_RETURN, got)
              else continue_with (buf_len - length data, got @ data))))"

definition fallback_read :: "nat \<Rightarrow> ('a ssl_engine_scheme, ssl_error \<times> bytes) prog" where
  "fallback_read buf_len = loop (buf_len + 1) fallback_read_step (buf_len, [])"

text \<open>Room for writing ahead, rounded up to whole TLS records.\<close>

definition available_for_writing :: "nat \<Rightarrow> nat \<Rightarrow> nat" where
  "available_for_writing hint queued = ((hint - queued + 16384 - 1) div 16384) * 16384"

definition fallback_write :: "bytes \<Rightarrow> ('a ssl_engine_scheme, ssl_error \<times> nat) prog" where
  "fallback_write data =
     (if data = [] then ret (SSL_ERROR_NONE, 0)
      else
        cond (\<lambda>w. e_hint w - length (e_py_out w) = 0) (ret (SSL_ERROR_WANT_WRITE, 0))
          (bnd (gets (\<lambda>w. min (length data) (available_for_writing (e_hint w) (length (e_py_out w)))))
            (\<lambda>bytes_to_write.
              bnd ssl_call (\<lambda>a.
                if sa_rc a < 0
                then bnd (lift_exn (translate_ssl_error a)) (\<lambda>err.
                  if err = SSL_ERROR_WANT_READ \<or> err = SSL_ERROR_WANT_WRITE then ret (err, 0)
                  else raise SSLZeroReturn)
                else
                  let n = min (nat (sa_rc a)) bytes_to_write in
                  andthen (accept_plain (take n data))
                    (ret (if n < length data then SSL_ERROR_WANT_WRITE else SSL_ERROR_NONE, n))))))"

definition fallback_outgoing_bio_reset :: "('a ssl_engine_scheme, unit) prog" where
  "fallback_outgoing_bio_reset = upd (\<lambda>w. w\<lparr>e_py_out := []\<rparr>)"

definition fallback_outgoing_bio_read :: "('a ssl_engine_scheme, bytes) prog" where
  "fallback_outgoing_bio_read =
     bnd (gets e_py_out) (\<lambda>bs. andthen (upd (\<lambda>w. w\<lparr>e_py_out := []\<rparr>)) (ret bs))"

definition fallback_incoming_bio_write :: "bytes \<Rightarrow> ('a ssl_engine_scheme, unit) prog" where
  "fallback_incoming_bio_write bs = upd (\<lambda>w. w\<lparr>e_py_in := e_py_in w @ bs\<rparr>)"

section \<open>The engine of a transport\<close>

text \<open>
  The methods of \<open>SSLEngine\<close>, dispatched on the class. A method that the class does not
  override raises \<open>NotImplementedError\<close>.
\<close>

definition engine_do_handshake :: "('a ssl_engine_scheme, ssl_error) prog" where
  "engine_do_handshake = cond e_direct direct_do_handshake fallback_do_handshake"

definition engine_shutdown :: "('a ssl_engine_scheme, ssl_error) prog" where
  "engine_shutdown = cond e_direct direct_shutdown fallback_shutdown"

definition engine_read :: "nat \<Rightarrow> ('a ssl_engine_scheme, ssl_error \<times> bytes) prog" where
  "engine_read buf_len = cond e_direct (direct_read buf_len) (fallback_read buf_len)"

definition engine_write :: "bytes \<Rightarrow> ('a ssl_engine_scheme, ssl_error \<times> nat) prog" where
  "engine_write data = cond e_direct (direct_write data) (fallback_write data)"

definition engine_sendfile :: "int \<Rightarrow> int \<Rightarrow> int \<Rightarrow> ('a ssl_engine_scheme, ssl_error \<times> int) prog" where
  "engine_sendfile fd offset count =
     cond e_direct (direct_sendfile fd offset count) (raise NotImplementedErr)"

definition ssl_incoming_use_membio :: "'a ssl_engine_scheme \<Rightarrow> bool" where
  "ssl_incoming_use_membio w = (\<not> e_direct w \<or> e_incoming w \<noteq> None)"

definition ssl_outgoing_use_membio :: "'a ssl_engine_scheme \<Rightarrow> bool" where
  "ssl_outgoing_use_membio w = (\<not> e_direct w \<or> e_outgoing w \<noteq> None)"

definition ktls_send_enabled :: "'a ssl_engine_scheme \<Rightarrow> int" where
  "ktls_send_enabled w = (if e_direct w then e_ktls_send w else 0)"

definition sendfile_available :: "'a ssl_engine_scheme \<Rightarrow> bool" where
  "sendfile_available w = (e_direct w \<and> e_has_sendfile w)"

definition outgoing_bio_reset :: "('a ssl_engine_scheme, unit) prog" where
  "outgoing_bio_reset = cond e_direct direct_outgoing_bio_reset fallback_outgoing_bio_reset"

definition outgoing_bio_pending :: "('a ssl_engine_scheme, int) prog" where
  "outgoing_bio_pending =
     cond e_direct direct_outgoing_bio_pending (gets (\<lambda>w. int (length (e_py_out w))))"

definition outgoing_bio_get_data :: "('a ssl_engine_scheme, bytes) prog" where
  "outgoing_bio_get_data = cond e_direct direct_outgoing_bio_get_data (raise NotImplementedErr)"

definition outgoing_bio_consume :: "nat \<Rightarrow> ('a ssl_engine_scheme, unit) prog" where
  "outgoing_bio_consume n = cond e_direct (direct_outgoing_bio_consume n) (raise NotImplementedErr)"

definition outgoing_bio_read :: "('a ssl_engine_scheme, bytes) prog" where
  "outgoing_bio_read = cond e_direct (raise NotImplementedErr) fallback_outgoing_bio_read"

definition incoming_bio_get_write_buf :: "('a ssl_engine_scheme, nat) prog" where
  "incoming_bio_get_write_buf =
     cond e_direct direct_incoming_bio_get_write_buf (raise NotImplementedErr)"

definition incoming_bio_produce :: "bytes \<Rightarrow> ('a ssl_engine_scheme, unit) prog" where
  "incoming_bio_produce bs = cond e_direct (direct_incoming_bio_produce bs) (raise NotImplementedErr)"

definition incoming_bio_write :: "bytes \<Rightarrow> ('a ssl_engine_scheme, unit) prog" where
  "incoming_bio_write bs = cond e_direct (raise NotImplementedErr) (fallback_incoming_bio_write bs)"

section \<open>Construction\<close>

text \<open>
  What the constructors look at: the context, the platform, and whether the calls that allocate
  and configure succeed.
\<close>

record engine_args =
  ea_server_side :: bool
  ea_hostname :: "string option"
  ea_check_hostname :: bool
  ea_ktls_requested :: bool
  ea_force_socket_bio :: bool
  ea_tls_module :: bool
  ea_linux :: "(nat \<times> nat) option"
  ea_openssl :: "nat \<times> nat \<times> nat"
  ea_set_options :: bool
  ea_has_socket :: bool
  ea_read_buffer :: bytes
  ea_write_buffer :: bytes
  ea_ssl_new :: bool
  ea_set_fd :: bool
  ea_bio_alloc :: "bool \<times> bool"
  ea_is_ip :: bool
  ea_sni_ok :: bool
  ea_param_ok :: bool

definition ssl_engine_init :: "engine_args \<Rightarrow> exn_class + unit" where
  "ssl_engine_init ea =
     (if \<not> ea_server_side ea \<and> ea_check_hostname ea \<and> (ea_hostname ea = None \<or> ea_hostname ea = Some [])
      then Inl ValueErr else Inr ())"

definition linux_kernel_at_least :: "nat \<times> nat \<Rightarrow> engine_args \<Rightarrow> bool" where
  "linux_kernel_at_least v ea =
     (case ea_linux ea of
        None \<Rightarrow> False
      | Some c \<Rightarrow> fst v < fst c \<or> fst v = fst c \<and> snd v \<le> snd c)"

definition ktls_prerequisites_available :: "engine_args \<Rightarrow> bool" where
  "ktls_prerequisites_available ea =
     (ea_tls_module ea \<and> linux_kernel_at_least (5, 1) ea \<and> fst (ea_openssl ea) \<ge> 3)"

text \<open>The name the peer certificate is checked against, and the name of the SNI extension.\<close>

datatype verify_name = VerifyHost string | VerifyIp string

definition configure_hostname :: "engine_args \<Rightarrow> string \<Rightarrow> exn_class + string option \<times> verify_name option" where
  "configure_hostname ea host =
     (if host = [] \<or> hd host = CHR ''.'' then Inl ValueErr
      else if \<not> ea_is_ip ea \<and> \<not> ea_sni_ok ea then Inl (SSLErr [])
      else if ea_check_hostname ea \<and> \<not> ea_param_ok ea then Inl (SSLErr [])
      else Inr (if ea_is_ip ea then None else Some host,
                if \<not> ea_check_hostname ea then None
                else Some (if ea_is_ip ea then VerifyIp host else VerifyHost host)))"

definition use_socket_bio :: "engine_args \<Rightarrow> bool" where
  "use_socket_bio ea =
     (ea_has_socket ea \<and>
      (ea_force_socket_bio ea \<or>
       ea_set_options ea \<and> ea_ktls_requested ea \<and> ktls_prerequisites_available ea))"

definition set_nbio :: "bio \<Rightarrow> bio" where
  "set_nbio b = snd (snd (static_mem_bio_ctrl b C_SET_NBIO 1 False))"

definition direct_engine_bios :: "engine_args \<Rightarrow> exn_class + bio option \<times> bio option" where
  "direct_engine_bios ea =
     (if \<not> ea_ssl_new ea then Inl MemoryErr
      else if use_socket_bio ea then (if ea_set_fd ea then Inr (None, None) else Inl (SSLErr []))
      else
        (case BIO_new_static_mem (fst (ea_bio_alloc ea)) (Some (ea_read_buffer ea)) of
           None \<Rightarrow> Inl MemoryErr
         | Some incoming \<Rightarrow>
             (case BIO_new_static_mem (snd (ea_bio_alloc ea)) (Some (ea_write_buffer ea)) of
                None \<Rightarrow> Inl MemoryErr
              | Some outgoing \<Rightarrow> Inr (Some (set_nbio incoming), Some (set_nbio outgoing)))))"

text \<open>The engine's BIOs, the SNI name and the name the peer is checked against.\<close>

definition direct_engine_new ::
  "engine_args \<Rightarrow> exn_class + (bio option \<times> bio option) \<times> string option \<times> verify_name option" where
  "direct_engine_new ea =
     (case ssl_engine_init ea of
        Inl c \<Rightarrow> Inl c
      | Inr _ \<Rightarrow>
          if ea_ktls_requested ea \<and> ea_force_socket_bio ea then Inl AssertErr
          else
            (case direct_engine_bios ea of
               Inl c \<Rightarrow> Inl c
             | Inr bios \<Rightarrow>
                 (case ea_hostname ea of
                    None \<Rightarrow> Inr (bios, None, None)
                  | Some host \<Rightarrow>
                      (case configure_hostname ea host of
                         Inl c \<Rightarrow> Inl c
                       | Inr names \<Rightarrow> Inr (bios, names)))))"

section \<open>What the engine tells about the connection\<close>

fun shared_ciphers :: "'c list \<Rightarrow> 'c list \<Rightarrow> 'c list" where
  "shared_ciphers [] client = []"
| "shared_ciphers (c # server) client =
     (if c \<in> set client then c # shared_ciphers server client else shared_ciphers server client)"

text \<open>
  Which finished message binds a channel, and the unverified chain: on the server side OpenSSL
  leaves out the certificate of the peer itself.
\<close>

definition channel_binding :: "string \<Rightarrow> bool \<Rightarrow> bool \<Rightarrow> bytes \<Rightarrow> bytes \<Rightarrow> exn_class + bytes option" where
  "channel_binding cb_type server_side session_reused finished peer_finished =
     (if cb_type \<noteq> ''tls-unique'' then Inl ValueErr
      else
        let buf = take 128 (if session_reused \<noteq> (\<not> server_side) then finished else peer_finished)
        in Inr (if buf = [] then None else Some buf))"

definition unverified_chain :: "bool \<Rightarrow> 'c list option \<Rightarrow> 'c option \<Rightarrow> 'c list" where
  "unverified_chain server_side chain peer_cert =
     (case chain of
        None \<Rightarrow> []
      | Some certs \<Rightarrow>
          (if server_side then (case peer_cert of None \<Rightarrow> certs | Some c \<Rightarrow> c # certs) else certs))"

end
