(* ===== verification/SslTransport.thy ===== *)
theory SslTransport
  imports SslEngine
begin

text \<open>
  The common part of the TLS transports (ssl_transport.pyx, class \<open>SSLTransportBase\<close>): the state
  machine of a connection, the handshake, reading, writing with a backlog of plaintext, and the
  shutdown. What the two subclasses override is the record \<open>ssl_methods\<close>.

  The loops around the engine leave as soon as it wants to read, which it does when \<open>e_script\<close>
  is used up; \<open>ssl_fuel\<close> is two rounds for every answer that is left, because the fallback
  engine may ask for a flush before it makes a call.

  \<open>_start_shutdown\<close>, \<open>_do_flush\<close>, \<open>_do_read_into_void\<close> and \<open>_should_retry_read\<close> call each
  other in a cycle. The inner call of \<open>_start_shutdown\<close> finds a state that it returns from at
  once, so two levels are enough; a third would be the exception \<open>OutOfFuel\<close>.
\<close>

section \<open>State\<close>

datatype ssl_state = UNWRAPPED | DO_HANDSHAKE | WRAPPED | FLUSHING | SHUTDOWN

datatype tls_item = TlsData pybuf | TlsFile sendfile_request

text \<open>
  \<open>x_open\<close> says that the socket (or the transport below) is attached, \<open>x_loop\<close> that \<open>_loop\<close> is
  set. The timers are the handles of \<open>call_later\<close>. \<open>x_cert_error\<close> is the text of
  the \<open>SSLError\<close> that \<open>ssl_object.getpeercert()\<close> raises, if any. The last five fields belong to the subclasses.
\<close>

record ssl_transport = ssl_engine +
  x_open :: bool
  x_loop :: bool
  x_server :: bool
  x_closed_count :: nat
  x_backlog :: "tls_item list"
  x_size :: int
  x_state :: ssl_state
  x_waiter :: "nat option"
  x_handshake_timer :: bool
  x_shutdown_timer :: bool
  x_sendfile_compatible :: bool
  x_next_request :: nat
  x_cert_error :: "string option"
  x_watermarks :: watermarks
  x_writer :: bool
  x_had_eagain :: bool
  x_lower_aiofn :: bool
  x_attached :: bool

record 'w ssl_methods =
  v_flush_outgoing :: "('w, bool) prog"
  v_retry_after_want_write :: "('w, bool) prog"
  v_flush_after_read :: "'w \<Rightarrow> bool"
  v_maybe_pause :: "('w, unit) prog"
  v_maybe_resume :: "('w, unit) prog"
  v_force_close_ssl :: "exn option \<Rightarrow> ('w, unit) prog"
  v_try_sendfile ::
    "(sendfile_request \<Rightarrow> ('w, unit) prog) \<Rightarrow> sendfile_request \<Rightarrow> ('w, bool \<times> sendfile_request) prog"

definition ssl_fuel :: "'a ssl_engine_scheme \<Rightarrow> nat" where
  "ssl_fuel w = 2 * length (e_script w) + 3"

definition ssl_is_closing :: "'a ssl_transport_scheme \<Rightarrow> bool" where
  "ssl_is_closing w = (t_finalizing w \<or> x_state w \<in> {FLUSHING, SHUTDOWN, UNWRAPPED})"

fun transition_allowed :: "ssl_state \<Rightarrow> ssl_state \<Rightarrow> bool" where
  "transition_allowed _ UNWRAPPED = True"
| "transition_allowed UNWRAPPED DO_HANDSHAKE = True"
| "transition_allowed DO_HANDSHAKE WRAPPED = True"
| "transition_allowed WRAPPED FLUSHING = True"
| "transition_allowed WRAPPED SHUTDOWN = True"
| "transition_allowed WRAPPED DO_HANDSHAKE = True"
| "transition_allowed FLUSHING SHUTDOWN = True"
| "transition_allowed _ _ = False"

definition set_state :: "ssl_state \<Rightarrow> ('a ssl_transport_scheme, unit) prog" where
  "set_state s =
     cond (\<lambda>w. transition_allowed (x_state w) s) (upd (\<lambda>w. w\<lparr>x_state := s\<rparr>)) (raise RuntimeErr)"

section \<open>Errors and the waiter\<close>

definition instance_of :: "exn \<Rightarrow> exn" where
  \<comment> \<open>\<open>Future.set_exception\<close> makes an instance of a class\<close>
  "instance_of e = (case exn_cls e of ExnType c \<Rightarrow> exn_of c | _ \<Rightarrow> e)"

definition wakeup_waiter :: "exn option \<Rightarrow> ('a ssl_transport_scheme, unit) prog" where
  "wakeup_waiter exc =
     bnd (gets x_waiter) (\<lambda>waiter.
       case waiter of
         None \<Rightarrow> ret ()
       | Some i \<Rightarrow>
           unless (fut_done i)
             (fut_set i (case exc of Some e \<Rightarrow> FutException (instance_of e) | None \<Rightarrow> FutResult)))"

definition fatal_error_no_close :: "exn \<Rightarrow> string \<Rightarrow> ('a ssl_transport_scheme, unit) prog" where
  "fatal_error_no_close e msg =
     (if is_oserror e then ret ()
      else only_if x_loop (call_exception_handler msg e CtxTransport))"

definition ssl_fatal_error ::
  "'a ssl_transport_scheme ssl_methods \<Rightarrow> exn \<Rightarrow> string \<Rightarrow> ('a ssl_transport_scheme, unit) prog" where
  "ssl_fatal_error vt e msg =
     block [
       v_force_close_ssl vt (Some e),
       (if is_oserror e then ret ()
        else only_if (\<lambda>w. x_loop w \<and> exn_cls e \<noteq> CancelledError)
               (call_exception_handler msg e CtxTransport))]"

definition abort_with ::
  "'a ssl_transport_scheme ssl_methods \<Rightarrow> exn option \<Rightarrow> ('a ssl_transport_scheme, unit) prog" where
  "abort_with vt exc =
     block [
       unless (\<lambda>w. x_state w = UNWRAPPED) (set_state UNWRAPPED),
       v_force_close_ssl vt exc]"

text \<open>
  A file transfer whose future is still open gets the exception. \<open>set_exception(None)\<close> is a
  \<open>TypeError\<close>.
\<close>

definition release_ssl_waiter :: "exn option \<Rightarrow> tls_item \<Rightarrow> ('a ssl_transport_scheme, unit) prog" where
  "release_ssl_waiter exc it =
     (case it of
        TlsFile r \<Rightarrow>
          (case sf_waiter r of
             None \<Rightarrow> ret ()
           | Some i \<Rightarrow>
               unless (fut_done i)
                 (case exc of None \<Rightarrow> raise TypeErr | Some e \<Rightarrow> fut_set i (FutException (instance_of e))))
      | TlsData _ \<Rightarrow> ret ())"

definition ssl_clear_write_backlog :: "exn option \<Rightarrow> ('a ssl_transport_scheme, unit) prog" where
  "ssl_clear_write_backlog exc =
     block [
       bnd (gets x_backlog) (\<lambda>q. for_each q (release_ssl_waiter exc)),
       upd (\<lambda>w. w\<lparr>x_backlog := [], x_size := 0\<rparr>)]"

section \<open>Calls into the protocol\<close>

definition is_plain_exception :: "exn \<Rightarrow> bool" where
  \<comment> \<open>\<open>except Exception\<close>\<close>
  "is_plain_exception e = (\<not> is_exit e \<and> exn_cls e \<noteq> CancelledError)"

definition ssl_connection_made ::
  "(nat \<Rightarrow> 'a ssl_transport_scheme app) \<Rightarrow> ('a ssl_transport_scheme, unit) prog" where
  "ssl_connection_made apps =
     try_except (call_protocol_connection_made apps)
       (\<lambda>e. if is_plain_exception e
            then fatal_error_no_close e ''user connection_made raised an exception''
            else reraise e)"

definition connection_lost_callback ::
  "(nat \<Rightarrow> 'a ssl_transport_scheme app) \<Rightarrow> nat option \<Rightarrow> exn option \<Rightarrow>
     ('a ssl_transport_scheme, unit) prog" where
  "connection_lost_callback apps proto exc =
     try_except
       (andthen (log (ObConnectionLost exc))
         (case proto of None \<Rightarrow> raise AttributeErr | Some p \<Rightarrow> on_connection_lost (apps p) exc))
       (\<lambda>e. if is_plain_exception e
            then fatal_error_no_close e ''user connection_lost raised an exception''
            else reraise e)"

definition ssl_connection_lost ::
  "(nat \<Rightarrow> 'a ssl_transport_scheme app) \<Rightarrow> exn option \<Rightarrow> ('a ssl_transport_scheme, unit) prog" where
  "ssl_connection_lost apps exc =
     only_if t_connected
       (block [
         upd (\<lambda>w. w\<lparr>t_connected := False\<rparr>),
         bnd (gets t_protocol) (\<lambda>proto. connection_lost_callback apps proto exc)])"

definition ssl_eof_received ::
  "(nat \<Rightarrow> 'a ssl_transport_scheme app) \<Rightarrow> ('a ssl_transport_scheme, unit) prog" where
  "ssl_eof_received apps =
     bnd (call_protocol_eof_received apps) (\<lambda>keep_open.
       if keep_open
       then log (ObLogWarning ''returning true from eof_received() has no effect when using ssl'')
       else ret ())"

section \<open>Shutdown\<close>

definition should_retry_read ::
  "(nat \<Rightarrow> 'a ssl_transport_scheme app) \<Rightarrow> 'a ssl_transport_scheme ssl_methods \<Rightarrow>
     ('a ssl_transport_scheme, unit) prog \<Rightarrow> ssl_error \<Rightarrow> ('a ssl_transport_scheme, bool) prog" where
  \<comment> \<open>\<open>shutdown\<close> is \<open>_start_shutdown\<close>\<close>
  "should_retry_read apps vt shutdown last_error =
     (case last_error of
        SSL_ERROR_WANT_READ \<Rightarrow> ret False
      | SSL_ERROR_WANT_WRITE \<Rightarrow> v_retry_after_want_write vt
      | SSL_ERROR_ZERO_RETURN \<Rightarrow>
          andthen (block [ssl_eof_received apps, shutdown]) (ret False)
      | _ \<Rightarrow> raise RuntimeErr)"

definition read_into_void_step ::
  "(nat \<Rightarrow> 'a ssl_transport_scheme app) \<Rightarrow> 'a ssl_transport_scheme ssl_methods \<Rightarrow>
     ('a ssl_transport_scheme, unit) prog \<Rightarrow> unit \<Rightarrow> ('a ssl_transport_scheme, unit + unit) prog" where
  "read_into_void_step apps vt shutdown _ =
     bnd (engine_read (16 * 1024)) (\<lambda>(err, _).
       if err = SSL_ERROR_NONE then continue_with ()
       else bnd (should_retry_read apps vt shutdown err) (\<lambda>again.
         if again then continue_with () else leave_with ()))"

definition do_read_into_void ::
  "(nat \<Rightarrow> 'a ssl_transport_scheme app) \<Rightarrow> 'a ssl_transport_scheme ssl_methods \<Rightarrow>
     ('a ssl_transport_scheme, unit) prog \<Rightarrow> ('a ssl_transport_scheme, unit) prog" where
  "do_read_into_void apps vt shutdown =
     bnd (gets ssl_fuel) (\<lambda>n. loop n (read_into_void_step apps vt shutdown) ())"

definition on_shutdown_complete ::
  "'a ssl_transport_scheme ssl_methods \<Rightarrow> exn option \<Rightarrow> ('a ssl_transport_scheme, unit) prog" where
  "on_shutdown_complete vt exc =
     block [
       upd (\<lambda>w. w\<lparr>x_shutdown_timer := False\<rparr>),
       (case exc of
          Some e \<Rightarrow>
            ssl_fatal_error vt e
              (case exn_info e of Some info \<Rightarrow> info | None \<Rightarrow> ''Error occurred during shutdown'')
        | None \<Rightarrow> v_force_close_ssl vt None)]"

definition do_shutdown_step ::
  "'a ssl_transport_scheme ssl_methods \<Rightarrow> unit \<Rightarrow> ('a ssl_transport_scheme, unit + unit) prog" where
  "do_shutdown_step vt _ =
     bnd engine_shutdown (\<lambda>err.
       case err of
         SSL_ERROR_NONE \<Rightarrow>
           andthen (v_flush_outgoing vt) (andthen (on_shutdown_complete vt None) (leave_with ()))
       | SSL_ERROR_WANT_WRITE \<Rightarrow>
           bnd (v_retry_after_want_write vt) (\<lambda>again.
             if again then continue_with () else leave_with ())
       | SSL_ERROR_WANT_READ \<Rightarrow> andthen (v_flush_outgoing vt) (leave_with ())
       | _ \<Rightarrow> raise RuntimeErr)"

definition do_shutdown ::
  "(nat \<Rightarrow> 'a ssl_transport_scheme app) \<Rightarrow> 'a ssl_transport_scheme ssl_methods \<Rightarrow>
     ('a ssl_transport_scheme, unit) prog \<Rightarrow> ('a ssl_transport_scheme, unit) prog" where
  "do_shutdown apps vt shutdown =
     block [
       do_read_into_void apps vt shutdown,
       bnd (gets ssl_fuel) (\<lambda>n. loop n (do_shutdown_step vt) ())]"

section \<open>Writing plaintext\<close>

text \<open>
  "_write_impl": the rest that could not be written, as an object that may stay in the backlog,
  or \<open>None\<close>. \<open>data\<close> is the object that the memory belongs to.
\<close>

definition write_impl_step ::
  "'a ssl_transport_scheme ssl_methods \<Rightarrow> pybuf \<Rightarrow> bytes \<Rightarrow>
     ('a ssl_transport_scheme, bytes + pybuf option) prog" where
  "write_impl_step vt data mem =
     bnd (engine_write mem) (\<lambda>(err, n).
       if err = SSL_ERROR_NONE then leave_with None
       else
         let rest = drop n mem in
         if err = SSL_ERROR_WANT_WRITE then
           bnd (v_retry_after_want_write vt) (\<lambda>again.
             if again then continue_with rest
             else leave_with (Some (aiofn_maybe_copy_buffer_tail data rest)))
         else if err = SSL_ERROR_WANT_READ
         then leave_with (Some (aiofn_maybe_copy_buffer_tail data rest))
         else continue_with rest)"

definition write_impl ::
  "'a ssl_transport_scheme ssl_methods \<Rightarrow> pybuf \<Rightarrow> bytes \<Rightarrow> ('a ssl_transport_scheme, pybuf option) prog" where
  "write_impl vt data mem = bnd (gets ssl_fuel) (\<lambda>n. loop n (write_impl_step vt data) mem)"

text \<open>\<open>len()\<close> of an object of the backlog, and its truth value.\<close>

definition tls_len :: "tls_item \<Rightarrow> exn_class + int" where
  "tls_len it = (case it of TlsData d \<Rightarrow> py_len d | TlsFile r \<Rightarrow> Inr (sf_count r))"

definition buf_true :: "pybuf \<Rightarrow> bool" where
  "buf_true d = (case py_len d of Inl _ \<Rightarrow> d \<noteq> PyNone | Inr n \<Rightarrow> n \<noteq> 0)"

definition push_backlog :: "pybuf \<Rightarrow> ('a ssl_transport_scheme, unit) prog" where
  "push_backlog d =
     block [
       upd (\<lambda>w. w\<lparr>x_backlog := x_backlog w @ [TlsData d]\<rparr>),
       bnd (lift_exn (py_len d)) (\<lambda>n. upd (\<lambda>w. w\<lparr>x_size := x_size w + n\<rparr>))]"

definition append_to_backlog ::
  "'a ssl_transport_scheme ssl_methods \<Rightarrow> pybuf \<Rightarrow> bool \<Rightarrow> ('a ssl_transport_scheme, unit) prog" where
  "append_to_backlog vt data maybe_pause =
     (if \<not> buf_true data then ret ()
      else
        bnd (lift_exn (aiofn_maybe_copy_buffer data)) (\<lambda>d.
          block [push_backlog d, (if maybe_pause then v_maybe_pause vt else ret ())]))"

definition tail_object :: "pybuf option \<Rightarrow> pybuf" where
  "tail_object tail = (case tail of None \<Rightarrow> PyNone | Some d \<Rightarrow> d)"

section \<open>Draining the backlog\<close>

text \<open>
  The loop over the list reads it anew in every round, as Python's iterator does. \<open>i\<close> counts the
  items that were completed; they leave the list at the end.
\<close>

definition sync_at :: "nat \<Rightarrow> sendfile_request \<Rightarrow> ('a ssl_transport_scheme, unit) prog" where
  "sync_at i r = upd (\<lambda>w. w\<lparr>x_backlog := (x_backlog w)[i := TlsFile r]\<rparr>)"

definition complete_transfer :: "sendfile_request \<Rightarrow> ('a ssl_transport_scheme, unit) prog" where
  "complete_transfer r =
     (case sf_waiter r of
        None \<Rightarrow> raise AttributeErr
      | Some j \<Rightarrow> unless (fut_done j) (fut_set j FutResult))"

definition flush_item ::
  "'a ssl_transport_scheme ssl_methods \<Rightarrow> nat \<Rightarrow> tls_item \<Rightarrow> ('a ssl_transport_scheme, bool) prog" where
  \<comment> \<open>whether the item is complete\<close>
  "flush_item vt i it =
     (case it of
        TlsFile r \<Rightarrow>
          bnd (v_try_sendfile vt (sync_at i) r) (\<lambda>(completed, r').
            andthen (upd (\<lambda>w. w\<lparr>x_size := x_size w - sf_count r + sf_count r'\<rparr>))
              (if \<not> completed then ret False
               else andthen (complete_transfer r')
                 (andthen (upd (\<lambda>w. w\<lparr>x_size := x_size w - sf_count r'\<rparr>)) (ret True))))
      | TlsData d \<Rightarrow>
          bnd (lift_exn (aiofn_unpack_simple_buffer False d)) (\<lambda>mem.
            bnd (write_impl vt d mem) (\<lambda>tail.
              bnd (lift_exn (py_len d)) (\<lambda>len.
                case tail of
                  None \<Rightarrow> andthen (upd (\<lambda>w. w\<lparr>x_size := x_size w - len\<rparr>)) (ret True)
                | Some t \<Rightarrow>
                    bnd (lift_exn (py_len t)) (\<lambda>rest.
                      andthen
                        (upd (\<lambda>w. w\<lparr>x_size := x_size w - len + rest,
                                  x_backlog := (x_backlog w)[i := TlsData t]\<rparr>))
                        (ret False))))))"

definition flush_backlog_step ::
  "'a ssl_transport_scheme ssl_methods \<Rightarrow> nat \<Rightarrow> ('a ssl_transport_scheme, nat + nat) prog" where
  "flush_backlog_step vt i =
     bnd (gets x_backlog) (\<lambda>q.
       if length q \<le> i then leave_with i
       else bnd (flush_item vt i (q ! i)) (\<lambda>completed.
         if completed then continue_with (i + 1) else leave_with i))"

definition flush_write_backlog ::
  "'a ssl_transport_scheme ssl_methods \<Rightarrow> ('a ssl_transport_scheme, unit) prog" where
  "flush_write_backlog vt =
     unless (\<lambda>w. x_state w \<notin> {WRAPPED, FLUSHING} \<or> x_size w = 0)
       (bnd (gets (\<lambda>w. length (x_backlog w) + ssl_fuel w)) (\<lambda>n.
         bnd (loop n (flush_backlog_step vt) 0) (\<lambda>items_completed.
           block [
             andthen (v_flush_outgoing vt) (ret ()),
             upd (\<lambda>w. w\<lparr>x_backlog := drop items_completed (x_backlog w)\<rparr>),
             v_maybe_resume vt])))"

text \<open>What the layers above and below count as not yet sent.\<close>

definition get_local_write_buffer_size ::
  "(nat \<Rightarrow> 'a ssl_transport_scheme app) \<Rightarrow> ('a ssl_transport_scheme, int) prog" where
  "get_local_write_buffer_size apps =
     bnd (gets x_size) (\<lambda>total.
       bnd
         (bnd (gets (\<lambda>w. if t_aiofn w then t_protocol w else None)) (\<lambda>p.
           case p of
             None \<Rightarrow> ret total
           | Some i \<Rightarrow> bnd (on_local_write_buffer_size (apps i)) (\<lambda>n. ret (total + n))))
         (\<lambda>total.
           cond ssl_outgoing_use_membio
             (bnd outgoing_bio_pending (\<lambda>n. ret (total + n)))
             (ret total)))"

definition do_flush ::
  "(nat \<Rightarrow> 'a ssl_transport_scheme app) \<Rightarrow> 'a ssl_transport_scheme ssl_methods \<Rightarrow>
     ('a ssl_transport_scheme, unit) prog \<Rightarrow> ('a ssl_transport_scheme, unit) prog" where
  "do_flush apps vt shutdown =
     block [
       do_read_into_void apps vt shutdown,
       unless (\<lambda>w. x_size w = 0) (flush_write_backlog vt),
       bnd (get_local_write_buffer_size apps) (\<lambda>n.
         if n = 0 then block [set_state SHUTDOWN, do_shutdown apps vt shutdown] else ret ())]"

definition call_later_shutdown :: "('a ssl_transport_scheme, unit) prog" where
  "call_later_shutdown = cond x_loop (upd (\<lambda>w. w\<lparr>x_shutdown_timer := True\<rparr>)) (raise AttributeErr)"

fun start_shutdown_level ::
  "nat \<Rightarrow> (nat \<Rightarrow> 'a ssl_transport_scheme app) \<Rightarrow> 'a ssl_transport_scheme ssl_methods \<Rightarrow>
     ('a ssl_transport_scheme, unit) prog" where
  "start_shutdown_level 0 apps vt = raise OutOfFuel"
| "start_shutdown_level (Suc n) apps vt =
     unless (\<lambda>w. x_state w \<in> {FLUSHING, SHUTDOWN, UNWRAPPED})
       (cond (\<lambda>w. x_state w = DO_HANDSHAKE) (abort_with vt None)
         (block [
           set_state FLUSHING,
           call_later_shutdown,
           do_flush apps vt (start_shutdown_level n apps vt)]))"

definition start_shutdown ::
  "(nat \<Rightarrow> 'a ssl_transport_scheme app) \<Rightarrow> 'a ssl_transport_scheme ssl_methods \<Rightarrow>
     ('a ssl_transport_scheme, unit) prog" where
  "start_shutdown apps vt = start_shutdown_level 2 apps vt"

section \<open>Handshake\<close>

definition on_handshake_complete ::
  "(nat \<Rightarrow> 'a ssl_transport_scheme app) \<Rightarrow> 'a ssl_transport_scheme ssl_methods \<Rightarrow> exn option \<Rightarrow>
     ('a ssl_transport_scheme, unit) prog" where
  "on_handshake_complete apps vt handshake_exc =
     block [
       upd (\<lambda>w. w\<lparr>x_handshake_timer := False\<rparr>),
       (case handshake_exc of
          Some e \<Rightarrow>
            block [
              set_state UNWRAPPED,
              ssl_fatal_error vt e ''SSL handshake failed'',
              wakeup_waiter (Some e)]
        | None \<Rightarrow>
            block [
              set_state WRAPPED,
              upd (\<lambda>w. w\<lparr>x_sendfile_compatible := sendfile_available w \<and> ktls_send_enabled w \<noteq> 0\<rparr>),
              bnd (gets x_cert_error) (\<lambda>err. case err of None \<Rightarrow> ret () | Some c \<Rightarrow> raise (SSLErr c)),
              wakeup_waiter None,
              ssl_connection_made apps,
              cond x_loop (call_soon SoonRetrySslRead) (raise AttributeErr)])]"

definition do_handshake_step ::
  "(nat \<Rightarrow> 'a ssl_transport_scheme app) \<Rightarrow> 'a ssl_transport_scheme ssl_methods \<Rightarrow> unit \<Rightarrow>
     ('a ssl_transport_scheme, unit + unit) prog" where
  "do_handshake_step apps vt _ =
     bnd engine_do_handshake (\<lambda>err.
       case err of
         SSL_ERROR_NONE \<Rightarrow>
           andthen (on_handshake_complete apps vt None) (andthen (v_flush_outgoing vt) (leave_with ()))
       | SSL_ERROR_WANT_WRITE \<Rightarrow>
           bnd (v_retry_after_want_write vt) (\<lambda>again.
             if again then continue_with () else leave_with ())
       | SSL_ERROR_WANT_READ \<Rightarrow> andthen (v_flush_outgoing vt) (leave_with ())
       | _ \<Rightarrow> raise RuntimeErr)"

definition do_handshake ::
  "(nat \<Rightarrow> 'a ssl_transport_scheme app) \<Rightarrow> 'a ssl_transport_scheme ssl_methods \<Rightarrow>
     ('a ssl_transport_scheme, unit) prog" where
  "do_handshake apps vt = bnd (gets ssl_fuel) (\<lambda>n. loop n (do_handshake_step apps vt) ())"

section \<open>Reading\<close>

definition read_buffered_step ::
  "(nat \<Rightarrow> 'a ssl_transport_scheme app) \<Rightarrow> 'a ssl_transport_scheme ssl_methods \<Rightarrow> bool \<Rightarrow> nat \<Rightarrow>
     ('a ssl_transport_scheme, nat + unit) prog" where
  "read_buffered_step apps vt mbio_used nread =
     (if \<not> (mbio_used \<or> nread < MAX_READ_BYTES_PER_CYCLE_HINT) then leave_with ()
      else
        bnd (call_protocol_get_buffer apps) (\<lambda>buf_len.
          bnd (engine_read buf_len) (\<lambda>(err, data).
            andthen (if data = [] then ret () else call_protocol_buffer_updated apps data)
              (if length data = buf_len then
                 cond t_read_paused (leave_with ()) (continue_with (nread + length data))
               else
                 bnd (should_retry_read apps vt (start_shutdown apps vt) err) (\<lambda>again.
                   if \<not> again then leave_with ()
                   else cond t_read_paused (leave_with ()) (continue_with (nread + length data)))))))"

definition do_read_buffered ::
  "(nat \<Rightarrow> 'a ssl_transport_scheme app) \<Rightarrow> 'a ssl_transport_scheme ssl_methods \<Rightarrow>
     ('a ssl_transport_scheme, unit) prog" where
  "do_read_buffered apps vt =
     bnd (gets ssl_incoming_use_membio) (\<lambda>mbio_used.
       bnd (gets ssl_fuel) (\<lambda>n. loop n (read_buffered_step apps vt mbio_used) 0))"

definition read_copied_step ::
  "(nat \<Rightarrow> 'a ssl_transport_scheme app) \<Rightarrow> 'a ssl_transport_scheme ssl_methods \<Rightarrow> bool \<Rightarrow> nat \<Rightarrow>
     ('a ssl_transport_scheme, nat + unit) prog" where
  "read_copied_step apps vt mbio_used nread =
     (if \<not> (mbio_used \<or> nread < MAX_READ_BYTES_PER_CYCLE_HINT) then leave_with ()
      else
        bnd (engine_read DATA_RECEIVED_MAX_SIZE) (\<lambda>(err, data).
          andthen (if data = [] then ret () else call_protocol_data_received apps data)
            (cond t_read_paused (leave_with ())
              (if length data < DATA_RECEIVED_MAX_SIZE then
                 bnd (should_retry_read apps vt (start_shutdown apps vt) err) (\<lambda>again.
                   if again then continue_with (nread + length data) else leave_with ())
               else continue_with (nread + length data)))))"

definition do_read_copied ::
  "(nat \<Rightarrow> 'a ssl_transport_scheme app) \<Rightarrow> 'a ssl_transport_scheme ssl_methods \<Rightarrow>
     ('a ssl_transport_scheme, unit) prog" where
  "do_read_copied apps vt =
     bnd (gets ssl_incoming_use_membio) (\<lambda>mbio_used.
       bnd (gets ssl_fuel) (\<lambda>n. loop n (read_copied_step apps vt mbio_used) 0))"

definition do_read ::
  "(nat \<Rightarrow> 'a ssl_transport_scheme app) \<Rightarrow> 'a ssl_transport_scheme ssl_methods \<Rightarrow>
     ('a ssl_transport_scheme, unit) prog" where
  "do_read apps vt =
     unless t_read_paused
       (block [
         cond t_buffered (do_read_buffered apps vt) (do_read_copied apps vt),
         only_if (v_flush_after_read vt)
           (block [
             andthen (v_flush_outgoing vt) (ret ()),
             unless (\<lambda>w. x_size w = 0) (flush_write_backlog vt)])])"

section \<open>Events\<close>

definition incoming_bio_updated ::
  "(nat \<Rightarrow> 'a ssl_transport_scheme app) \<Rightarrow> 'a ssl_transport_scheme ssl_methods \<Rightarrow>
     ('a ssl_transport_scheme, unit) prog" where
  "incoming_bio_updated apps vt =
     bnd (gets x_state) (\<lambda>s.
       case s of
         DO_HANDSHAKE \<Rightarrow> do_handshake apps vt
       | WRAPPED \<Rightarrow> do_read apps vt
       | FLUSHING \<Rightarrow> do_flush apps vt (start_shutdown apps vt)
       | SHUTDOWN \<Rightarrow> do_shutdown apps vt (start_shutdown apps vt)
       | UNWRAPPED \<Rightarrow> ret ())"

definition start_handshake ::
  "(nat \<Rightarrow> 'a ssl_transport_scheme app) \<Rightarrow> 'a ssl_transport_scheme ssl_methods \<Rightarrow>
     ('a ssl_transport_scheme, unit) prog" where
  "start_handshake apps vt =
     block [
       set_state DO_HANDSHAKE,
       cond x_loop (upd (\<lambda>w. w\<lparr>x_handshake_timer := True\<rparr>)) (raise AttributeErr),
       incoming_bio_updated apps vt]"

definition ssl_handle_error ::
  "(nat \<Rightarrow> 'a ssl_transport_scheme app) \<Rightarrow> 'a ssl_transport_scheme ssl_methods \<Rightarrow> string \<Rightarrow> exn \<Rightarrow>
     ('a ssl_transport_scheme, unit) prog" where
  "ssl_handle_error apps vt msg e =
     (if is_exit e then reraise e
      else
        cond (\<lambda>w. x_state w = DO_HANDSHAKE) (on_handshake_complete apps vt (Some e))
          (cond (\<lambda>w. x_state w \<in> {FLUSHING, SHUTDOWN}) (on_shutdown_complete vt (Some e))
            (ssl_fatal_error vt e (case exn_info e of Some info \<Rightarrow> info | None \<Rightarrow> msg))))"

definition check_handshake_timeout ::
  "(nat \<Rightarrow> 'a ssl_transport_scheme app) \<Rightarrow> 'a ssl_transport_scheme ssl_methods \<Rightarrow>
     ('a ssl_transport_scheme, unit) prog" where
  "check_handshake_timeout apps vt =
     try_except
       (only_if (\<lambda>w. x_state w = DO_HANDSHAKE) (raise (OSErr ECONNABORTED)))
       (ssl_handle_error apps vt ''SSL handshake failed'')"

definition check_shutdown_timeout ::
  "'a ssl_transport_scheme ssl_methods \<Rightarrow> ('a ssl_transport_scheme, unit) prog" where
  "check_shutdown_timeout vt =
     only_if (\<lambda>w. x_state w \<in> {FLUSHING, SHUTDOWN}) (abort_with vt (Some (exn_of AsyncioTimeout)))"

definition retry_ssl_read ::
  "(nat \<Rightarrow> 'a ssl_transport_scheme app) \<Rightarrow> 'a ssl_transport_scheme ssl_methods \<Rightarrow>
     ('a ssl_transport_scheme, unit) prog" where
  "retry_ssl_read apps vt =
     unless t_finalizing
       (try_except (incoming_bio_updated apps vt)
         (ssl_handle_error apps vt ''Error occurred during read''))"

text \<open>
  A low-level end of file. During the handshake the class \<open>ConnectionResetError\<close> itself is passed
  on, not an instance.
\<close>

definition process_eof ::
  "(nat \<Rightarrow> 'a ssl_transport_scheme app) \<Rightarrow> 'a ssl_transport_scheme ssl_methods \<Rightarrow>
     ('a ssl_transport_scheme, unit) prog" where
  "process_eof apps vt =
     bnd (gets x_state) (\<lambda>s.
       case s of
         DO_HANDSHAKE \<Rightarrow>
           on_handshake_complete apps vt (Some (exn_of (ExnType ConnectionResetError)))
       | WRAPPED \<Rightarrow> block [set_state SHUTDOWN, on_shutdown_complete vt None]
       | FLUSHING \<Rightarrow> block [set_state SHUTDOWN, on_shutdown_complete vt None]
       | SHUTDOWN \<Rightarrow> on_shutdown_complete vt None
       | UNWRAPPED \<Rightarrow> ret ())"

section \<open>What an application calls\<close>

definition ssl_close ::
  "(nat \<Rightarrow> 'a ssl_transport_scheme app) \<Rightarrow> 'a ssl_transport_scheme ssl_methods \<Rightarrow>
     ('a ssl_transport_scheme, unit) prog" where
  "ssl_close apps vt =
     block [
       check_thread,
       try_except (start_shutdown apps vt)
         (ssl_handle_error apps vt ''Error occurred during shutdown'')]"

definition ssl_abort ::
  "'a ssl_transport_scheme ssl_methods \<Rightarrow> ('a ssl_transport_scheme, unit) prog" where
  "ssl_abort vt = block [check_thread, abort_with vt None]"

definition is_protocol_ready :: "('a ssl_transport_scheme, bool) prog" where
  "is_protocol_ready =
     cond ssl_is_closing
       (andthen
         (block [
           only_if (\<lambda>w. x_closed_count w \<ge> LOG_THRESHOLD_FOR_CONNLOST_WRITES)
             (log (ObLogWarning ''SSL connection is closed'')),
           upd (\<lambda>w. w\<lparr>x_closed_count := x_closed_count w + 1\<rparr>)])
         (ret False))
       (ret True)"

definition flush_outgoing_bio :: "'a ssl_transport_scheme ssl_methods \<Rightarrow> ('a ssl_transport_scheme, unit) prog" where
  "flush_outgoing_bio vt = andthen (v_flush_outgoing vt) (ret ())"

definition ssl_write_c ::
  "(nat \<Rightarrow> 'a ssl_transport_scheme app) \<Rightarrow> 'a ssl_transport_scheme ssl_methods \<Rightarrow> bytes \<Rightarrow>
     ('a ssl_transport_scheme, unit) prog" where
  "ssl_write_c apps vt mem =
     bnd is_protocol_ready (\<lambda>ready.
       if \<not> ready \<or> mem = [] then ret ()
       else
         try_except
           (cond (\<lambda>w. x_size w = 0)
             (bnd (write_impl vt PyNone mem) (\<lambda>tail.
                block [flush_outgoing_bio vt, append_to_backlog vt (tail_object tail) True]))
             (append_to_backlog vt (PyBytes mem) True))
           (ssl_handle_error apps vt ''Fatal error on TLS transport''))"

definition ssl_write_nocheck ::
  "(nat \<Rightarrow> 'a ssl_transport_scheme app) \<Rightarrow> 'a ssl_transport_scheme ssl_methods \<Rightarrow> pybuf \<Rightarrow>
     ('a ssl_transport_scheme, unit) prog" where
  "ssl_write_nocheck apps vt data =
     bnd is_protocol_ready (\<lambda>ready.
       if \<not> ready then ret ()
       else
         try_except
           (cond (\<lambda>w. x_size w \<noteq> 0)
             (append_to_backlog vt data True)
             (bnd (lift_exn (aiofn_unpack_simple_buffer False data)) (\<lambda>mem.
                if mem = [] then ret ()
                else
                  bnd (write_impl vt data mem) (\<lambda>tail.
                    block [flush_outgoing_bio vt, append_to_backlog vt (tail_object tail) True]))))
           (ssl_handle_error apps vt ''Fatal error on TLS transport''))"

fun write_lines ::
  "'a ssl_transport_scheme ssl_methods \<Rightarrow> pybuf list \<Rightarrow> bool \<Rightarrow> ('a ssl_transport_scheme, unit) prog" where
  "write_lines vt [] add_to_backlog = ret ()"
| "write_lines vt (d # ds) add_to_backlog =
     (if add_to_backlog
      then andthen (append_to_backlog vt d False) (write_lines vt ds True)
      else
        bnd (lift_exn (aiofn_unpack_simple_buffer False d)) (\<lambda>mem.
          if mem = [] then write_lines vt ds False
          else
            bnd (write_impl vt d mem) (\<lambda>tail.
              case tail of
                None \<Rightarrow> write_lines vt ds False
              | Some t \<Rightarrow> andthen (push_backlog t) (write_lines vt ds True))))"

definition ssl_writelines_nocheck ::
  "(nat \<Rightarrow> 'a ssl_transport_scheme app) \<Rightarrow> 'a ssl_transport_scheme ssl_methods \<Rightarrow> pybuf list \<Rightarrow>
     ('a ssl_transport_scheme, unit) prog" where
  "ssl_writelines_nocheck apps vt list_of_data =
     bnd is_protocol_ready (\<lambda>ready.
       if \<not> ready then ret ()
       else
         cond (\<lambda>w. x_size w \<noteq> 0)
           (block [
             for_each list_of_data (\<lambda>d. append_to_backlog vt d False),
             v_maybe_pause vt])
           (try_except
             (block [
               write_lines vt list_of_data False,
               flush_outgoing_bio vt,
               v_maybe_pause vt])
             (ssl_handle_error apps vt ''Fatal error on TLS transport'')))"

text \<open>The result is \<open>None\<close>, or the future that completes with the transfer.\<close>

definition set_tls_waiter :: "nat \<Rightarrow> nat \<Rightarrow> tls_item \<Rightarrow> tls_item" where
  "set_tls_waiter rid i it =
     (case it of
        TlsFile r \<Rightarrow> if sf_id r = rid then TlsFile (r\<lparr>sf_waiter := Some i\<rparr>) else it
      | TlsData _ \<Rightarrow> it)"

definition queue_ssl_sendfile ::
  "'a ssl_transport_scheme ssl_methods \<Rightarrow> sendfile_request \<Rightarrow> ('a ssl_transport_scheme, nat option) prog" where
  "queue_ssl_sendfile vt r =
     andthen
       (block [
         upd (\<lambda>w. w\<lparr>x_backlog := x_backlog w @ [TlsFile r], x_size := x_size w + sf_count r\<rparr>),
         v_maybe_pause vt])
       (bnd create_future (\<lambda>i.
         andthen (upd (\<lambda>w. w\<lparr>x_backlog := map (set_tls_waiter (sf_id r) i) (x_backlog w)\<rparr>))
           (ret (Some i))))"

definition ssl_sendfile ::
  "(nat \<Rightarrow> 'a ssl_transport_scheme app) \<Rightarrow> 'a ssl_transport_scheme ssl_methods \<Rightarrow>
     pyfile \<Rightarrow> pyint_arg \<Rightarrow> pyint_arg \<Rightarrow> ('a ssl_transport_scheme, nat option) prog" where
  "ssl_sendfile apps vt file offset count =
     andthen
       (block [check_thread, unless x_sendfile_compatible (raise NotImplementedErr)])
       (bnd is_protocol_ready (\<lambda>ready.
         if \<not> ready then raise RuntimeErr
         else
           bnd (gets (\<lambda>w. make_sendfile_request (files w) (x_next_request w) file offset count)) (\<lambda>request.
             bnd (lift_exn request) (\<lambda>r.
               andthen (upd (\<lambda>w. w\<lparr>x_next_request := x_next_request w + 1\<rparr>))
                 (try_except
                   (bnd
                     (cond (\<lambda>w. x_size w = 0) (v_try_sendfile vt (\<lambda>_. ret ()) r) (ret (False, r)))
                     (\<lambda>(sent, r'). if sent then ret None else queue_ssl_sendfile vt r'))
                   (\<lambda>e. andthen (ssl_handle_error apps vt ''Fatal error on TLS transport'' e)
                          (reraise e)))))))"

text \<open>
  Renegotiation, which the tests ask for. \<open>tls13\<close> says that the cipher in the extra information
  is one of TLS 1.3; the answer of \<open>SSL_renegotiate\<close> is the next one of the script.
\<close>

definition engine_renegotiate :: "('a ssl_engine_scheme, int) prog" where
  "engine_renegotiate =
     cond e_direct (bnd ssl_call (\<lambda>a. ret (sa_rc a))) (raise NotImplementedErr)"

definition ssl_renegotiate ::
  "(nat \<Rightarrow> 'a ssl_transport_scheme app) \<Rightarrow> 'a ssl_transport_scheme ssl_methods \<Rightarrow> bool \<Rightarrow>
     ('a ssl_transport_scheme, unit) prog" where
  "ssl_renegotiate apps vt tls13 =
     block [
       unless (\<lambda>w. x_state w = WRAPPED) (raise RuntimeErr),
       (if tls13 then raise NotImplementedErr else ret ()),
       try_except
         (bnd engine_renegotiate (\<lambda>rc. if rc \<noteq> 1 then raise RuntimeErr else do_handshake apps vt))
         (\<lambda>e. if is_plain_exception e
              then ssl_fatal_error vt e ''Fatal error on SSL renegotiation''
              else reraise e)]"

end
