(* ===== verification/SslSocket.thy ===== *)
theory SslSocket
  imports SslTransport
begin

text \<open>
  The TLS transport that owns a socket (ssl_transport.pyx, class \<open>SSLTransport_Socket\<close>). Records
  leave through the outgoing memory BIO and \<open>aiofn_write\<close>, or through OpenSSL's own socket BIO
  when kernel TLS is used. \<open>x_had_eagain\<close> remembers inside one run of \<open>_write_ready\<close> that a
  write could not complete.
\<close>

section \<open>Output\<close>

definition ensure_writer :: "('a ssl_transport_scheme, unit) prog" where
  "ensure_writer =
     block [
       upd (\<lambda>w. w\<lparr>x_had_eagain := True\<rparr>),
       unless (\<lambda>w. t_finalizing w \<or> x_writer w)
         (block [upd (\<lambda>w. w\<lparr>x_writer := True\<rparr>), add_writer])]"

definition drop_writer :: "('a ssl_transport_scheme, unit) prog" where
  "drop_writer =
     unless (\<lambda>w. \<not> x_open w \<or> \<not> x_writer w)
       (block [upd (\<lambda>w. w\<lparr>x_writer := False\<rparr>), remove_writer])"

definition socket_flush_outgoing_bio :: "('a ssl_transport_scheme, bool) prog" where
  "socket_flush_outgoing_bio =
     cond (\<lambda>w. \<not> ssl_outgoing_use_membio w) (ret True)
       (cond x_had_eagain (ret False)
         (bnd outgoing_bio_get_data (\<lambda>data.
           if data = [] then ret True
           else
             bnd (sys_write data) (\<lambda>bytes_sent.
               andthen (if bytes_sent > 0 then outgoing_bio_consume (nat bytes_sent) else ret ())
                 (if bytes_sent < int (length data) then andthen ensure_writer (ret False)
                  else ret True)))))"

definition socket_retry_after_want_write :: "('a ssl_transport_scheme, bool) prog" where
  "socket_retry_after_want_write =
     cond ssl_outgoing_use_membio socket_flush_outgoing_bio (andthen ensure_writer (ret False))"

definition socket_try_sendfile_step ::
  "(sendfile_request \<Rightarrow> ('a ssl_transport_scheme, unit) prog) \<Rightarrow> sendfile_request \<Rightarrow>
     ('a ssl_transport_scheme, sendfile_request + bool \<times> sendfile_request) prog" where
  "socket_try_sendfile_step sync r =
     bnd (engine_sendfile (sf_fd r) (sf_offset r) (sf_count r)) (\<lambda>(err, n).
       let r' = r\<lparr>sf_offset := sf_offset r + n, sf_count := sf_count r - n\<rparr> in
       andthen (sync r')
         (case err of
            SSL_ERROR_NONE \<Rightarrow>
              let r'' = r'\<lparr>sf_count := 0\<rparr> in andthen (sync r'') (leave_with (True, r''))
          | SSL_ERROR_WANT_WRITE \<Rightarrow>
              bnd socket_retry_after_want_write (\<lambda>again.
                if again then continue_with r' else leave_with (False, r'))
          | SSL_ERROR_WANT_READ \<Rightarrow> leave_with (False, r')
          | _ \<Rightarrow> raise RuntimeErr))"

definition socket_try_sendfile ::
  "(sendfile_request \<Rightarrow> ('a ssl_transport_scheme, unit) prog) \<Rightarrow> sendfile_request \<Rightarrow>
     ('a ssl_transport_scheme, bool \<times> sendfile_request) prog" where
  "socket_try_sendfile sync r = bnd (gets ssl_fuel) (\<lambda>n. loop n (socket_try_sendfile_step sync) r)"

section \<open>Flow control\<close>

definition socket_write_buffer_size ::
  "(nat \<Rightarrow> 'a ssl_transport_scheme app) \<Rightarrow> ('a ssl_transport_scheme, int) prog" where
  "socket_write_buffer_size apps =
     andthen check_thread
       (bnd (gets x_size) (\<lambda>nbytes.
         cond t_aiofn
           (bnd (gets (current_app apps)) (\<lambda>p. case p of
              None \<Rightarrow> raise NullDeref
            | Some a \<Rightarrow> bnd (on_local_write_buffer_size a) (\<lambda>n. ret (nbytes + n))))
           (ret nbytes)))"

definition socket_maybe_pause ::
  "(nat \<Rightarrow> 'a ssl_transport_scheme app) \<Rightarrow> ('a ssl_transport_scheme, unit) prog" where
  "socket_maybe_pause apps =
     bnd (gets (current_app apps)) (\<lambda>proto.
       bnd (socket_write_buffer_size apps)
         (maybe_pause_protocol_raw x_watermarks x_watermarks_update proto))"

definition socket_maybe_resume ::
  "(nat \<Rightarrow> 'a ssl_transport_scheme app) \<Rightarrow> ('a ssl_transport_scheme, unit) prog" where
  "socket_maybe_resume apps =
     bnd (gets (current_app apps)) (\<lambda>proto.
       bnd (socket_write_buffer_size apps)
         (maybe_resume_protocol_raw x_watermarks x_watermarks_update proto))"

definition socket_get_write_buffer_limits :: "('a ssl_transport_scheme, int \<times> int) prog" where
  "socket_get_write_buffer_limits =
     andthen check_thread (gets (\<lambda>w. get_write_buffer_limits_raw (x_watermarks w)))"

definition socket_set_write_buffer_limits ::
  "(nat \<Rightarrow> 'a ssl_transport_scheme app) \<Rightarrow> int option \<Rightarrow> int option \<Rightarrow>
     ('a ssl_transport_scheme, unit) prog" where
  "socket_set_write_buffer_limits apps high low =
     andthen check_thread
       (bnd (gets (current_app apps)) (\<lambda>proto.
         bnd (socket_write_buffer_size apps)
           (\<lambda>n. set_write_buffer_limits_wm x_watermarks x_watermarks_update proto n high low)))"

interpretation xw: watermark_owner
  "x_watermarks :: 'a ssl_transport_scheme \<Rightarrow> watermarks" x_watermarks_update
  by unfold_locales simp_all

section \<open>Close\<close>

definition socket_force_close :: "exn option \<Rightarrow> ('a ssl_transport_scheme, unit) prog" where
  "socket_force_close exc =
     unless (\<lambda>w. \<not> x_open w \<or> t_finalizing w)
       (block [
         unless (\<lambda>w. x_size w = 0) (ssl_clear_write_backlog exc),
         drop_writer,
         remove_reader,
         schedule_finalize_close exc])"

definition socket_methods ::
  "(nat \<Rightarrow> 'a ssl_transport_scheme app) \<Rightarrow> 'a ssl_transport_scheme ssl_methods" where
  "socket_methods apps =
     \<lparr>v_flush_outgoing = socket_flush_outgoing_bio,
      v_retry_after_want_write = socket_retry_after_want_write,
      v_flush_after_read = (\<lambda>w. \<not> x_writer w),
      v_maybe_pause = socket_maybe_pause apps,
      v_maybe_resume = socket_maybe_resume apps,
      v_force_close_ssl = socket_force_close,
      v_try_sendfile = socket_try_sendfile\<rparr>"

definition socket_finalize_close ::
  "(nat \<Rightarrow> 'a ssl_transport_scheme app) \<Rightarrow> exn option \<Rightarrow> ('a ssl_transport_scheme, unit) prog" where
  "socket_finalize_close apps exc =
     try_finally (ssl_connection_lost apps exc)
       (block [
         upd (\<lambda>w. w\<lparr>x_open := False, t_protocol := None, x_loop := False\<rparr>),
         only_if x_server (block [log ObServerDetach, upd (\<lambda>w. w\<lparr>x_server := False\<rparr>)])])"

section \<open>Reading: pausing\<close>

definition socket_is_reading :: "('a ssl_transport_scheme, bool) prog" where
  "socket_is_reading = andthen check_thread (gets (\<lambda>w. \<not> ssl_is_closing w \<and> \<not> t_read_paused w))"

definition socket_pause_reading :: "('a ssl_transport_scheme, unit) prog" where
  "socket_pause_reading =
     andthen check_thread
       (bnd socket_is_reading (\<lambda>reading.
         if \<not> reading then ret ()
         else block [upd (\<lambda>w. w\<lparr>t_read_paused := True\<rparr>), remove_reader]))"

definition socket_resume_reading :: "('a ssl_transport_scheme, unit) prog" where
  "socket_resume_reading =
     block [
       check_thread,
       unless (\<lambda>w. ssl_is_closing w \<or> \<not> t_read_paused w)
         (block [
           upd (\<lambda>w. w\<lparr>t_read_paused := False\<rparr>),
           add_reader,
           only_if (\<lambda>w. x_state w \<in> {WRAPPED, FLUSHING, SHUTDOWN}) (call_soon SoonReadReady)])]"

section \<open>Readiness\<close>

definition socket_write_ready ::
  "(nat \<Rightarrow> 'a ssl_transport_scheme app) \<Rightarrow> ('a ssl_transport_scheme, unit) prog" where
  "socket_write_ready apps =
     (let vt = socket_methods apps; shutdown = start_shutdown apps vt in
      unless t_finalizing
        (block [
          upd (\<lambda>w. w\<lparr>x_had_eagain := False\<rparr>),
          try_except
            (block [
              flush_outgoing_bio vt,
              bnd (gets x_state) (\<lambda>s.
                case s of
                  DO_HANDSHAKE \<Rightarrow> do_handshake apps vt
                | WRAPPED \<Rightarrow> cond (\<lambda>w. x_size w \<noteq> 0) (flush_write_backlog vt) (do_read apps vt)
                | FLUSHING \<Rightarrow> do_flush apps vt shutdown
                | SHUTDOWN \<Rightarrow> do_shutdown apps vt shutdown
                | UNWRAPPED \<Rightarrow> ret ()),
              unless x_had_eagain drop_writer])
            (ssl_handle_error apps vt ''Error occurred during write'')]))"

definition socket_read_step ::
  "(nat \<Rightarrow> 'a ssl_transport_scheme app) \<Rightarrow> nat \<Rightarrow> ('a ssl_transport_scheme, nat + unit) prog" where
  "socket_read_step apps nread =
     (if \<not> nread < MAX_READ_BYTES_PER_CYCLE_HINT then leave_with ()
      else
        cond t_read_paused (leave_with ())
          (bnd incoming_bio_get_write_buf (\<lambda>buf_len.
            bnd (sys_read buf_len) (\<lambda>r.
              case r of
                None \<Rightarrow> leave_with ()
              | Some bs \<Rightarrow>
                  if bs = [] then andthen (process_eof apps (socket_methods apps)) (leave_with ())
                  else
                    andthen
                      (block [
                        incoming_bio_produce bs,
                        incoming_bio_updated apps (socket_methods apps)])
                      (if length bs < buf_len then leave_with ()
                       else continue_with (nread + length bs))))))"

definition socket_read_ready ::
  "(nat \<Rightarrow> 'a ssl_transport_scheme app) \<Rightarrow> ('a ssl_transport_scheme, unit) prog" where
  "socket_read_ready apps =
     unless t_finalizing
       (try_except
         (cond ssl_incoming_use_membio
           (loop (MAX_READ_BYTES_PER_CYCLE_HINT + 1) (socket_read_step apps) 0)
           (incoming_bio_updated apps (socket_methods apps)))
         (ssl_handle_error apps (socket_methods apps) ''Error occurred during read''))"

section \<open>Construction\<close>

text \<open>
  The object before the constructor touches the event loop: \<open>base\<close> gives the protocol, the
  waiter, the server and the engine. The hook is patched by tests only; the caller owns the
  socket when the constructor raises.
\<close>

definition ssl_transport_init ::
  "(nat \<Rightarrow> ssl_transport app) \<Rightarrow> nat \<Rightarrow> nat option \<Rightarrow> bool \<Rightarrow> ssl_engine \<Rightarrow> ssl_transport" where
  "ssl_transport_init apps p waiter server engine =
     snd (set_protocol_nocheck apps p
       (ssl_engine.extend engine
          (ssl_transport.fields False True server 0 [] 0 UNWRAPPED waiter False False False 0 None
             watermarks_new False False False True)))"

definition socket_transport_start ::
  "(nat \<Rightarrow> 'a ssl_transport_scheme app) \<Rightarrow> ('a ssl_transport_scheme, unit) prog \<Rightarrow>
     ('a ssl_transport_scheme, unit) prog" where
  "socket_transport_start apps hook =
     block [
       upd (\<lambda>w. w\<lparr>x_open := True\<rparr>),
       try_except
         (block [add_reader, start_handshake apps (socket_methods apps), hook])
         (\<lambda>e. block [
           upd (\<lambda>w. w\<lparr>x_open := False\<rparr>),
           remove_reader,
           drop_writer,
           upd (\<lambda>w. w\<lparr>x_handshake_timer := False\<rparr>),
           reraise e])]"

section \<open>What the event loop runs\<close>

definition ssl_run_soon ::
  "(nat \<Rightarrow> 'a ssl_transport_scheme app) \<Rightarrow> soon \<Rightarrow> ('a ssl_transport_scheme, unit) prog" where
  "ssl_run_soon apps s =
     (case s of
        SoonRetrySslRead \<Rightarrow> retry_ssl_read apps (socket_methods apps)
      | SoonReadReady \<Rightarrow> socket_read_ready apps
      | SoonFinalizeClose exc \<Rightarrow> socket_finalize_close apps exc
      | _ \<Rightarrow> ret ())"

end
