(* ===== verification/SslOver.thy ===== *)
theory SslOver
  imports SslSocket
begin

text \<open>
  The TLS transport over another transport (ssl_transport.pyx, class \<open>SSLTransport_Transport\<close>)
  and the protocols that connect it to the one below (\<open>SSLProtocol\<close>, \<open>SSLBufferedProtocol\<close>). The
  transport below is the record \<open>lower\<close>: it may be one of this library or of the event loop, so
  its operations are parameters. \<open>x_open\<close> says that \<open>_transport\<close> is set and \<open>x_attached\<close> that
  the protocol object still points to its transport.
\<close>

record 'w lower =
  lo_aiofn :: bool
  lo_write :: "bytes \<Rightarrow> ('w, unit) prog"
  lo_pause_reading :: "('w, unit) prog"
  lo_resume_reading :: "('w, unit) prog"
  lo_is_reading :: "('w, bool) prog"
  lo_force_close :: "exn option \<Rightarrow> ('w, unit) prog"
  lo_set_limits :: "int option \<Rightarrow> int option \<Rightarrow> ('w, unit) prog"
  lo_get_limits :: "('w, int \<times> int) prog"
  lo_get_size :: "('w, int) prog"

section \<open>Output\<close>

definition call_lower :: "('a ssl_transport_scheme, 'b) prog \<Rightarrow> ('a ssl_transport_scheme, 'b) prog" where
  "call_lower m = cond x_open m (raise AttributeErr)"

definition over_write ::
  "'a ssl_transport_scheme lower \<Rightarrow> bytes \<Rightarrow> ('a ssl_transport_scheme, unit) prog" where
  "over_write lo data =
     cond (\<lambda>w. \<not> x_open w \<and> x_lower_aiofn w) (raise NullDeref) (call_lower (lo_write lo data))"

definition flush_direct_step ::
  "'a ssl_transport_scheme lower \<Rightarrow> unit \<Rightarrow> ('a ssl_transport_scheme, unit + unit) prog" where
  "flush_direct_step lo _ =
     bnd outgoing_bio_get_data (\<lambda>data.
       if data = [] then leave_with ()
       else
         andthen (block [over_write lo data, outgoing_bio_consume (length data)])
           (continue_with ()))"

definition flush_outgoing_bio_direct ::
  "'a ssl_transport_scheme lower \<Rightarrow> ('a ssl_transport_scheme, unit) prog" where
  "flush_outgoing_bio_direct lo = bnd (gets ssl_fuel) (\<lambda>n. loop n (flush_direct_step lo) ())"

definition flush_outgoing_bio_fallback ::
  "'a ssl_transport_scheme lower \<Rightarrow> ('a ssl_transport_scheme, unit) prog" where
  "flush_outgoing_bio_fallback lo =
     bnd outgoing_bio_read (\<lambda>data. if data = [] then ret () else over_write lo data)"

definition over_flush_outgoing_bio ::
  "'a ssl_transport_scheme lower \<Rightarrow> ('a ssl_transport_scheme, bool) prog" where
  "over_flush_outgoing_bio lo =
     andthen (cond e_direct (flush_outgoing_bio_direct lo) (flush_outgoing_bio_fallback lo)) (ret True)"

definition over_force_close ::
  "'a ssl_transport_scheme lower \<Rightarrow> exn option \<Rightarrow> ('a ssl_transport_scheme, unit) prog" where
  "over_force_close lo exc = only_if x_open (lo_force_close lo exc)"

definition over_methods ::
  "'a ssl_transport_scheme lower \<Rightarrow> 'a ssl_transport_scheme ssl_methods" where
  "over_methods lo =
     \<lparr>v_flush_outgoing = over_flush_outgoing_bio lo,
      v_retry_after_want_write = over_flush_outgoing_bio lo,
      v_flush_after_read = (\<lambda>_. True),
      v_maybe_pause = ret (),
      v_maybe_resume = ret (),
      v_force_close_ssl = over_force_close lo,
      v_try_sendfile = (\<lambda>_ _. raise NotImplementedErr)\<rparr>"

section \<open>Callbacks of the transport below\<close>

definition over_connection_made ::
  "(nat \<Rightarrow> 'a ssl_transport_scheme app) \<Rightarrow> 'a ssl_transport_scheme lower \<Rightarrow>
     ('a ssl_transport_scheme, unit) prog" where
  "over_connection_made apps lo =
     block [
       upd (\<lambda>w. w\<lparr>x_open := True, x_lower_aiofn := lo_aiofn lo\<rparr>),
       start_handshake apps (over_methods lo)]"

definition over_connection_lost ::
  "exn option \<Rightarrow> ('a ssl_transport_scheme, unit) prog" where
  "over_connection_lost exc =
     block [
       upd (\<lambda>w. w\<lparr>t_finalizing := True\<rparr>),
       unless (\<lambda>w. x_size w = 0) (ssl_clear_write_backlog exc),
       outgoing_bio_reset,
       only_if t_connected
         (block [
           bnd (gets t_protocol) (\<lambda>p. call_soon (SoonConnectionLost p exc)),
           upd (\<lambda>w. w\<lparr>t_connected := False\<rparr>)]),
       set_state UNWRAPPED,
       upd (\<lambda>w. w\<lparr>x_open := False, t_protocol := None\<rparr>),
       only_if x_server (block [log ObServerDetach, upd (\<lambda>w. w\<lparr>x_server := False\<rparr>)]),
       wakeup_waiter exc,
       upd (\<lambda>w. w\<lparr>x_shutdown_timer := False, x_handshake_timer := False\<rparr>)]"

definition over_get_buffer :: "('a ssl_transport_scheme, nat) prog" where
  "over_get_buffer = incoming_bio_get_write_buf"

definition over_input ::
  "(nat \<Rightarrow> 'a ssl_transport_scheme app) \<Rightarrow> 'a ssl_transport_scheme lower \<Rightarrow>
     ('a ssl_transport_scheme, unit) prog" where
  "over_input apps lo =
     try_except (incoming_bio_updated apps (over_methods lo))
       (ssl_handle_error apps (over_methods lo) ''Error occurred during read'')"

text \<open>The argument is what the transport below has stored in the buffer.\<close>

definition over_buffer_updated ::
  "(nat \<Rightarrow> 'a ssl_transport_scheme app) \<Rightarrow> 'a ssl_transport_scheme lower \<Rightarrow> bytes \<Rightarrow>
     ('a ssl_transport_scheme, unit) prog" where
  "over_buffer_updated apps lo bs = block [incoming_bio_produce bs, over_input apps lo]"

definition over_data_received ::
  "(nat \<Rightarrow> 'a ssl_transport_scheme app) \<Rightarrow> 'a ssl_transport_scheme lower \<Rightarrow> bytes \<Rightarrow>
     ('a ssl_transport_scheme, unit) prog" where
  "over_data_received apps lo data = block [incoming_bio_write data, over_input apps lo]"

definition over_eof_received ::
  "(nat \<Rightarrow> 'a ssl_transport_scheme app) \<Rightarrow> 'a ssl_transport_scheme lower \<Rightarrow>
     ('a ssl_transport_scheme, unit) prog" where
  "over_eof_received apps lo = process_eof apps (over_methods lo)"

definition over_pause_writing ::
  "(nat \<Rightarrow> 'a ssl_transport_scheme app) \<Rightarrow> ('a ssl_transport_scheme, unit) prog" where
  "over_pause_writing apps = call_protocol apps ObPauseWriting on_pause_writing"

definition over_resume_writing ::
  "(nat \<Rightarrow> 'a ssl_transport_scheme app) \<Rightarrow> ('a ssl_transport_scheme, unit) prog" where
  "over_resume_writing apps = call_protocol apps ObResumeWriting on_resume_writing"

section \<open>The protocol objects\<close>

text \<open>
  After \<open>connection_lost\<close> the protocol has no transport; a method that does not test for it
  makes a C call through \<open>None\<close>.
\<close>

definition via_protocol :: "('a ssl_transport_scheme, 'b) prog \<Rightarrow> ('a ssl_transport_scheme, 'b) prog" where
  "via_protocol m = cond x_attached m (raise NullDeref)"

definition protocol_connection_made ::
  "(nat \<Rightarrow> 'a ssl_transport_scheme app) \<Rightarrow> 'a ssl_transport_scheme lower \<Rightarrow>
     ('a ssl_transport_scheme, unit) prog" where
  "protocol_connection_made apps lo = only_if x_attached (over_connection_made apps lo)"

definition protocol_connection_lost :: "exn option \<Rightarrow> ('a ssl_transport_scheme, unit) prog" where
  "protocol_connection_lost exc =
     only_if x_attached
       (block [upd (\<lambda>w. w\<lparr>x_attached := False\<rparr>), over_connection_lost exc])"

definition protocol_data_received ::
  "(nat \<Rightarrow> 'a ssl_transport_scheme app) \<Rightarrow> 'a ssl_transport_scheme lower \<Rightarrow> bytes \<Rightarrow>
     ('a ssl_transport_scheme, unit) prog" where
  "protocol_data_received apps lo data = via_protocol (over_data_received apps lo data)"

definition protocol_eof_received ::
  "(nat \<Rightarrow> 'a ssl_transport_scheme app) \<Rightarrow> 'a ssl_transport_scheme lower \<Rightarrow>
     ('a ssl_transport_scheme, unit) prog" where
  "protocol_eof_received apps lo = via_protocol (over_eof_received apps lo)"

definition protocol_pause_writing ::
  "(nat \<Rightarrow> 'a ssl_transport_scheme app) \<Rightarrow> ('a ssl_transport_scheme, unit) prog" where
  "protocol_pause_writing apps = via_protocol (over_pause_writing apps)"

definition protocol_resume_writing ::
  "(nat \<Rightarrow> 'a ssl_transport_scheme app) \<Rightarrow> ('a ssl_transport_scheme, unit) prog" where
  "protocol_resume_writing apps = via_protocol (over_resume_writing apps)"

definition protocol_local_write_buffer_size ::
  "(nat \<Rightarrow> 'a ssl_transport_scheme app) \<Rightarrow> ('a ssl_transport_scheme, int) prog" where
  "protocol_local_write_buffer_size apps = via_protocol (get_local_write_buffer_size apps)"

definition protocol_get_buffer :: "('a ssl_transport_scheme, nat) prog" where
  "protocol_get_buffer = via_protocol over_get_buffer"

definition protocol_buffer_updated ::
  "(nat \<Rightarrow> 'a ssl_transport_scheme app) \<Rightarrow> 'a ssl_transport_scheme lower \<Rightarrow> bytes \<Rightarrow>
     ('a ssl_transport_scheme, unit) prog" where
  "protocol_buffer_updated apps lo bs = via_protocol (over_buffer_updated apps lo bs)"

section \<open>What an application calls\<close>

definition over_is_reading ::
  "'a ssl_transport_scheme lower \<Rightarrow> ('a ssl_transport_scheme, bool) prog" where
  "over_is_reading lo = andthen check_thread (call_lower (lo_is_reading lo))"

definition over_pause_reading ::
  "'a ssl_transport_scheme lower \<Rightarrow> ('a ssl_transport_scheme, unit) prog" where
  "over_pause_reading lo =
     block [check_thread, upd (\<lambda>w. w\<lparr>t_read_paused := True\<rparr>), call_lower (lo_pause_reading lo)]"

definition over_resume_reading ::
  "'a ssl_transport_scheme lower \<Rightarrow> ('a ssl_transport_scheme, unit) prog" where
  "over_resume_reading lo =
     block [
       check_thread,
       only_if t_read_paused
         (block [upd (\<lambda>w. w\<lparr>t_read_paused := False\<rparr>), call_soon SoonBufferUpdated]),
       call_lower (lo_resume_reading lo)]"

definition over_set_write_buffer_limits ::
  "'a ssl_transport_scheme lower \<Rightarrow> int option \<Rightarrow> int option \<Rightarrow> ('a ssl_transport_scheme, unit) prog" where
  "over_set_write_buffer_limits lo high low =
     block [check_thread, only_if x_open (lo_set_limits lo high low)]"

definition over_get_write_buffer_limits ::
  "'a ssl_transport_scheme lower \<Rightarrow> ('a ssl_transport_scheme, int \<times> int) prog" where
  "over_get_write_buffer_limits lo =
     andthen check_thread (cond x_open (lo_get_limits lo) (ret (0, 0)))"

definition over_get_write_buffer_size ::
  "'a ssl_transport_scheme lower \<Rightarrow> ('a ssl_transport_scheme, int) prog" where
  "over_get_write_buffer_size lo = andthen check_thread (cond x_open (lo_get_size lo) (ret 0))"

section \<open>What the event loop runs\<close>

definition over_run_soon ::
  "(nat \<Rightarrow> 'a ssl_transport_scheme app) \<Rightarrow> 'a ssl_transport_scheme lower \<Rightarrow> soon \<Rightarrow>
     ('a ssl_transport_scheme, unit) prog" where
  "over_run_soon apps lo s =
     (case s of
        SoonRetrySslRead \<Rightarrow> retry_ssl_read apps (over_methods lo)
      | SoonBufferUpdated \<Rightarrow> over_buffer_updated apps lo []
      | SoonConnectionLost p exc \<Rightarrow> connection_lost_callback apps p exc
      | _ \<Rightarrow> ret ())"

end
