(* ===== verification/Fueled.thy ===== *)
theory Fueled
  imports Prelude
begin

text \<open>
  Fuel that is enough. \<open>ends_in P R m\<close>: started in a state with \<open>P\<close>, the program \<open>m\<close> moves the
  state by \<open>R\<close> and does not end with \<open>OutOfFuel\<close>, neither by its own loops nor by what it calls.
  The property passes through every combinator; a loop has it by a measure below its fuel.
\<close>

definition ends_in :: "('w \<Rightarrow> bool) \<Rightarrow> ('w \<Rightarrow> 'w \<Rightarrow> bool) \<Rightarrow> ('w, 'a) prog \<Rightarrow> bool" where
  "ends_in P R m =
     (\<forall>w. P w \<longrightarrow> wp m (\<lambda>_ v. R w v) (\<lambda>e v. R w v \<and> exn_cls e \<noteq> OutOfFuel) w)"

definition terminates :: "('w, 'a) prog \<Rightarrow> 'w \<Rightarrow> bool" where
  "terminates m w = (case fst (m w) of Inl e \<Rightarrow> exn_cls e \<noteq> OutOfFuel | Inr _ \<Rightarrow> True)"

lemma terminates_wp: "wp m (\<lambda>_ _. True) (\<lambda>e _. exn_cls e \<noteq> OutOfFuel) w \<Longrightarrow> terminates m w"
  by (auto simp: wp_def terminates_def split: prod.splits sum.splits)

lemma ends_inD:
  "ends_in P R m \<Longrightarrow> P w \<Longrightarrow> wp m (\<lambda>_ v. R w v) (\<lambda>e v. R w v \<and> exn_cls e \<noteq> OutOfFuel) w"
  by (simp add: ends_in_def)

lemma ends_inI:
  "(\<And>w. P w \<Longrightarrow> wp m (\<lambda>_ v. R w v) (\<lambda>e v. R w v \<and> exn_cls e \<noteq> OutOfFuel) w) \<Longrightarrow> ends_in P R m"
  by (simp add: ends_in_def)

lemma ends_terminates: "ends_in P R m \<Longrightarrow> P w \<Longrightarrow> terminates m w"
  by (rule terminates_wp, rule wp_weaken [OF ends_inD [of P R m w]]) auto

lemma ends_weaken:
  assumes "ends_in P R m" "\<And>w. P' w \<Longrightarrow> P w" "\<And>w v. P' w \<Longrightarrow> R w v \<Longrightarrow> R' w v"
  shows "ends_in P' R' m"
  by (rule ends_inI, rule wp_weaken [OF ends_inD [OF assms(1)]]) (use assms(2,3) in auto)

text \<open>\<open>progress_in P R sz Q m\<close>: where the result satisfies \<open>Q\<close>, the size of the state has gone down.\<close>

definition progress_in ::
  "('w \<Rightarrow> bool) \<Rightarrow> ('w \<Rightarrow> 'w \<Rightarrow> bool) \<Rightarrow> ('w \<Rightarrow> nat) \<Rightarrow> ('a \<Rightarrow> bool) \<Rightarrow> ('w, 'a) prog \<Rightarrow> bool" where
  "progress_in P R sz Q m =
     (\<forall>w. P w \<longrightarrow> wp m (\<lambda>a v. R w v \<and> (Q a \<longrightarrow> sz v < sz w)) (\<lambda>e v. R w v \<and> exn_cls e \<noteq> OutOfFuel) w)"

lemma progressD:
  "progress_in P R sz Q m \<Longrightarrow> P w \<Longrightarrow>
     wp m (\<lambda>a v. R w v \<and> (Q a \<longrightarrow> sz v < sz w)) (\<lambda>e v. R w v \<and> exn_cls e \<noteq> OutOfFuel) w"
  by (simp add: progress_in_def)

lemma progressI:
  "(\<And>w. P w \<Longrightarrow> wp m (\<lambda>a v. R w v \<and> (Q a \<longrightarrow> sz v < sz w)) (\<lambda>e v. R w v \<and> exn_cls e \<noteq> OutOfFuel) w) \<Longrightarrow>
     progress_in P R sz Q m"
  by (simp add: progress_in_def)

lemma progress_ends: "progress_in P R sz Q m \<Longrightarrow> ends_in P R m"
  by (rule ends_inI, rule wp_weaken [OF progressD [of P R sz Q m]]) auto

lemma progress_weaken:
  assumes "progress_in P R sz Q m" "\<And>w. P' w \<Longrightarrow> P w" "\<And>w v. P' w \<Longrightarrow> R w v \<Longrightarrow> R' w v" "\<And>a. Q' a \<Longrightarrow> Q a"
  shows "progress_in P' R' sz Q' m"
  by (rule progressI, rule wp_weaken [OF progressD [OF assms(1)]]) (use assms(2-4) in auto)

locale fueled = step_order R for R :: "'w \<Rightarrow> 'w \<Rightarrow> bool" +
  fixes P :: "'w \<Rightarrow> bool"
    and sz :: "'w \<Rightarrow> nat"
  assumes P_stays: "P w \<Longrightarrow> R w v \<Longrightarrow> P v"
    and sz_le: "R w v \<Longrightarrow> sz v \<le> sz w"
begin

lemma ends_later:
  assumes "ends_in P R m" "P w" "R w v"
  shows "wp m (\<lambda>_ u. R w u) (\<lambda>e u. R w u \<and> exn_cls e \<noteq> OutOfFuel) v"
  by (rule wp_weaken [OF ends_inD [OF assms(1) P_stays [OF assms(2,3)]]])
     (use assms(3) order_trans in blast)+

lemma ends_ret: "ends_in P R (ret x)"
  by (simp add: ends_in_def wps order_refl)

lemma ends_raise: "c \<noteq> OutOfFuel \<Longrightarrow> ends_in P R (raise c)"
  by (simp add: ends_in_def wps order_refl exn_of_def)

lemma ends_reraise: "exn_cls e \<noteq> OutOfFuel \<Longrightarrow> ends_in P R (reraise e)"
  by (simp add: ends_in_def wps order_refl)

lemma ends_gets: "ends_in P R (gets f)"
  by (simp add: ends_in_def wps order_refl)

lemma ends_lift_exn: "r \<noteq> Inl OutOfFuel \<Longrightarrow> ends_in P R (lift_exn r)"
  by (cases r) (auto intro: ends_raise ends_ret)

lemma ends_upd: "(\<And>w. P w \<Longrightarrow> R w (f w)) \<Longrightarrow> ends_in P R (upd f)"
  by (simp add: ends_in_def wps)

lemma ends_bnd:
  assumes "ends_in P R m" "\<And>a. ends_in P R (f a)"
  shows "ends_in P R (bnd m f)"
  by (rule ends_inI, simp only: wp_bnd, rule wp_weaken [OF ends_inD [OF assms(1)]])
     (auto intro: ends_later [OF assms(2)])

lemma ends_read:
  \<comment> \<open>what was read from the state comes from some state\<close>
  assumes "\<And>w. P w \<Longrightarrow> ends_in P R (f (g w))"
  shows "ends_in P R (bnd (gets g) f)"
  by (rule ends_inI, unfold wp_bnd wp_gets) (rule ends_inD [OF assms])

lemma ends_andthen: "ends_in P R m \<Longrightarrow> ends_in P R n \<Longrightarrow> ends_in P R (andthen m n)"
  by (simp add: andthen_def ends_bnd)

lemma ends_cond: "ends_in P R m \<Longrightarrow> ends_in P R n \<Longrightarrow> ends_in P R (cond c m n)"
  by (simp add: ends_in_def wps)

lemma ends_unless: "ends_in P R m \<Longrightarrow> ends_in P R (unless c m)"
  by (simp add: ends_in_def wps order_refl)

lemma ends_only_if: "ends_in P R m \<Longrightarrow> ends_in P R (only_if c m)"
  by (simp add: ends_in_def wps order_refl)

lemma ends_block_nil: "ends_in P R (block [])"
  by (simp add: ends_ret)

lemma ends_block_cons: "ends_in P R m \<Longrightarrow> ends_in P R (block ms) \<Longrightarrow> ends_in P R (block (m # ms))"
  by (cases ms) (auto simp: block.simps intro: ends_ret ends_andthen)

lemma ends_for_each: "(\<And>x. x \<in> set xs \<Longrightarrow> ends_in P R (f x)) \<Longrightarrow> ends_in P R (for_each xs f)"
  by (induction xs) (auto intro: ends_ret ends_andthen)

lemma ends_if: "ends_in P R m \<Longrightarrow> ends_in P R n \<Longrightarrow> ends_in P R (if b then m else n)"
  by simp

lemma ends_continue: "ends_in P R (continue_with l)"
  by (simp add: continue_with_def ends_ret)

lemma ends_leave: "ends_in P R (leave_with r)"
  by (simp add: leave_with_def ends_ret)

text \<open>A handler is run on exceptions other than \<open>OutOfFuel\<close> only.\<close>

lemma ends_try_except:
  assumes "ends_in P R m" "\<And>e. exn_cls e \<noteq> OutOfFuel \<Longrightarrow> ends_in P R (h e)"
  shows "ends_in P R (try_except m h)"
  by (rule ends_inI, simp only: wp_try_except, rule wp_weaken [OF ends_inD [OF assms(1)]])
     (auto intro: ends_later [OF assms(2)])

lemma ends_try_finally:
  assumes "ends_in P R m" "ends_in P R f"
  shows "ends_in P R (try_finally m f)"
  by (rule ends_inI, simp only: wp_try_finally, rule wp_weaken [OF ends_inD [OF assms(1)]])
     (auto intro: wp_weaken [OF ends_later [OF assms(2)]])

lemma ends_loop:
  fixes \<mu> :: "'l \<Rightarrow> 'w \<Rightarrow> nat"
  assumes step: "\<And>l w. P w \<Longrightarrow> J l \<Longrightarrow>
      wp (b l) (\<lambda>x v. R w v \<and> (case x of Inl l' \<Rightarrow> J l' \<and> \<mu> l' v < \<mu> l w | Inr r \<Rightarrow> True))
        (\<lambda>e v. R w v \<and> exn_cls e \<noteq> OutOfFuel) w"
    and "P w" "J l" "\<mu> l w < n"
  shows "wp (loop n b l) (\<lambda>_ v. R w v) (\<lambda>e v. R w v \<and> exn_cls e \<noteq> OutOfFuel) w"
proof (rule wp_loop_total [where J = "\<lambda>l v. R w v \<and> J l" and m = \<mu>])
  fix l v assume v: "R w v \<and> J l"
  then have "P v" using P_stays [OF assms(2)] by blast
  from step [OF this] v
  have body: "wp (b l) (\<lambda>x u. R v u \<and> (case x of Inl l' \<Rightarrow> J l' \<and> \<mu> l' u < \<mu> l v | Inr r \<Rightarrow> True))
        (\<lambda>e u. R v u \<and> exn_cls e \<noteq> OutOfFuel) v" by blast
  show "wp (b l) (\<lambda>x u. case x of Inl l' \<Rightarrow> (R w u \<and> J l') \<and> \<mu> l' u < \<mu> l v | Inr r \<Rightarrow> R w u)
        (\<lambda>e u. R w u \<and> exn_cls e \<noteq> OutOfFuel) v"
    by (rule wp_weaken [OF body]) (use v order_trans in \<open>auto split: sum.splits\<close>)
qed (use assms(3,4) order_refl in auto)

subsection \<open>Progress\<close>

lemma progress_bnd:
  assumes "progress_in P R sz Q' m" "\<And>a. Q' a \<Longrightarrow> ends_in P R (f a)"
    "\<And>a. \<not> Q' a \<Longrightarrow> progress_in P R sz Q (f a)"
  shows "progress_in P R sz Q (bnd m f)"
proof (rule progressI, unfold wp_bnd, rule wp_weaken [OF progressD [OF assms(1)]])
  fix w a v assume w: "P w" and a: "R w v \<and> (Q' a \<longrightarrow> sz v < sz w)"
  then have v: "P v" using P_stays by blast
  show "wp (f a) (\<lambda>x u. R w u \<and> (Q x \<longrightarrow> sz u < sz w)) (\<lambda>e u. R w u \<and> exn_cls e \<noteq> OutOfFuel) v"
  proof (cases "Q' a")
    case True
    show ?thesis
      by (rule wp_weaken [OF ends_inD [OF assms(2) [OF True] v]])
         (use True a order_trans sz_le in \<open>blast dest: le_less_trans\<close>)+
  next
    case False
    show ?thesis
      by (rule wp_weaken [OF progressD [OF assms(3) [OF False] v]])
         (use a order_trans sz_le in \<open>blast dest: less_le_trans\<close>)+
  qed
qed auto

lemma progress_seq:
  \<comment> \<open>nothing is required of the first program\<close>
  assumes "ends_in P R m" "\<And>a. progress_in P R sz Q (f a)"
  shows "progress_in P R sz Q (bnd m f)"
  by (rule progress_bnd [where Q' = "\<lambda>_. False"])
     (use assms in \<open>auto simp: ends_in_def progress_in_def\<close>)

lemma progress_andthen: "ends_in P R m \<Longrightarrow> progress_in P R sz Q n \<Longrightarrow> progress_in P R sz Q (andthen m n)"
  unfolding andthen_def by (rule progress_seq)

lemma progress_value:
  \<comment> \<open>what is known of the result of the first program\<close>
  assumes "ends_in P R m" "\<And>w. wp m (\<lambda>a _. V a) (\<lambda>_ _. True) w" "\<And>a. V a \<Longrightarrow> progress_in P R sz Q (f a)"
  shows "progress_in P R sz Q (bnd m f)"
proof (rule progressI, unfold wp_bnd, rule wp_weaken [OF wp_conj [OF ends_inD [OF assms(1)] assms(2)]])
  fix w a v assume w: "P w" and a: "R w v \<and> V a"
  then have v: "P v" using P_stays by blast
  show "wp (f a) (\<lambda>x u. R w u \<and> (Q x \<longrightarrow> sz u < sz w)) (\<lambda>e u. R w u \<and> exn_cls e \<noteq> OutOfFuel) v"
    by (rule wp_weaken [OF progressD [OF assms(3) v]])
       (use a order_trans sz_le in \<open>blast dest: less_le_trans\<close>)+
qed auto

lemma progress_cond:
  "progress_in P R sz Q m \<Longrightarrow> progress_in P R sz Q n \<Longrightarrow> progress_in P R sz Q (cond c m n)"
  by (simp add: progress_in_def wps)

lemma progress_leave: "progress_in P R sz isl (leave_with r)"
  by (simp add: progress_in_def wps order_refl)

lemma progress_raise: "c \<noteq> OutOfFuel \<Longrightarrow> progress_in P R sz Q (raise c)"
  by (simp add: progress_in_def wps order_refl exn_of_def)

lemma loop_progress:
  \<comment> \<open>a loop whose rounds make progress when they go on\<close>
  assumes "\<And>l. progress_in P R sz isl (b l)" "P w" "sz w < n"
  shows "wp (loop n b l) (\<lambda>_ v. R w v) (\<lambda>e v. R w v \<and> exn_cls e \<noteq> OutOfFuel) w"
proof (rule ends_loop [where \<mu> = "\<lambda>_. sz" and J = "\<lambda>_. True"])
  fix l v assume "P v"
  show "wp (b l) (\<lambda>x u. R v u \<and> (case x of Inl l' \<Rightarrow> True \<and> sz u < sz v | Inr r \<Rightarrow> True))
      (\<lambda>e u. R v u \<and> exn_cls e \<noteq> OutOfFuel) v"
    by (rule wp_weaken [OF progressD [OF assms(1) \<open>P v\<close>]]) (auto split: sum.splits)
qed (use assms(2,3) in auto)

lemma ends_fuel_loop:
  assumes "\<And>l. progress_in P R sz isl (b l)" "\<And>w. P w \<Longrightarrow> sz w < n w"
  shows "ends_in P R (bnd (gets n) (\<lambda>k. loop k b l))"
  by (rule ends_inI, unfold wp_bnd wp_gets, rule loop_progress) (use assms in auto)

lemmas ends_rules =
  ends_ret ends_raise ends_reraise ends_gets ends_lift_exn ends_bnd ends_andthen ends_cond
  ends_unless ends_only_if ends_block_nil ends_block_cons ends_for_each ends_if ends_continue
  ends_leave ends_try_except ends_try_finally

end

end
