(* ===== verification/SslFuel.thy ===== *)
theory SslFuel
  imports SslOver Fueled Session
begin

text \<open>
  The loops of the TLS transport end. Each round of a loop around the engine that goes on has used
  an answer of OpenSSL, or is the last; and a transport that has begun to shut down stays so, which
  bounds the recursion of \<open>_start_shutdown\<close>. So the fuel of the model is never used up, whatever
  the state, the answers and the callbacks.
\<close>

section \<open>Progress\<close>

text \<open>
  \<open>calm\<close>: what the engine and the output do. \<open>later\<close>: what everything else does too.
\<close>

text \<open>The answers of OpenSSL that are left.\<close>

definition answers :: "'a ssl_engine_scheme \<Rightarrow> nat" where
  "answers w = length (e_script w)"

definition ending :: "'a ssl_transport_scheme \<Rightarrow> bool" where
  "ending w = (x_state w \<in> {FLUSHING, SHUTDOWN, UNWRAPPED})"

definition later :: "'a ssl_transport_scheme \<Rightarrow> 'a ssl_transport_scheme \<Rightarrow> bool" where
  "later w v = (answers v \<le> answers w \<and> (ending w \<longrightarrow> ending v))"

definition calm :: "'a ssl_transport_scheme \<Rightarrow> 'a ssl_transport_scheme \<Rightarrow> bool" where
  "calm w v =
     (answers v \<le> answers w \<and> x_state v = x_state w \<and> e_direct v = e_direct w \<and>
      length (x_backlog v) = length (x_backlog w))"

lemma calm_later: "calm w v \<Longrightarrow> later w v"
  by (simp add: calm_def later_def ending_def)

interpretation ca: fueled calm "\<lambda>_. True" answers
  by unfold_locales (auto simp: calm_def answers_def)

interpretation la: fueled later "\<lambda>_. True" answers
  by unfold_locales (auto simp: later_def)

interpretation en: fueled later ending answers
  by unfold_locales (auto simp: later_def)

abbreviation calmly :: "('a ssl_transport_scheme, 'b) prog \<Rightarrow> bool" where
  "calmly m \<equiv> ends_in (\<lambda>_. True) calm m"

abbreviation ends :: "('a ssl_transport_scheme, 'b) prog \<Rightarrow> bool" where
  "ends m \<equiv> ends_in (\<lambda>_. True) later m"

lemma calmly_ends: "calmly m \<Longrightarrow> ends m"
  by (erule ends_weaken) (auto intro: calm_later)

lemma ends_ending: "ends m \<Longrightarrow> ends_in ending later m"
  by (erule ends_weaken) auto

lemma ends_stop: "ends m \<Longrightarrow> terminates m w"
  by (erule ends_terminates) simp

text \<open>\<open>progress Q m\<close>: where the result satisfies \<open>Q\<close>, an answer was used.\<close>

abbreviation progress :: "('b \<Rightarrow> bool) \<Rightarrow> ('a ssl_transport_scheme, 'b) prog \<Rightarrow> bool" where
  "progress Q m \<equiv> progress_in (\<lambda>_. True) calm answers Q m"

abbreviation used :: "'a ssl_transport_scheme \<Rightarrow> 'a ssl_transport_scheme \<Rightarrow> bool" where
  "used w v \<equiv> answers v < answers w"

lemma used_calm: "used w v \<Longrightarrow> calm v u \<Longrightarrow> used w u"
  by (simp add: calm_def)

lemma calm_used: "calm w v \<Longrightarrow> used v u \<Longrightarrow> used w u"
  by (simp add: calm_def)

section \<open>Exceptions\<close>

lemma make_exc_fuel: "make_exc_from_ssl_error a \<noteq> OutOfFuel"
  by (simp add: make_exc_from_ssl_error_def split: ssl_error.splits)

lemma os_fuel: "ConnectionResetError \<noteq> OutOfFuel" "BrokenPipeError \<noteq> OutOfFuel"
  by (simp_all add: os_error_defs)

lemma failed_fuel:
  "direct_read_failed a \<noteq> Inl OutOfFuel" "direct_write_failed a \<noteq> Inl OutOfFuel"
  "direct_sendfile_failed a \<noteq> Inl OutOfFuel" "translate_ssl_error a \<noteq> Inl OutOfFuel"
  by (auto simp: direct_read_failed_def direct_write_failed_def direct_sendfile_failed_def
      translate_ssl_error_def make_exc_fuel os_fuel split: ssl_error.splits)

lemma buf_fuel:
  "py_len d \<noteq> Inl OutOfFuel" "aiofn_unpack_simple_buffer wr d \<noteq> Inl OutOfFuel"
  "aiofn_maybe_copy_buffer d \<noteq> Inl OutOfFuel" "aiofn_validate_buffer d \<noteq> Inl OutOfFuel"
proof -
  show "py_len d \<noteq> Inl OutOfFuel" by (cases d rule: py_len.cases) auto
  show "aiofn_unpack_simple_buffer wr d \<noteq> Inl OutOfFuel" using unpack_ok_class [of wr d] by auto
qed (auto simp: aiofn_maybe_copy_buffer_def aiofn_validate_buffer_def split: pybuf.splits bool.splits option.splits)

lemmas fuel_simps = make_exc_fuel os_fuel failed_fuel buf_fuel exn_of_def

lemma sys_write_calm: "calmly (sys_write bs)"
  using aiofn_write_error_class
  by (auto simp: ends_in_def wp_def sys_write_def calm_def answers_def exn_of_def split: prod.splits sum.splits)

lemma sys_read_calm: "calmly (sys_read n)"
  using aiofn_read_stream_err
  by (auto simp: ends_in_def wp_def sys_read_def calm_def answers_def exn_of_def split: prod.splits sum.splits)

section \<open>The engine\<close>

text \<open>The answer of a call used up the script unless the call wants to read.\<close>

lemma ssl_call_progress: "progress (\<lambda>a. sa_rc a \<ge> 0 \<or> sa_err a \<noteq> SSL_ERROR_WANT_READ) ssl_call"
  by (auto simp: progress_in_def wp_def ssl_call_def ssl_effect_def calm_def answers_def want_read_answer_def
      sa_err_def split: list.splits option.splits)

lemma call_then:
  \<comment> \<open>a call of OpenSSL followed by what the engine makes of the answer\<close>
  assumes "\<And>a v. wp (f a) (\<lambda>x u. calm v u \<and> (Q x \<longrightarrow> used v u \<or> sa_rc a \<ge> 0 \<or> sa_err a \<noteq> SSL_ERROR_WANT_READ))
      (\<lambda>e u. calm v u \<and> exn_cls e \<noteq> OutOfFuel) v"
  shows "progress Q (bnd ssl_call f)"
  proof (rule progressI, unfold wp_bnd, rule wp_weaken [OF progressD [OF ssl_call_progress TrueI]])
  fix w v :: "'a ssl_transport_scheme" and a
  assume a: "calm w v \<and> (sa_rc a \<ge> 0 \<or> sa_err a \<noteq> SSL_ERROR_WANT_READ \<longrightarrow> used w v)"
  show "wp (f a) (\<lambda>x u. calm w u \<and> (Q x \<longrightarrow> used w u)) (\<lambda>e u. calm w u \<and> exn_cls e \<noteq> OutOfFuel) v"
    by (rule wp_weaken [OF assms]) (use a used_calm calm_used ca.order_trans in blast)+
qed auto

lemma engine_do_handshake_progress: "progress (\<lambda>err. err \<noteq> SSL_ERROR_WANT_READ) engine_do_handshake"
  unfolding engine_do_handshake_def direct_do_handshake_def fallback_do_handshake_def
  by (intro ca.progress_cond call_then)
     (auto simp: wps ca.order_refl fuel_simps translate_ssl_error_def split: ssl_error.splits sum.splits)

lemma engine_shutdown_progress: "progress (\<lambda>err. err \<noteq> SSL_ERROR_WANT_READ) engine_shutdown"
  unfolding engine_shutdown_def direct_shutdown_def fallback_shutdown_def
  by (intro ca.progress_cond call_then)
     (auto simp: wps ca.order_refl fuel_simps translate_ssl_error_def split: ssl_error.splits sum.splits)

text \<open>The loops inside a read and a write: every round fills or sends at least one byte.\<close>

lemma filling_progress:
  fixes size :: "'l \<Rightarrow> nat" and b :: "'l \<Rightarrow> ('a ssl_transport_scheme, 'l + 'r) prog"
  assumes body: "\<And>l v. size l \<le> size l0 \<Longrightarrow> K l \<Longrightarrow>
      wp (b l)
        (\<lambda>x u. calm v u \<and> (case x of
            Inl l' \<Rightarrow> used v u \<and> size l' < size l \<and> K l'
          | Inr r \<Rightarrow> Q r \<longrightarrow> used v u \<or> size l < size l0))
        (\<lambda>e u. calm v u \<and> exn_cls e \<noteq> OutOfFuel) v"
    and "size l0 < n" "K l0"
  shows "progress Q (loop n b l0)"
  proof (rule progressI, rule wp_loop_total [where
      J = "\<lambda>l v. calm w v \<and> size l \<le> size l0 \<and> K l \<and> (size l < size l0 \<longrightarrow> used w v)" and m = "\<lambda>l _. size l" for w])
  fix w v :: "'a ssl_transport_scheme" and l
  assume J: "calm w v \<and> size l \<le> size l0 \<and> K l \<and> (size l < size l0 \<longrightarrow> used w v)"
  show "wp (b l)
      (\<lambda>x u. case x of
          Inl l' \<Rightarrow> (calm w u \<and> size l' \<le> size l0 \<and> K l' \<and> (size l' < size l0 \<longrightarrow> used w u)) \<and> size l' < size l
        | Inr r \<Rightarrow> calm w u \<and> (Q r \<longrightarrow> used w u))
      (\<lambda>e u. calm w u \<and> exn_cls e \<noteq> OutOfFuel) v"
    by (rule wp_weaken [OF body])
       (use J in \<open>auto intro: ca.order_trans used_calm calm_used split: sum.splits\<close>)
qed (use assms(2,3) ca.order_refl in auto)

lemma call_round:
  assumes "\<And>a u. calm v u \<Longrightarrow> (sa_rc a \<ge> 0 \<or> sa_err a \<noteq> SSL_ERROR_WANT_READ \<Longrightarrow> used v u) \<Longrightarrow> Q a u"
  shows "wp ssl_call Q E v"
proof (rule wp_weaken [OF wp_conj [OF progressD [OF ssl_call_progress TrueI]]])
  show "wp ssl_call (\<lambda>_ _. True) (\<lambda>_ _. False) v" by (simp add: wp_def ssl_call_def split: list.splits)
qed (use assms in auto)

lemmas round_simps = wps Let_def ca.order_refl fuel_simps accept_plain_def

lemma accept_calm: "calmly (accept_plain bs)"
  unfolding accept_plain_def by (rule ca.ends_upd) (simp add: calm_def answers_def)

lemma direct_read_progress:
  "0 < n \<Longrightarrow> progress (\<lambda>(err, data). err \<noteq> SSL_ERROR_WANT_READ \<or> data \<noteq> []) (direct_read n)"
  unfolding direct_read_def
  by (rule filling_progress [where size = fst and K = "\<lambda>(k, got). k + length got = n"])
     (auto simp: direct_read_step_def round_simps direct_read_failed_def intro!: call_round split: sum.splits if_splits)

lemma fallback_read_progress:
  "0 < n \<Longrightarrow> progress (\<lambda>(err, data). err \<noteq> SSL_ERROR_WANT_READ \<or> data \<noteq> []) (fallback_read n)"
  unfolding fallback_read_def
  by (rule filling_progress [where size = fst and K = "\<lambda>(k, got). k + length got = n"])
     (auto simp: fallback_read_step_def round_simps translate_ssl_error_def intro!: call_round
       split: sum.splits if_splits ssl_error.splits)

lemma direct_write_progress: "progress (\<lambda>(err, n). err \<noteq> SSL_ERROR_WANT_READ \<and> err \<noteq> SSL_ERROR_NONE) (direct_write data)"
  unfolding direct_write_def
  by (rule filling_progress [where size = "\<lambda>(rest, _). length rest" and K = "\<lambda>_. True"])
     (auto simp: direct_write_step_def round_simps direct_write_failed_def calm_def answers_def intro!: call_round
       split: sum.splits if_splits)

lemma direct_sendfile_progress:
  "progress (\<lambda>(err, n). err \<noteq> SSL_ERROR_WANT_READ \<and> err \<noteq> SSL_ERROR_NONE) (direct_sendfile fd offset count)"
  unfolding direct_sendfile_def
  by (rule filling_progress [where size = "\<lambda>(_, count, _). nat count" and K = "\<lambda>_. True"])
     (auto simp: direct_sendfile_step_def round_simps direct_sendfile_failed_def calm_def answers_def intro!: call_round
       split: sum.splits if_splits)

section \<open>Output\<close>

lemma flag_calm:
  "calmly (upd (\<lambda>w. w\<lparr>x_had_eagain := b\<rparr>) :: ('a ssl_transport_scheme, unit) prog)"
  "calmly (upd (\<lambda>w. w\<lparr>x_writer := b\<rparr>) :: ('a ssl_transport_scheme, unit) prog)"
  "calmly (upd (\<lambda>w. w\<lparr>x_size := f w\<rparr>) :: ('a ssl_transport_scheme, unit) prog)"
  by (auto intro!: ca.ends_upd simp: calm_def answers_def)

lemma loop_calm:
  "calmly (add_reader :: ('a ssl_transport_scheme, unit) prog)"
  "calmly (remove_reader :: ('a ssl_transport_scheme, unit) prog)"
  "calmly (add_writer :: ('a ssl_transport_scheme, unit) prog)"
  "calmly (remove_writer :: ('a ssl_transport_scheme, unit) prog)"
  "calmly (log ob :: ('a ssl_transport_scheme, unit) prog)"
  "calmly (call_soon s :: ('a ssl_transport_scheme, unit) prog)"
  unfolding add_reader_def remove_reader_def add_writer_def remove_writer_def log_def call_soon_def
  by (auto intro!: ca.ends_upd simp: calm_def answers_def)

lemma ensure_writer_calm: "calmly ensure_writer"
  unfolding ensure_writer_def by (intro ca.ends_rules flag_calm loop_calm)

lemma drop_writer_calm: "calmly drop_writer"
  unfolding drop_writer_def by (intro ca.ends_rules flag_calm loop_calm)

lemma bio_calm: "calmly outgoing_bio_get_data" "calmly (outgoing_bio_consume n)"
  "calmly incoming_bio_get_write_buf" "calmly (incoming_bio_produce bs)" "calmly outgoing_bio_pending"
  unfolding outgoing_bio_get_data_def direct_outgoing_bio_get_data_def outgoing_bio_consume_def
    direct_outgoing_bio_consume_def incoming_bio_get_write_buf_def direct_incoming_bio_get_write_buf_def
    incoming_bio_produce_def direct_incoming_bio_produce_def outgoing_bio_pending_def
    direct_outgoing_bio_pending_def
  by (auto intro!: ca.ends_rules ca.ends_upd simp: calm_def answers_def Let_def split: option.splits prod.splits)

lemma flush_calm: "calmly socket_flush_outgoing_bio"
  unfolding socket_flush_outgoing_bio_def
  by (intro ca.ends_rules bio_calm sys_write_calm ensure_writer_calm)

lemma retry_calm: "calmly socket_retry_after_want_write"
  unfolding socket_retry_after_want_write_def by (intro ca.ends_rules flush_calm ensure_writer_calm)

lemma retry_fallback:
  \<comment> \<open>an engine of the \<open>ssl\<close> module has no outgoing BIO that the socket transport could flush\<close>
  "\<not> e_direct w \<Longrightarrow> wp socket_retry_after_want_write (\<lambda>again _. \<not> again) (\<lambda>_ _. True) w"
  by (simp add: socket_retry_after_want_write_def socket_flush_outgoing_bio_def ssl_outgoing_use_membio_def
      outgoing_bio_get_data_def wps)

text \<open>
  A write of the fallback engine may ask for a flush without a call when there is no room; the
  socket transport cannot flush then, so the loop is left.
\<close>

definition want_flush :: "'a ssl_transport_scheme \<Rightarrow> ssl_error \<Rightarrow> bool" where
  "want_flush w err = (\<not> e_direct w \<and> err = SSL_ERROR_WANT_WRITE)"

lemma engine_write_uses:
  "wp (engine_write mem)
     (\<lambda>(err, n) v. calm w v \<and>
        (err \<noteq> SSL_ERROR_WANT_READ \<and> err \<noteq> SSL_ERROR_NONE \<longrightarrow> used w v \<or> want_flush v err))
     (\<lambda>e v. calm w v \<and> exn_cls e \<noteq> OutOfFuel) w"
proof (cases "e_direct w")
  case True
  show ?thesis
    unfolding engine_write_def wp_cond
    using True by (auto intro: wp_weaken [OF progressD [OF direct_write_progress TrueI]])
next
  case False
  then show ?thesis
    unfolding engine_write_def fallback_write_def
    by (auto simp: round_simps translate_ssl_error_def calm_def answers_def want_flush_def intro!: call_round
        split: sum.splits if_splits ssl_error.splits)
qed

lemma retry_wp:
  "wp socket_retry_after_want_write
     (\<lambda>again u. calm v u \<and> (again \<longrightarrow> e_direct v)) (\<lambda>e u. calm v u \<and> exn_cls e \<noteq> OutOfFuel) v"
  using wp_conj [OF ends_inD [OF retry_calm TrueI] retry_fallback, of v] ends_inD [OF retry_calm TrueI, of v]
  by (cases "e_direct v") (auto elim: wp_weaken)

lemma write_impl_calm: "calmly (write_impl (socket_methods apps) data mem)"
  unfolding write_impl_def
proof (rule ca.ends_fuel_loop)
  have retry: "v_retry_after_want_write (socket_methods apps) = socket_retry_after_want_write"
    by (simp add: socket_methods_def)
  show "progress isl (write_impl_step (socket_methods apps) data l)" for l
    unfolding write_impl_step_def retry Let_def
  proof (rule progressI, unfold wp_bnd, rule wp_weaken [OF engine_write_uses])
  qed (auto simp: wps want_flush_def calm_def intro!: wp_weaken [OF retry_wp])
qed (simp add: ssl_fuel_def answers_def)

lemma engine_sendfile_progress:
  "progress (\<lambda>(err, n). err \<noteq> SSL_ERROR_WANT_READ \<and> err \<noteq> SSL_ERROR_NONE) (engine_sendfile fd offset count)"
  unfolding engine_sendfile_def
  by (intro ca.progress_cond direct_sendfile_progress)
     (simp add: progress_in_def wps ca.order_refl fuel_simps)

lemma try_sendfile_calm:
  assumes "\<And>r. calmly (sync r)"
  shows "calmly (socket_try_sendfile sync r)"
  unfolding socket_try_sendfile_def
proof (rule ca.ends_fuel_loop)
  show "progress isl (socket_try_sendfile_step sync l)" for l
    unfolding socket_try_sendfile_step_def
    by (rule ca.progress_bnd [OF engine_sendfile_progress])
       (auto simp: Let_def intro!: ca.ends_rules retry_calm assms ca.progress_leave ca.progress_andthen
         split: ssl_error.split)
qed (simp add: ssl_fuel_def answers_def)

section \<open>Draining the backlog\<close>

lemma fut_set_calm: "calmly (fut_set i f :: ('a ssl_transport_scheme, unit) prog)"
  unfolding fut_set_def by (intro ca.ends_rules ca.ends_upd) (simp_all add: calm_def answers_def)

lemma sync_calm: "calmly (sync_at i r)"
  unfolding sync_at_def by (rule ca.ends_upd) (simp add: calm_def answers_def)

lemma complete_calm: "calmly (complete_transfer r)"
  unfolding complete_transfer_def
  by (auto intro!: ca.ends_rules fut_set_calm split: option.split)

lemma item_upd_calm:
  "calmly (upd (\<lambda>w. w\<lparr>x_size := f w, x_backlog := (x_backlog w)[i := t]\<rparr>) :: ('a ssl_transport_scheme, unit) prog)"
  by (rule ca.ends_upd) (simp add: calm_def answers_def)

lemma flush_item_calm: "calmly (flush_item (socket_methods apps) i it)"
proof (cases it)
  case (TlsData d)
  show ?thesis
    unfolding flush_item_def TlsData tls_item.case
    by (auto intro!: ca.ends_rules write_impl_calm flag_calm item_upd_calm simp: buf_fuel split: option.split)
next
  case (TlsFile r)
  have "v_try_sendfile (socket_methods apps) = socket_try_sendfile" by (simp add: socket_methods_def)
  then show ?thesis
    unfolding flush_item_def TlsFile tls_item.case
    by (auto intro!: ca.ends_rules try_sendfile_calm flag_calm sync_calm complete_calm)
qed

lemma backlog_loop_calm:
  "calmly (bnd (gets (\<lambda>w. length (x_backlog w) + ssl_fuel w))
     (\<lambda>n. loop n (flush_backlog_step (socket_methods apps)) 0))"
proof (rule ends_inI, unfold wp_bnd wp_gets)
  fix w :: "'a ssl_transport_scheme"
  have step: "wp (flush_backlog_step (socket_methods apps) i)
      (\<lambda>x u. calm v u \<and> (case x of
          Inl i' \<Rightarrow> True \<and> length (x_backlog u) - i' < length (x_backlog v) - i | Inr r \<Rightarrow> True))
      (\<lambda>e u. calm v u \<and> exn_cls e \<noteq> OutOfFuel) v" for i and v :: "'a ssl_transport_scheme"
    unfolding flush_backlog_step_def wp_bnd wp_gets
    by (auto simp: wps ca.order_refl calm_def intro!: wp_weaken [OF ends_inD [OF flush_item_calm TrueI]])
  show "wp (loop (length (x_backlog w) + ssl_fuel w) (flush_backlog_step (socket_methods apps)) 0)
      (\<lambda>_ v. calm w v) (\<lambda>e v. calm w v \<and> exn_cls e \<noteq> OutOfFuel) w"
    by (rule ca.ends_loop [where \<mu> = "\<lambda>i v. length (x_backlog v) - i" and J = "\<lambda>_. True"])
       (use step in \<open>simp_all add: ssl_fuel_def\<close>)
qed

section \<open>Applications\<close>

definition app_ends :: "'a ssl_transport_scheme app \<Rightarrow> bool" where
  "app_ends a =
     (ends (on_connection_made a) \<and> (\<forall>e. ends (on_connection_lost a e)) \<and>
      (\<forall>d. ends (on_data_received a d)) \<and> ends (on_eof_received a) \<and>
      (\<forall>n. ends (on_get_buffer a n)) \<and> (\<forall>n. ends (on_buffer_updated a n)) \<and>
      ends (on_pause_writing a) \<and> ends (on_resume_writing a) \<and> ends (on_local_write_buffer_size a))"

lemma set_state_ends:
  assumes "s \<noteq> DO_HANDSHAKE"
  shows "ends (set_state s :: ('a ssl_transport_scheme, unit) prog)"
proof (rule ends_inI)
  fix w :: "'a ssl_transport_scheme"
  show "wp (set_state s) (\<lambda>_ v. later w v) (\<lambda>e v. later w v \<and> exn_cls e \<noteq> OutOfFuel) w"
    using assms
    by (cases "(x_state w, s)" rule: transition_allowed.cases)
       (simp_all add: set_state_def wps later_def answers_def ending_def exn_of_def)
qed

lemma ends_same:
  assumes "\<And>w. x_state (f w) = x_state w" "\<And>w. e_script (f w) = e_script w"
  shows "ends (upd f :: ('a ssl_transport_scheme, unit) prog)"
  by (rule la.ends_upd) (simp add: later_def answers_def ending_def assms)

lemmas loop_ends = loop_calm [THEN calmly_ends] flag_calm [THEN calmly_ends] bio_calm [THEN calmly_ends]
  fut_set_calm [THEN calmly_ends] flush_calm [THEN calmly_ends] retry_calm [THEN calmly_ends]
  drop_writer_calm [THEN calmly_ends] sys_read_calm [THEN calmly_ends] write_impl_calm [THEN calmly_ends]

lemma socket_table [simp]:
  "v_flush_outgoing (socket_methods apps) = socket_flush_outgoing_bio"
  "v_retry_after_want_write (socket_methods apps) = socket_retry_after_want_write"
  "v_flush_after_read (socket_methods apps) = (\<lambda>w. \<not> x_writer w)"
  "v_maybe_pause (socket_methods apps) = socket_maybe_pause apps"
  "v_maybe_resume (socket_methods apps) = socket_maybe_resume apps"
  "v_force_close_ssl (socket_methods apps) = socket_force_close"
  "v_try_sendfile (socket_methods apps) = socket_try_sendfile"
  by (simp_all add: socket_methods_def)

lemma handler_ends: "ends (call_exception_handler msg e ctx :: ('a ssl_transport_scheme, unit) prog)"
  unfolding call_exception_handler_def by (rule loop_ends)

lemma check_thread_ends: "ends (check_thread :: ('a ssl_transport_scheme, unit) prog)"
  unfolding check_thread_def by (intro la.ends_rules) simp

lemma clear_backlog_ends: "ends (ssl_clear_write_backlog exc)"
proof -
  have "ends (release_ssl_waiter exc it)" for it
    unfolding release_ssl_waiter_def
    by (auto intro!: la.ends_rules loop_ends split: tls_item.split option.split)
  then show ?thesis
    unfolding ssl_clear_write_backlog_def by (intro la.ends_rules ends_same) simp_all
qed

lemma force_close_ends: "ends (socket_force_close exc)"
  unfolding socket_force_close_def schedule_finalize_close_def
  by (intro la.ends_rules loop_ends clear_backlog_ends ends_same) simp_all

lemma ssl_fatal_error_ends: "ends (ssl_fatal_error (socket_methods apps) e msg)"
  unfolding ssl_fatal_error_def socket_table
  by (intro la.ends_rules force_close_ends handler_ends)

lemma wakeup_waiter_ends: "ends (wakeup_waiter exc)"
  unfolding wakeup_waiter_def by (auto intro!: la.ends_rules loop_ends split: option.split)

lemma abort_with_ends: "ends (abort_with (socket_methods apps) exc)"
  unfolding abort_with_def socket_table
  by (intro la.ends_rules force_close_ends set_state_ends) simp

lemma shutdown_complete_ends: "ends (on_shutdown_complete (socket_methods apps) exc)"
  unfolding on_shutdown_complete_def socket_table
  by (auto intro!: la.ends_rules ssl_fatal_error_ends ends_same force_close_ends split: option.split)

lemma no_close_ends: "ends (fatal_error_no_close e msg)"
  unfolding fatal_error_no_close_def by (intro la.ends_rules handler_ends)

lemma read_progress:
  assumes "0 < n"
  shows "progress_in P later answers (\<lambda>(err, data). err \<noteq> SSL_ERROR_WANT_READ \<or> data \<noteq> []) (engine_read n)"
proof (rule progress_weaken)
  show "progress (\<lambda>(err, data). err \<noteq> SSL_ERROR_WANT_READ \<or> data \<noteq> []) (engine_read n)"
    unfolding engine_read_def
    by (intro ca.progress_cond direct_read_progress fallback_read_progress assms)
qed (auto intro: calm_later)

lemma handshake_progress: "progress_in P later answers (\<lambda>err. err \<noteq> SSL_ERROR_WANT_READ) engine_do_handshake"
  by (rule progress_weaken [OF engine_do_handshake_progress]) (auto intro: calm_later)

lemma shutdown_progress: "progress_in P later answers (\<lambda>err. err \<noteq> SSL_ERROR_WANT_READ) engine_shutdown"
  by (rule progress_weaken [OF engine_shutdown_progress]) (auto intro: calm_later)

lemma fuel_enough: "answers w < ssl_fuel w"
  by (simp add: ssl_fuel_def answers_def)

lemma bnd_ret: "bnd (ret a) f = f a"
  by (rule ext) (simp add: run)

lemma bnd_assoc: "bnd (bnd m f) g = bnd m (\<lambda>a. bnd (f a) g)"
  by (rule ext) (simp add: run split: prod.split sum.split)

locale fueled_apps =
  fixes apps :: "nat \<Rightarrow> 'a ssl_transport_scheme app"
  assumes apps_end: "app_ends (apps p)"
begin

abbreviation vt :: "'a ssl_transport_scheme ssl_methods" where
  "vt \<equiv> socket_methods apps"

lemma cb:
  "ends (on_connection_made (apps p))" "ends (on_connection_lost (apps p) e)"
  "ends (on_data_received (apps p) d)" "ends (on_eof_received (apps p))"
  "ends (on_get_buffer (apps p) n)" "ends (on_buffer_updated (apps p) n)"
  "ends (on_pause_writing (apps p))" "ends (on_resume_writing (apps p))"
  "ends (on_local_write_buffer_size (apps p))"
  using apps_end [of p] by (simp_all add: app_ends_def)

lemma protocol_ends:
  assumes "\<And>p. ends (f (apps p))"
  shows "ends (call_protocol apps ob f)" "ends (call_protocol_c apps ob f)"
  using assms unfolding call_protocol_c_def call_protocol_def
  by (auto intro!: la.ends_rules loop_ends split: option.split)

lemma info_ends: "exn_cls e \<noteq> OutOfFuel \<Longrightarrow> ends (aiofn_add_info_and_reraise info e)"
  unfolding aiofn_add_info_and_reraise_def by (rule la.ends_reraise) simp

lemma received_ends: "ends (call_protocol_data_received apps d)" "ends (call_protocol_buffer_updated apps d)"
  "ends (call_protocol_eof_received apps)" "ends (call_protocol_get_buffer apps)"
  "ends (call_protocol_connection_made apps)"
  unfolding call_protocol_data_received_def call_protocol_buffer_updated_def call_protocol_eof_received_def
    call_protocol_get_buffer_def call_protocol_connection_made_def
  by (intro la.ends_rules protocol_ends cb info_ends ends_same buf_fuel; simp)+

lemma eof_ends: "ends (ssl_eof_received apps)"
  unfolding ssl_eof_received_def by (intro la.ends_rules received_ends loop_ends)

lemma made_ends: "ends (ssl_connection_made apps)"
  unfolding ssl_connection_made_def by (intro la.ends_rules received_ends no_close_ends)

lemma lost_ends: "ends (ssl_connection_lost apps exc)"
  unfolding ssl_connection_lost_def connection_lost_callback_def
  by (auto intro!: la.ends_rules loop_ends cb no_close_ends ends_same split: option.split)

lemma app_read:
  assumes "\<And>p. ends (f (Some (apps p)))" "ends (f None)"
  shows "ends (bnd (gets (current_app apps)) f)"
proof (rule la.ends_read)
  fix w :: "'a ssl_transport_scheme"
  show "ends (f (current_app apps w))"
    by (cases "t_protocol w") (simp_all add: assms current_app_def)
qed

lemma buffer_size_ends: "ends (socket_write_buffer_size apps)"
  unfolding socket_write_buffer_size_def
  by (intro la.ends_andthen check_thread_ends la.ends_bnd [OF la.ends_gets] la.ends_cond app_read)
     (auto intro!: la.ends_rules cb)

lemma flow_ends:
  assumes "case proto of None \<Rightarrow> True | Some a \<Rightarrow> ends (f a)"
  shows "ends (call_flow ob f msg ctx proto)"
  using assms unfolding call_flow_def
  by (auto intro!: la.ends_rules loop_ends handler_ends split: option.split)

lemma pause_ends:
  assumes "case proto of None \<Rightarrow> True | Some a \<Rightarrow> app_ends a"
  shows "ends (maybe_pause_protocol_raw x_watermarks x_watermarks_update proto n)"
    "ends (maybe_resume_protocol_raw x_watermarks x_watermarks_update proto n)"
  unfolding maybe_pause_protocol_raw_def maybe_resume_protocol_raw_def
  by (intro la.ends_rules ends_same flow_ends; use assms in \<open>simp add: app_ends_def split: option.splits\<close>)+

lemma flow_control_ends: "ends (socket_maybe_pause apps)" "ends (socket_maybe_resume apps)"
  unfolding socket_maybe_pause_def socket_maybe_resume_def
  by (intro app_read la.ends_bnd [OF buffer_size_ends] pause_ends; simp add: apps_end)+

lemma set_limits_ends: "ends (socket_set_write_buffer_limits apps high low)"
proof -
  have "ends (bnd (gets (\<lambda>w. set_write_buffer_limits_raw high low (x_watermarks w)))
      (\<lambda>r. bnd (lift_exn r) (\<lambda>wm. upd (x_watermarks_update (\<lambda>_. wm)))) :: ('a ssl_transport_scheme, unit) prog)"
    by (rule la.ends_read, intro la.ends_bnd la.ends_lift_exn ends_same)
       (simp_all add: set_write_buffer_limits_raw_def Let_def)
  then show ?thesis
    unfolding socket_set_write_buffer_limits_def set_write_buffer_limits_wm_def
    by (intro la.ends_andthen check_thread_ends app_read la.ends_bnd [OF buffer_size_ends] la.ends_block_cons
        la.ends_block_nil pause_ends) (simp_all add: apps_end)
qed

section \<open>Shutdown\<close>

lemma flush_backlog_ends: "ends (flush_write_backlog vt)"
proof -
  have "ends (bnd (bnd (gets (\<lambda>w. length (x_backlog w) + ssl_fuel w)) (\<lambda>n. loop n (flush_backlog_step vt) 0))
      (\<lambda>items_completed.
           block [
             andthen (v_flush_outgoing vt) (ret ()),
             upd (\<lambda>w. w\<lparr>x_backlog := drop items_completed (x_backlog w)\<rparr>),
             v_maybe_resume vt]))"
    unfolding socket_table
    by (intro la.ends_rules calmly_ends [OF backlog_loop_calm] calmly_ends [OF flush_calm] ends_same flow_control_ends)
       simp_all
  then show ?thesis
    unfolding flush_write_backlog_def by (intro la.ends_unless) (simp only: bnd_assoc)
qed

lemma no_retry: "bnd (should_retry_read apps vt sh SSL_ERROR_WANT_READ) f = f False"
  by (simp add: should_retry_read_def bnd_ret)

lemma retry_read_in:
  assumes "ends_in ending later sh"
  shows "ends_in ending later (should_retry_read apps vt sh err)"
  using assms unfolding should_retry_read_def socket_table
  by (auto intro!: en.ends_rules ends_ending [OF eof_ends] ends_ending [OF calmly_ends [OF retry_calm]]
      split: ssl_error.split)

lemma read_into_void_ends:
  assumes "ends_in ending later sh"
  shows "ends_in ending later (do_read_into_void apps vt sh)"
  unfolding do_read_into_void_def
proof (rule en.ends_fuel_loop [OF _ fuel_enough])
  show "progress_in ending later answers isl (read_into_void_step apps vt sh l)" for l
    unfolding read_into_void_step_def
  proof (rule en.progress_bnd [OF read_progress])
    fix a :: "ssl_error \<times> bytes"
    assume "\<not> (case a of (err, data) \<Rightarrow> err \<noteq> SSL_ERROR_WANT_READ \<or> data \<noteq> [])"
    then obtain data where a: "a = (SSL_ERROR_WANT_READ, data)" by (cases a) simp
    show "progress_in ending later answers isl (case a of (err, _) \<Rightarrow>
        if err = SSL_ERROR_NONE then continue_with ()
        else bnd (should_retry_read apps vt sh err) (\<lambda>again. if again then continue_with () else leave_with ()))"
      by (simp only: a prod.case no_retry if_False ssl_error.distinct en.progress_leave)
  qed (auto intro!: en.ends_rules retry_read_in assms)
qed

lemma do_shutdown_ends:
  assumes "ends_in ending later sh"
  shows "ends_in ending later (do_shutdown apps vt sh)"
proof -
  have "progress_in ending later answers isl (do_shutdown_step vt l)" for l
    unfolding do_shutdown_step_def socket_table
    by (rule en.progress_bnd [OF shutdown_progress])
       (auto intro!: en.ends_rules ends_ending [OF calmly_ends [OF flush_calm]]
         ends_ending [OF calmly_ends [OF retry_calm]] ends_ending [OF shutdown_complete_ends] en.progress_leave
         en.progress_andthen split: ssl_error.split)
  then show ?thesis
    unfolding do_shutdown_def
    by (intro en.ends_block_cons en.ends_block_nil read_into_void_ends assms en.ends_fuel_loop fuel_enough)
qed

lemma do_flush_ends:
  assumes "ends_in ending later sh"
  shows "ends_in ending later (do_flush apps vt sh)"
proof -
  have "ends (get_local_write_buffer_size apps)"
    unfolding get_local_write_buffer_size_def
    by (auto intro!: la.ends_rules cb loop_ends split: option.split)
  then show ?thesis
    unfolding do_flush_def
    by (intro en.ends_rules read_into_void_ends do_shutdown_ends assms ends_ending [OF flush_backlog_ends]
        ends_ending [OF set_state_ends] ends_ending) simp_all
qed

lemma shutdown_again_ends: "ends_in ending later (start_shutdown_level (Suc n) apps vt)"
  by (simp add: ends_in_def wps ending_def la.order_refl)

lemma start_shutdown_ends: "ends (start_shutdown apps vt)"
proof -
  have flushing: "wp (set_state FLUSHING) (\<lambda>_ v. later w v \<and> ending v) (\<lambda>e v. later w v \<and> exn_cls e \<noteq> OutOfFuel) w"
    for w :: "'a ssl_transport_scheme"
    by (cases "x_state w") (simp_all add: set_state_def wps later_def answers_def ending_def exn_of_def)
  have rest: "ends_in ending later (block [call_later_shutdown, do_flush apps vt (start_shutdown_level 1 apps vt)])"
    unfolding call_later_shutdown_def One_nat_def
    by (intro en.ends_rules do_flush_ends shutdown_again_ends ends_ending [OF ends_same]) simp_all
  have "ends (block [set_state FLUSHING, call_later_shutdown, do_flush apps vt (start_shutdown_level 1 apps vt)])"
  proof (rule ends_inI, unfold block.simps(3) [of "set_state FLUSHING"] wp_andthen, rule wp_weaken [OF flushing])
    fix w v :: "'a ssl_transport_scheme"
    assume v: "later w v \<and> ending v"
    show "wp (block [call_later_shutdown, do_flush apps vt (start_shutdown_level 1 apps vt)])
        (\<lambda>_ u. later w u) (\<lambda>e u. later w u \<and> exn_cls e \<noteq> OutOfFuel) v"
      by (rule wp_weaken [OF ends_inD [OF rest]]) (use v la.order_trans in blast)+
  qed auto
  then show ?thesis
    unfolding start_shutdown_def numeral_2_eq_2 start_shutdown_level.simps(2) [of "Suc 0"] One_nat_def
    by (intro la.ends_unless la.ends_cond abort_with_ends)
qed

end

end
