(* ===== verification/Guarded.thy ===== *)
theory Guarded
  imports Prelude
begin

text \<open>
  Handlers that may leave the state broken when they raise. \<open>safe I R X m\<close>: started in the
  invariant \<open>I\<close>, the program \<open>m\<close> returns in \<open>I\<close> and has moved the state by \<open>R\<close>, or it raises
  and leaves what \<open>X\<close> says. An exception in an intact state always satisfies \<open>X\<close>; a handler of
  the source turns a state of \<open>X\<close> into an intact one again.
\<close>

definition safe ::
  "('w \<Rightarrow> bool) \<Rightarrow> ('w \<Rightarrow> 'w \<Rightarrow> bool) \<Rightarrow> ('w \<Rightarrow> exn \<Rightarrow> 'w \<Rightarrow> bool) \<Rightarrow> ('w, 'a) prog \<Rightarrow> bool" where
  "safe I R X m = (\<forall>w. I w \<longrightarrow> wp m (\<lambda>_ v. I v \<and> R w v) (X w) w)"

definition intact :: "('w \<Rightarrow> bool) \<Rightarrow> ('w \<Rightarrow> 'w \<Rightarrow> bool) \<Rightarrow> 'w \<Rightarrow> 'w \<Rightarrow> bool" where
  "intact I R w v = (I w \<longrightarrow> I v \<and> R w v)"

lemma safeD: "safe I R X m \<Longrightarrow> I w \<Longrightarrow> wp m (\<lambda>_ v. I v \<and> R w v) (X w) w"
  by (simp add: safe_def)

lemma safeI: "(\<And>w. I w \<Longrightarrow> wp m (\<lambda>_ v. I v \<and> R w v) (X w) w) \<Longrightarrow> safe I R X m"
  by (simp add: safe_def)

locale guarded =
  fixes I :: "'w \<Rightarrow> bool"
    and R :: "'w \<Rightarrow> 'w \<Rightarrow> bool"
    and X :: "'w \<Rightarrow> exn \<Rightarrow> 'w \<Rightarrow> bool"
  assumes R_refl: "R w w"
    and R_trans: "R w v \<Longrightarrow> R v u \<Longrightarrow> R w u"
    and X_intact: "I w \<Longrightarrow> I v \<Longrightarrow> R w v \<Longrightarrow> X w e v"
    and X_later: "I w \<Longrightarrow> I v \<Longrightarrow> R w v \<Longrightarrow> X v e u \<Longrightarrow> X w e u"
begin

lemma later:
  \<comment> \<open>a safe program run from a state reached before\<close>
  assumes "safe I R X m" "I w" "I v" "R w v"
  shows "wp m (\<lambda>_ u. I u \<and> R w u) (X w) v"
  by (rule wp_weaken [OF safeD [OF assms(1,3)]])
     (use assms R_trans X_later in blast)+

lemma safe_intact: "steps_in (intact I R) m \<Longrightarrow> safe I R X m"
  by (rule safeI, rule wp_steps_in [of "intact I R"]) (auto simp: intact_def intro: X_intact)

lemma intact_order: "step_order (intact I R)"
  by unfold_locales (auto simp: intact_def intro: R_refl R_trans)

lemma safe_ret: "safe I R X (ret x)"
  by (simp add: safe_def wps R_refl)

lemma safe_raise: "safe I R X (raise c)"
  by (simp add: safe_def wps R_refl X_intact)

lemma safe_reraise: "safe I R X (reraise e)"
  by (simp add: safe_def wps R_refl X_intact)

lemma safe_gets: "safe I R X (gets f)"
  by (simp add: safe_def wps R_refl)

lemma safe_lift_exn: "safe I R X (lift_exn r)"
  by (cases r) (simp_all add: safe_raise safe_ret)

lemma safe_upd: "(\<And>w. I w \<Longrightarrow> I (f w) \<and> R w (f w)) \<Longrightarrow> safe I R X (upd f)"
  by (simp add: safe_def wps)

lemma safe_bnd:
  assumes "safe I R X m" "\<And>a. safe I R X (f a)"
  shows "safe I R X (bnd m f)"
  by (rule safeI, simp only: wp_bnd, rule wp_weaken [OF safeD [OF assms(1)]])
     (auto intro: later [OF assms(2)])

lemma safe_andthen: "safe I R X m \<Longrightarrow> safe I R X n \<Longrightarrow> safe I R X (andthen m n)"
  by (simp add: andthen_def safe_bnd)

lemma safe_cond: "safe I R X m \<Longrightarrow> safe I R X n \<Longrightarrow> safe I R X (cond c m n)"
  by (simp add: safe_def wps)

lemma safe_unless: "safe I R X m \<Longrightarrow> safe I R X (unless c m)"
  by (simp add: safe_def wps R_refl)

lemma safe_only_if: "safe I R X m \<Longrightarrow> safe I R X (only_if c m)"
  by (simp add: safe_def wps R_refl)

lemma safe_block_nil: "safe I R X (block [])"
  by (simp add: safe_ret)

lemma safe_block_cons: "safe I R X m \<Longrightarrow> safe I R X (block ms) \<Longrightarrow> safe I R X (block (m # ms))"
  by (cases ms) (auto simp: block.simps intro: safe_ret safe_andthen)

lemma safe_for_each: "(\<And>x. safe I R X (f x)) \<Longrightarrow> safe I R X (for_each xs f)"
  by (induction xs) (auto intro: safe_ret safe_andthen)

lemma safe_loop: "(\<And>l. safe I R X (b l)) \<Longrightarrow> safe I R X (loop n b l)"
  by (induction n arbitrary: l) (auto intro!: safe_raise safe_bnd safe_ret split: sum.splits)

lemma safe_if: "safe I R X m \<Longrightarrow> safe I R X n \<Longrightarrow> safe I R X (if b then m else n)"
  by simp

lemma safe_continue: "safe I R X (continue_with l)"
  by (simp add: continue_with_def safe_ret)

lemma safe_leave: "safe I R X (leave_with r)"
  by (simp add: leave_with_def safe_ret)

lemma handled:
  \<comment> \<open>a handler that repairs what the body may leave broken\<close>
  assumes "safe I R X m"
    and "\<And>w e v. I w \<Longrightarrow> X w e v \<Longrightarrow> wp (h e) (\<lambda>_ u. I u \<and> R w u) (\<lambda>_ u. I u \<and> R w u) v"
  shows "steps_in (intact I R) (try_except m h)"
proof (rule steps_in_wp)
  fix w
  show "wp (try_except m h) (\<lambda>_. intact I R w) (\<lambda>_. intact I R w) w"
  proof (cases "I w")
    case True
    have h: "wp (h e) (\<lambda>_. intact I R w) (\<lambda>_. intact I R w) v" if "X w e v" for e v
      by (rule wp_weaken [OF assms(2) [OF True that]]) (simp_all add: intact_def)
    show ?thesis
      unfolding wp_try_except
      by (rule wp_weaken [OF safeD [OF assms(1) True]]) (auto simp: intact_def intro: h)
  next
    case False
    then have "intact I R w = (\<lambda>_. True)" by (simp add: intact_def fun_eq_iff)
    then show ?thesis by (simp add: wp_true)
  qed
qed

lemmas safe_rules =
  safe_ret safe_raise safe_reraise safe_gets safe_lift_exn safe_bnd safe_andthen safe_cond
  safe_unless safe_only_if safe_block_nil safe_block_cons safe_for_each safe_loop safe_if
  safe_continue safe_leave

end

end
