(* ===== verification/SslInv.thy ===== *)
theory SslInv
  imports SslOver Guarded Session
begin

text \<open>
  The invariant of a TLS transport on a socket and what its engine and its output may change.
  \<open>io_step\<close> is what any number of engine calls and flushes do to everything but the plaintext
  accounts; \<open>quiet_io\<close> leaves these alone too. The plaintext of a transport is what OpenSSL has
  accepted and what the backlog still holds, \<open>tls_out\<close>.
\<close>

section \<open>Plaintext\<close>

definition tls_bytes :: "(int \<Rightarrow> bytes option) \<Rightarrow> tls_item \<Rightarrow> bytes" where
  "tls_bytes fs it =
     (case it of TlsData d \<Rightarrow> buf_content d | TlsFile r \<Rightarrow> item_bytes fs (SendFile r))"

definition tls_good :: "(int \<Rightarrow> bytes option) \<Rightarrow> tls_item \<Rightarrow> bool" where
  "tls_good fs it =
     (case it of
        TlsData d \<Rightarrow> tls_bytes fs it \<noteq> [] \<and> byte_items d \<and> immutable_buf d
      | TlsFile r \<Rightarrow> 0 \<le> sf_offset r \<and> int (length (tls_bytes fs it)) = sf_count r)"

definition tls_pending :: "'a ssl_transport_scheme \<Rightarrow> bytes" where
  "tls_pending w = concat (map (tls_bytes (files w)) (x_backlog w))"

definition tls_out :: "'a ssl_transport_scheme \<Rightarrow> bytes" where
  "tls_out w = e_plain w @ tls_pending w"

definition accounted :: "'a ssl_transport_scheme \<Rightarrow> bool" where
  "accounted w =
     (x_size w = int (length (tls_pending w)) \<and> (\<forall>it \<in> set (x_backlog w). tls_good (files w) it))"

lemma good_len: "tls_good fs it \<Longrightarrow> tls_len it = Inr (int (length (tls_bytes fs it)))"
proof (cases it)
  case (TlsData d)
  assume "tls_good fs it"
  with TlsData have "byte_items d" "immutable_buf d" by (auto simp: tls_good_def)
  then have "py_len d = Inr (int (length (buf_content d)))"
    by (cases d rule: immutable_buf.cases) (auto split: if_splits)
  with TlsData show ?thesis by (simp add: tls_len_def tls_bytes_def)
next
  case (TlsFile r)
  assume "tls_good fs it"
  with TlsFile show ?thesis by (auto simp: tls_good_def tls_len_def)
qed

lemma accounted_empty: "accounted w \<Longrightarrow> x_size w = 0 \<Longrightarrow> tls_pending w = []"
  by (simp add: accounted_def)

section \<open>Invariant\<close>

definition ssl_life :: "'a ssl_transport_scheme \<Rightarrow> bool" where
  "ssl_life w =
     (\<exists>ph. life_run (Fresh, False) (trace w) = Some (ph, t_eof_received w) \<and>
        (t_connected w \<longleftrightarrow> ph = Connected) \<and> (ph = Lost \<longrightarrow> t_finalizing w))"

definition wrapped :: "'a ssl_transport_scheme \<Rightarrow> bool" where
  "wrapped w = (x_state w \<in> {WRAPPED, FLUSHING, SHUTDOWN})"

definition ssl_weak :: "'a ssl_transport_scheme \<Rightarrow> bool" where
  "ssl_weak w =
     (ssl_life w \<and> flow_inv x_watermarks w \<and>
      x_writer w = writer_on w \<and>
      (x_had_eagain w \<longrightarrow> x_writer w \<or> t_finalizing w) \<and>
      (t_finalizing w \<longrightarrow> \<not> writer_on w \<and> \<not> reader_on w) \<and>
      finalize_count w \<le> (if t_finalizing w then 1 else 0) \<and>
      (x_state w = DO_HANDSHAKE \<longrightarrow> \<not> t_finalizing w) \<and>
      (if t_finalizing w then x_size w = 0 else x_open w \<and> x_loop w))"

definition ssl_inv :: "'a ssl_transport_scheme \<Rightarrow> bool" where
  "ssl_inv w =
     (ssl_weak w \<and> (\<not> t_finalizing w \<longrightarrow> accounted w) \<and>
      (wrapped w \<longrightarrow> t_connected w \<or> t_finalizing w))"

text \<open>The state machine only moves forward.\<close>

fun state_rank :: "ssl_state \<Rightarrow> nat" where
  "state_rank DO_HANDSHAKE = 0"
| "state_rank WRAPPED = 1"
| "state_rank FLUSHING = 2"
| "state_rank SHUTDOWN = 3"
| "state_rank UNWRAPPED = 4"

definition ssl_frame :: "'a ssl_transport_scheme \<Rightarrow> 'a ssl_transport_scheme \<Rightarrow> bool" where
  "ssl_frame w v =
     ((t_finalizing w \<longrightarrow> t_finalizing v) \<and> (t_connected w \<longrightarrow> t_connected v) \<and>
      x_open v = x_open w \<and> files v = files w \<and> t_thread_id v = t_thread_id w \<and>
      (t_finalizing w \<longrightarrow> finalize_count v = finalize_count w) \<and>
      state_rank (x_state w) \<le> state_rank (x_state v))"

text \<open>
  \<open>ssl_wraps\<close>: a connection that leaves the handshake is announced to the application.
\<close>

definition ssl_wraps :: "'a ssl_transport_scheme \<Rightarrow> 'a ssl_transport_scheme \<Rightarrow> bool" where
  "ssl_wraps w v = (wrapped v \<longrightarrow> wrapped w \<or> t_connected v)"

definition ssl_rel :: "'a ssl_transport_scheme \<Rightarrow> 'a ssl_transport_scheme \<Rightarrow> bool" where
  "ssl_rel w v =
     (ssl_frame w v \<and> ssl_wraps w v \<and> (\<not> t_finalizing v \<longrightarrow> prefix (tls_out w) (tls_out v)))"

definition ssl_broken :: "'a ssl_transport_scheme \<Rightarrow> exn \<Rightarrow> 'a ssl_transport_scheme \<Rightarrow> bool" where
  "ssl_broken w e v =
     (ssl_frame w v \<and> ssl_wraps w v \<and> ssl_weak v \<and> (is_exit e \<longrightarrow> ssl_inv v \<and> ssl_rel w v))"

lemma ssl_frame_refl: "ssl_frame w w"
  by (simp add: ssl_frame_def)

lemma ssl_frame_trans: "ssl_frame w v \<Longrightarrow> ssl_frame v u \<Longrightarrow> ssl_frame w u"
  unfolding ssl_frame_def by auto

lemma ssl_wraps_refl: "ssl_wraps w w"
  by (simp add: ssl_wraps_def)

lemma ssl_wraps_trans: "ssl_wraps w v \<Longrightarrow> ssl_frame v u \<Longrightarrow> ssl_wraps v u \<Longrightarrow> ssl_wraps w u"
  unfolding ssl_wraps_def ssl_frame_def by blast

lemma ssl_rel_refl: "ssl_rel w w"
  by (simp add: ssl_rel_def ssl_frame_refl ssl_wraps_refl)

lemma ssl_rel_trans: "ssl_rel w v \<Longrightarrow> ssl_rel v u \<Longrightarrow> ssl_rel w u"
  unfolding ssl_rel_def
  using ssl_frame_trans [of w v u] ssl_wraps_trans [of w v u]
  by (auto simp: ssl_frame_def intro: prefix_order.trans)

lemma ssl_inv_weak: "ssl_inv w \<Longrightarrow> ssl_weak w"
  by (simp add: ssl_inv_def)

interpretation tls: guarded ssl_inv ssl_rel ssl_broken
proof
  show "ssl_rel w w" for w :: "'a ssl_transport_scheme" by (rule ssl_rel_refl)
  show "ssl_rel w v \<Longrightarrow> ssl_rel v u \<Longrightarrow> ssl_rel w u" for w v u :: "'a ssl_transport_scheme"
    by (rule ssl_rel_trans)
  show "ssl_inv w \<Longrightarrow> ssl_inv v \<Longrightarrow> ssl_rel w v \<Longrightarrow> ssl_broken w e v"
    for w v :: "'a ssl_transport_scheme" and e
    by (simp add: ssl_broken_def ssl_rel_def ssl_inv_weak)
  show "ssl_inv w \<Longrightarrow> ssl_inv v \<Longrightarrow> ssl_rel w v \<Longrightarrow> ssl_broken v e u \<Longrightarrow> ssl_broken w e u"
    for w v u :: "'a ssl_transport_scheme" and e
    unfolding ssl_broken_def using ssl_rel_trans ssl_frame_trans ssl_wraps_trans ssl_rel_def by blast
qed

abbreviation ssl_safe :: "('a ssl_transport_scheme, 'b) prog \<Rightarrow> bool" where
  "ssl_safe m \<equiv> safe ssl_inv ssl_rel ssl_broken m"

abbreviation ssl_intact :: "'a ssl_transport_scheme \<Rightarrow> 'a ssl_transport_scheme \<Rightarrow> bool" where
  "ssl_intact \<equiv> intact ssl_inv ssl_rel"

interpretation ti: step_order ssl_intact
  by (rule tls.intact_order)

section \<open>What engine calls and flushes change\<close>

definition io_step :: "'a ssl_transport_scheme \<Rightarrow> 'a ssl_transport_scheme \<Rightarrow> bool" where
  "io_step w v =
     (thread_now v = thread_now w \<and> reader_on v = reader_on w \<and> soon v = soon w \<and>
      trace v = trace w \<and> files v = files w \<and> t_thread_id v = t_thread_id w \<and>
      t_protocol v = t_protocol w \<and> t_buffered v = t_buffered w \<and> t_aiofn v = t_aiofn w \<and>
      t_connected v = t_connected w \<and> t_eof_received v = t_eof_received w \<and>
      t_read_paused v = t_read_paused w \<and> t_finalizing v = t_finalizing w \<and>
      e_direct v = e_direct w \<and> x_open v = x_open w \<and> x_loop v = x_loop w \<and>
      x_server v = x_server w \<and> x_state v = x_state w \<and> x_waiter v = x_waiter w \<and>
      x_watermarks v = x_watermarks w \<and>
      (x_writer w = writer_on w \<longrightarrow> x_writer v = writer_on v) \<and>
      (x_writer w \<longrightarrow> x_writer v) \<and>
      (x_had_eagain v \<longrightarrow> x_had_eagain w \<or> x_writer v \<or> t_finalizing w) \<and>
      (t_finalizing w \<longrightarrow> writer_on v = writer_on w))"

definition quiet_io :: "'a ssl_transport_scheme \<Rightarrow> 'a ssl_transport_scheme \<Rightarrow> bool" where
  "quiet_io w v =
     (io_step w v \<and> e_plain v = e_plain w \<and> x_backlog v = x_backlog w \<and> x_size v = x_size w \<and>
      futures v = futures w)"

lemma io_step_refl: "io_step w w"
  by (simp add: io_step_def)

lemma io_step_trans: "io_step w v \<Longrightarrow> io_step v u \<Longrightarrow> io_step w u"
  unfolding io_step_def by auto

lemma quiet_io_refl: "quiet_io w w"
  by (simp add: quiet_io_def io_step_refl)

lemma quiet_io_trans: "quiet_io w v \<Longrightarrow> quiet_io v u \<Longrightarrow> quiet_io w u"
  unfolding quiet_io_def using io_step_trans by metis

interpretation qi: step_order quiet_io
  by unfold_locales (rule quiet_io_refl, rule quiet_io_trans)

lemma io_same:
  assumes "io_step w v"
  shows "ssl_life v = ssl_life w" "flow_inv x_watermarks v = flow_inv x_watermarks w"
    "finalize_count v = finalize_count w"
  using assms by (simp_all add: io_step_def ssl_life_def flow_inv_def finalize_count_def)

lemma io_weak:
  assumes "io_step w v" "ssl_weak w" "t_finalizing w \<Longrightarrow> x_size v = x_size w"
  shows "ssl_weak v"
proof -
  have "t_finalizing v = t_finalizing w" "x_state v = x_state w" "reader_on v = reader_on w"
    "x_open v = x_open w" "x_loop v = x_loop w"
    using assms(1) by (simp_all add: io_step_def)
  moreover have "x_writer v = writer_on v" "x_had_eagain v \<longrightarrow> x_writer v \<or> t_finalizing w"
    "t_finalizing w \<longrightarrow> writer_on v = writer_on w"
    using assms(1,2) by (auto simp: io_step_def ssl_weak_def)
  ultimately show ?thesis
    using assms(2,3) unfolding ssl_weak_def io_same [OF assms(1)] by auto
qed

lemma io_frame: "io_step w v \<Longrightarrow> ssl_frame w v"
  by (simp add: io_step_def ssl_frame_def finalize_count_def)

lemma io_wraps: "io_step w v \<Longrightarrow> ssl_wraps w v"
proof -
  assume "io_step w v"
  then have "x_state v = x_state w" by (simp add: io_step_def)
  then show ?thesis by (simp add: ssl_wraps_def wrapped_def)
qed

lemma io_intact:
  assumes "io_step w v" "ssl_inv w" "\<not> t_finalizing v \<Longrightarrow> accounted v"
    and "\<not> t_finalizing v \<Longrightarrow> prefix (tls_out w) (tls_out v)" "t_finalizing w \<Longrightarrow> x_size v = x_size w"
  shows "ssl_inv v \<and> ssl_rel w v"
proof -
  have "x_state v = x_state w" "t_connected v = t_connected w" "t_finalizing v = t_finalizing w"
    using assms(1) by (simp_all add: io_step_def)
  with assms io_weak [OF assms(1) _ assms(5)] io_frame [OF assms(1)] io_wraps [OF assms(1)]
  show ?thesis by (auto simp: ssl_inv_def ssl_rel_def wrapped_def)
qed

lemma io_broken:
  "io_step w v \<Longrightarrow> ssl_weak w \<Longrightarrow> (t_finalizing w \<Longrightarrow> x_size v = x_size w) \<Longrightarrow> \<not> is_exit e \<Longrightarrow>
     ssl_broken w e v"
  by (simp add: ssl_broken_def io_weak io_frame io_wraps)

lemma quiet_same:
  assumes "quiet_io w v"
  shows "tls_out v = tls_out w" "accounted v = accounted w"
  using assms by (auto simp: quiet_io_def io_step_def tls_out_def tls_pending_def accounted_def)

lemma quiet_intact: "quiet_io w v \<Longrightarrow> ssl_intact w v"
proof -
  assume q: "quiet_io w v"
  then have io: "io_step w v" and sz: "x_size v = x_size w" by (simp_all add: quiet_io_def)
  from io have "t_finalizing v = t_finalizing w" by (simp add: io_step_def)
  with io_intact [OF io] quiet_same [OF q] sz show ?thesis
    unfolding intact_def by (simp add: ssl_inv_def)
qed

lemma steps_quiet: "steps_in quiet_io m \<Longrightarrow> steps_in ssl_intact m"
  by (simp add: steps_in_def quiet_intact)

lemmas safe_quiet = tls.safe_intact [OF steps_quiet]

section \<open>Engine calls\<close>

lemma ssl_call_quiet: "steps_in quiet_io ssl_call"
  by (simp add: steps_in_def ssl_call_def ssl_effect_def quiet_io_def io_step_def
      split: list.splits option.splits)

lemma quiet_upd:
  "(\<And>w. quiet_io w (f w)) \<Longrightarrow> steps_in quiet_io (upd f)"
  by (rule qi.upd_in)

lemma engine_handshake_quiet: "steps_in quiet_io engine_do_handshake"
  unfolding engine_do_handshake_def direct_do_handshake_def fallback_do_handshake_def
  by (intro qi.order_rules ssl_call_quiet)
     (auto intro!: qi.order_rules)

lemma engine_shutdown_quiet: "steps_in quiet_io engine_shutdown"
  unfolding engine_shutdown_def direct_shutdown_def fallback_shutdown_def
  by (intro qi.order_rules ssl_call_quiet)
     (auto intro!: qi.order_rules)

lemma engine_read_quiet: "steps_in quiet_io (engine_read n)"
proof -
  have "steps_in quiet_io (direct_read_step l)" "steps_in quiet_io (fallback_read_step l)" for l
    unfolding direct_read_step_def fallback_read_step_def Let_def
    by (cases l; auto intro!: qi.order_rules ssl_call_quiet)+
  then show ?thesis
    unfolding engine_read_def direct_read_def fallback_read_def
    by (intro qi.order_rules)
qed

lemma bio_quiet:
  "steps_in quiet_io outgoing_bio_reset" "steps_in quiet_io outgoing_bio_pending"
  "steps_in quiet_io outgoing_bio_get_data" "steps_in quiet_io (outgoing_bio_consume n)"
  "steps_in quiet_io outgoing_bio_read" "steps_in quiet_io incoming_bio_get_write_buf"
  "steps_in quiet_io (incoming_bio_produce bs)" "steps_in quiet_io (incoming_bio_write bs)"
  unfolding outgoing_bio_reset_def outgoing_bio_pending_def outgoing_bio_get_data_def
    outgoing_bio_consume_def outgoing_bio_read_def incoming_bio_get_write_buf_def
    incoming_bio_produce_def incoming_bio_write_def direct_outgoing_bio_reset_def
    fallback_outgoing_bio_reset_def direct_outgoing_bio_pending_def direct_outgoing_bio_get_data_def
    direct_outgoing_bio_consume_def fallback_outgoing_bio_read_def
    direct_incoming_bio_get_write_buf_def direct_incoming_bio_produce_def
    fallback_incoming_bio_write_def Let_def
  by (auto intro!: qi.order_rules quiet_upd simp: quiet_io_def io_step_def split: option.splits prod.splits)

lemma sys_write_quiet: "steps_in quiet_io (sys_write bs)"
  by (auto simp: steps_in_def sys_write_def quiet_io_def io_step_def split: prod.splits sum.splits)

lemma sys_read_quiet: "steps_in quiet_io (sys_read n)"
  by (auto simp: steps_in_def sys_read_def quiet_io_def io_step_def split: prod.splits sum.splits)

lemma ensure_writer_quiet: "steps_in quiet_io ensure_writer"
  by (simp add: steps_in_def ensure_writer_def add_writer_def run quiet_io_def io_step_def)

lemma flush_quiet: "steps_in quiet_io socket_flush_outgoing_bio"
  unfolding socket_flush_outgoing_bio_def
  by (intro qi.order_rules bio_quiet sys_write_quiet)
     (auto intro!: qi.order_rules bio_quiet sys_write_quiet ensure_writer_quiet)

lemma retry_quiet: "steps_in quiet_io socket_retry_after_want_write"
  unfolding socket_retry_after_want_write_def
  by (intro qi.order_rules flush_quiet ensure_writer_quiet)

section \<open>Exceptions that are not an exit\<close>

text \<open>
  \<open>tame m\<close>: the program raises neither \<open>KeyboardInterrupt\<close> nor \<open>SystemExit\<close>. Only callbacks of
  the application do.
\<close>

definition tame :: "('w, 'a) prog \<Rightarrow> bool" where
  "tame m = (\<forall>w. wp m (\<lambda>_ _. True) (\<lambda>e _. \<not> is_exit e) w)"

lemma tame_wp: "tame m \<Longrightarrow> wp m Q E w \<Longrightarrow> wp m Q (\<lambda>e v. E e v \<and> \<not> is_exit e) w"
  unfolding tame_def
  by (drule spec, drule (1) wp_conj, erule wp_weaken) simp_all

lemma tame_bnd:
  assumes "tame m" "\<And>a. tame (f a)"
  shows "tame (bnd m f)"
  unfolding tame_def wp_bnd
proof
  fix w
  from assms(1) have "wp m (\<lambda>_ _. True) (\<lambda>e _. \<not> is_exit e) w" by (simp add: tame_def)
  then show "wp m (\<lambda>a. wp (f a) (\<lambda>_ _. True) (\<lambda>e _. \<not> is_exit e)) (\<lambda>e _. \<not> is_exit e) w"
    by (rule wp_weaken) (use assms(2) in \<open>simp_all add: tame_def\<close>)
qed

lemma tame_basic:
  "tame (ret x)" "\<not> is_exit_class c \<Longrightarrow> tame (raise c)" "tame (gets f)" "tame (upd g)"
  "tame (continue_with l)" "tame (leave_with r)"
  by (simp_all add: tame_def wps is_exit_def exn_of_def)

lemma tame_lift: "(\<And>c. r = Inl c \<Longrightarrow> \<not> is_exit_class c) \<Longrightarrow> tame (lift_exn r)"
  by (cases r) (simp_all add: tame_basic)

lemma tame_more:
  "tame m \<Longrightarrow> tame n \<Longrightarrow> tame (andthen m n)" "tame f \<Longrightarrow> tame g \<Longrightarrow> tame (cond c f g)"
  "tame p \<Longrightarrow> tame (unless c p)" "tame p \<Longrightarrow> tame (only_if c p)"
  by (simp_all add: andthen_def tame_bnd) (simp_all add: tame_def wps)

lemma tame_block: "list_all tame ms \<Longrightarrow> tame (block ms)"
  by (induction ms rule: block.induct) (auto simp: block.simps tame_basic intro: tame_more)

lemma tame_loop: "(\<And>l. tame (b l)) \<Longrightarrow> tame (loop n b l)"
  by (induction n arbitrary: l)
     (auto intro!: tame_basic(2) tame_bnd split: sum.splits simp: tame_basic)

lemmas tame_rules = tame_basic tame_more tame_bnd tame_lift tame_loop

lemma reset_not_exit: "\<not> is_exit_class ConnectionResetError"
  by (simp add: ConnectionResetError_def)

lemma make_exc_not_exit: "\<not> is_exit_class (make_exc_from_ssl_error a)"
  by (simp add: make_exc_from_ssl_error_def split: ssl_error.splits)

lemma ssl_call_tame: "tame ssl_call"
  by (simp add: tame_def wp_def ssl_call_def split: list.splits)

section \<open>Plaintext that a call accepts\<close>

definition plain_io :: "bytes \<Rightarrow> 'a ssl_transport_scheme \<Rightarrow> 'a ssl_transport_scheme \<Rightarrow> bool" where
  "plain_io bs w v =
     (io_step w v \<and> e_plain v = e_plain w @ bs \<and> x_backlog v = x_backlog w \<and>
      x_size v = x_size w \<and> futures v = futures w)"

definition io_failed :: "'a ssl_transport_scheme \<Rightarrow> exn \<Rightarrow> 'a ssl_transport_scheme \<Rightarrow> bool" where
  "io_failed w e v = (io_step w v \<and> \<not> is_exit e)"

lemma quiet_plain: "quiet_io w v \<longleftrightarrow> plain_io [] w v"
  by (simp add: quiet_io_def plain_io_def)

lemma plain_trans: "plain_io a w v \<Longrightarrow> plain_io b v u \<Longrightarrow> plain_io (a @ b) w u"
  unfolding plain_io_def using io_step_trans by auto

lemma plain_quiet: "plain_io a w v \<Longrightarrow> quiet_io v u \<Longrightarrow> plain_io a w u"
  using plain_trans [of a w v "[]" u] by (simp add: quiet_plain)

lemma plain_io_step: "plain_io a w v \<Longrightarrow> io_step w v"
  by (simp add: plain_io_def)

lemma quiet_failed: "plain_io a w v \<Longrightarrow> quiet_io v u \<Longrightarrow> \<not> is_exit e \<Longrightarrow> io_failed w e u"
  by (simp add: io_failed_def plain_io_def quiet_io_def) (metis io_step_trans)

lemma wp_plain_quiet:
  \<comment> \<open>a quiet program that raises no exit exception, after some plaintext\<close>
  assumes "steps_in quiet_io m" "tame m" "plain_io a w v"
  shows "wp m (\<lambda>_ u. plain_io a w u) (io_failed w) v"
proof -
  have "wp m (\<lambda>_ u. quiet_io v u) (\<lambda>e u. quiet_io v u) v"
    by (rule wp_steps_in [OF assms(1)]) simp_all
  from tame_wp [OF assms(2) this] show ?thesis
    by (rule wp_weaken) (use assms(3) plain_quiet quiet_failed in blast)+
qed

lemma accept_plain_io: "plain_io a w v \<Longrightarrow> plain_io (a @ bs) w (v\<lparr>e_plain := e_plain v @ bs\<rparr>)"
  by (simp add: plain_io_def io_step_def)

definition write_result ::
  "bytes \<Rightarrow> 'a ssl_transport_scheme \<Rightarrow> ssl_error \<times> nat \<Rightarrow> 'a ssl_transport_scheme \<Rightarrow> bool" where
  "write_result mem w r v =
     (snd r \<le> length mem \<and> plain_io (take (snd r) mem) w v \<and>
      (if fst r = SSL_ERROR_NONE then snd r = length mem else snd r < length mem))"

lemma direct_write_failed_cases:
  "direct_write_failed a = Inl c \<Longrightarrow> \<not> is_exit_class c"
  "direct_write_failed a = Inr err \<Longrightarrow> err \<noteq> SSL_ERROR_NONE"
  using make_exc_not_exit [of a] reset_not_exit
  by (auto simp: direct_write_failed_def split: if_splits)

lemma translate_cases:
  "translate_ssl_error a = Inl c \<Longrightarrow> \<not> is_exit_class c"
  "translate_ssl_error a = Inr err \<Longrightarrow> err \<noteq> SSL_ERROR_NONE"
  using reset_not_exit by (auto simp: translate_ssl_error_def split: ssl_error.splits)

lemma c_int_le: "c_int n \<le> int n"
proof (cases "int n < 2 ^ 31")
  case True
  then have "c_int n = int n"
    unfolding c_int_def sint_sbintrunc' by (simp add: signed_take_bit_int_eq_self)
  then show ?thesis by simp
next
  case False
  then have "signed_take_bit 31 (int n) \<le> int n - 2 ^ Suc 31"
    by (intro signed_take_bit_int_less_eq) simp
  then show ?thesis unfolding c_int_def sint_sbintrunc' by simp
qed

lemma plain_failed: "plain_io a w v \<Longrightarrow> \<not> is_exit_class c \<Longrightarrow> io_failed w (exn_of c) v"
  by (simp add: io_failed_def plain_io_def is_exit_def exn_of_def)

lemma direct_write_round:
  assumes "n \<le> length mem" "drop n mem \<noteq> []" "plain_io (take n mem) w v"
  shows "wp (direct_write_step (drop n mem, n))
      (\<lambda>x v'. case x of
          Inl (rest, n) \<Rightarrow> rest = drop n mem \<and> n \<le> length mem \<and> plain_io (take n mem) w v'
        | Inr r \<Rightarrow> write_result mem w r v')
      (io_failed w) v"
proof -
  let ?rest = "drop n mem"
  have k: "take n mem @ take k ?rest = take (n + k) mem" "drop k ?rest = drop (n + k) mem" for k
    by (simp add: take_add, simp add: add.commute)
  have le: "n + k \<le> length mem" if "k = nat (min rc (c_int (length ?rest)))" for k rc
    using that assms(1) c_int_le [of "length ?rest"] by simp
  have lt: "n < length mem" using assms(1,2) by simp
  let ?Q = "\<lambda>x v'. case x of
          Inl (rest, n) \<Rightarrow> rest = drop n mem \<and> n \<le> length mem \<and> plain_io (take n mem) w v'
        | Inr r \<Rightarrow> write_result mem w r v'"
  have "wp (let n' = nat (min (sa_rc a) (c_int (length ?rest))) in
           if n' > 0
           then andthen (accept_plain (take n' ?rest)) (continue_with (drop n' ?rest, n + n'))
           else bnd (lift_exn (direct_write_failed a)) (\<lambda>err. leave_with (err, n))) ?Q (io_failed w) u"
    if "plain_io (take n mem) w u" for a and u :: "'a ssl_transport_scheme"
  proof -
    define k' where "k' = nat (min (sa_rc a) (c_int (length ?rest)))"
    have "n + k' \<le> length mem" by (rule le) (simp add: k'_def)
    with that lt k [of k'] show ?thesis
      unfolding Let_def k'_def [symmetric] accept_plain_def
      by (auto simp: wps write_result_def
          dest: direct_write_failed_cases accept_plain_io [of _ _ _ "take k' ?rest"]
          intro: plain_failed split: sum.splits)
  qed
  then show ?thesis
    using assms(2) unfolding direct_write_step_def prod.case
    by (simp add: wp_bnd)
       (rule wp_weaken [OF wp_plain_quiet [OF ssl_call_quiet ssl_call_tame assms(3)]], simp_all)
qed

lemma direct_write_wp: "wp (direct_write mem) (write_result mem w) (io_failed w) w"
  unfolding direct_write_def
proof (rule wp_loop [where J = "\<lambda>(rest, n) v. rest = drop n mem \<and> n \<le> length mem \<and> plain_io (take n mem) w v"], goal_cases)
  case (1 l v)
  then obtain n where l: "l = (drop n mem, n)" and n: "n \<le> length mem" "plain_io (take n mem) w v"
    by (cases l) auto
  show ?case
  proof (cases "drop n mem = []")
    case True
    with n show ?thesis by (simp add: l direct_write_step_def wps write_result_def)
  next
    case False
    from direct_write_round [OF n(1) False n(2)] show ?thesis
      unfolding l by (rule wp_weaken) (auto split: sum.splits)
  qed
next
  case (2 l v)
  then show ?case by (auto intro: plain_failed)
next
  case 3
  then show ?case by (simp add: plain_io_def io_step_refl)
qed

lemma fallback_write_wp:
  "wp (fallback_write mem) (write_result mem w) (io_failed w) w"
proof -
  have start: "plain_io [] w w" by (simp add: plain_io_def io_step_refl)
  let ?n = "min (length mem) (available_for_writing (e_hint w) (length (e_py_out w)))"
  have "wp (if sa_rc a < 0
            then bnd (lift_exn (translate_ssl_error a)) (\<lambda>err.
              if err = SSL_ERROR_WANT_READ \<or> err = SSL_ERROR_WANT_WRITE then ret (err, 0)
              else raise SSLZeroReturn)
            else
              let n = min (nat (sa_rc a)) ?n in
              andthen (accept_plain (take n mem))
                (ret (if n < length mem then SSL_ERROR_WANT_WRITE else SSL_ERROR_NONE, n)))
          (write_result mem w) (io_failed w) u"
    if "plain_io [] w u" "mem \<noteq> []" for a and u :: "'a ssl_transport_scheme"
    using that accept_plain_io [OF that(1)]
    by (auto simp: wps write_result_def Let_def accept_plain_def plain_failed
        dest: translate_cases intro: plain_failed split: sum.splits)
  then show ?thesis
    unfolding fallback_write_def
    by (simp add: wps write_result_def start del: wp_if, intro impI conjI)
       (rule wp_weaken [OF wp_plain_quiet [OF ssl_call_quiet ssl_call_tame start]], simp_all add: wps)
qed

lemma engine_write_wp: "wp (engine_write mem) (write_result mem w) (io_failed w) w"
  by (simp add: engine_write_def wps direct_write_wp fallback_write_wp)

end
