(* ===== verification/SslOutput.thy ===== *)
theory SslOutput
  imports SslInv
begin

text \<open>
  The write side of the TLS socket transport: what one buffer, one file transfer and one run
  over the backlog do to the plaintext accounts. No callback of the application runs inside
  these loops, so they are followed exactly.
\<close>

section \<open>Flushing raises no exit exception\<close>

lemma sys_write_tame: "tame (sys_write bs)"
proof -
  have "\<not> is_exit_class c" if "aiofn_write ks n = (Inl c, ks')" for c ks n ks'
    using aiofn_write_error_class [OF that] by auto
  then show ?thesis
    by (auto simp: tame_def wp_def sys_write_def is_exit_def exn_of_def split: prod.splits sum.splits)
qed

lemma outgoing_tame: "tame outgoing_bio_get_data" "tame (outgoing_bio_consume n)"
  unfolding outgoing_bio_get_data_def outgoing_bio_consume_def direct_outgoing_bio_get_data_def
    direct_outgoing_bio_consume_def
  by (auto intro!: tame_rules split: option.splits prod.splits)

lemma ensure_writer_tame: "tame ensure_writer"
  by (simp add: tame_def ensure_writer_def add_writer_def wps)

lemma flush_tame: "tame socket_flush_outgoing_bio"
  unfolding socket_flush_outgoing_bio_def
  by (intro tame_rules outgoing_tame)
     (auto intro!: tame_rules outgoing_tame sys_write_tame ensure_writer_tame)

lemma retry_tame: "tame socket_retry_after_want_write"
  unfolding socket_retry_after_want_write_def
  by (intro tame_rules flush_tame ensure_writer_tame)

section \<open>One buffer\<close>

definition written ::
  "pybuf \<Rightarrow> bytes \<Rightarrow> 'a ssl_transport_scheme \<Rightarrow> pybuf option \<Rightarrow> 'a ssl_transport_scheme \<Rightarrow> bool" where
  "written data mem w tail v =
     (case tail of
        None \<Rightarrow> plain_io mem w v
      | Some t \<Rightarrow>
          \<exists>n < length mem. plain_io (take n mem) w v \<and> t = aiofn_maybe_copy_buffer_tail data (drop n mem))"

lemma write_impl_round:
  assumes "n < length mem" "plain_io (take n mem) w v"
  shows "wp (write_impl_step (socket_methods apps) data (drop n mem))
      (\<lambda>x u. case x of
          Inl rest \<Rightarrow> \<exists>n < length mem. rest = drop n mem \<and> plain_io (take n mem) w u
        | Inr tail \<Rightarrow> written data mem w tail u)
      (io_failed w) v"
proof -
  let ?Q = "\<lambda>x u. case x of
          Inl rest \<Rightarrow> \<exists>n < length mem. rest = drop n mem \<and> plain_io (take n mem) w u
        | Inr tail \<Rightarrow> written data mem w tail u"
  have after: "wp (case r of (err, k) \<Rightarrow>
        if err = SSL_ERROR_NONE then leave_with None
        else
          let rest = drop k (drop n mem) in
          if err = SSL_ERROR_WANT_WRITE then
            bnd (v_retry_after_want_write (socket_methods apps)) (\<lambda>again.
              if again then continue_with rest
              else leave_with (Some (aiofn_maybe_copy_buffer_tail data rest)))
          else if err = SSL_ERROR_WANT_READ
          then leave_with (Some (aiofn_maybe_copy_buffer_tail data rest))
          else continue_with rest) ?Q (io_failed w) u"
    if "write_result (drop n mem) v r u" for r u
  proof -
    obtain err k where r: "r = (err, k)" by (cases r)
    have "plain_io (take k (drop n mem)) v u" using that r by (simp add: write_result_def)
    from plain_trans [OF assms(2) this] have io: "plain_io (take (n + k) mem) w u"
      by (simp add: take_add)
    have d: "drop k (drop n mem) = drop (n + k) mem" by (simp add: add.commute)
    show ?thesis
    proof (cases "err = SSL_ERROR_NONE")
      case True
      with that r assms(1) have "n + k = length mem" by (simp add: write_result_def)
      with io True r show ?thesis by (simp add: wps written_def)
    next
      case False
      with that r assms(1) have lt: "n + k < length mem" by (auto simp: write_result_def)
      have retry: "wp (v_retry_after_want_write (socket_methods apps))
          (\<lambda>again u. plain_io (take (n + k) mem) w u) (io_failed w) u"
        by (simp add: socket_methods_def wp_plain_quiet [OF retry_quiet retry_tame io])
      show ?thesis
        unfolding r prod.case Let_def d
        using False io lt
        by (auto simp: wps written_def intro!: wp_weaken [OF retry])
    qed
  qed
  have "wp (engine_write (drop n mem)) (write_result (drop n mem) v) (io_failed w) v"
    by (rule wp_weaken [OF engine_write_wp])
       (use plain_io_step [OF assms(2)] io_step_trans in \<open>auto simp: io_failed_def\<close>)
  then show ?thesis
    unfolding write_impl_step_def wp_bnd by (rule wp_weaken) (rule after, assumption+)
qed

lemma write_impl_wp:
  assumes "mem \<noteq> []"
  shows "wp (write_impl (socket_methods apps) data mem) (written data mem w) (io_failed w) w"
  unfolding write_impl_def wp_bnd wp_gets
proof (rule wp_loop [where J = "\<lambda>rest v. \<exists>n < length mem. rest = drop n mem \<and> plain_io (take n mem) w v"],
    goal_cases)
  case (1 rest v)
  then obtain n where n: "n < length mem" "rest = drop n mem" "plain_io (take n mem) w v" by auto
  show ?case unfolding n(2) by (rule write_impl_round [OF n(1,3)])
next
  case (2 rest v)
  then show ?case by (auto intro: plain_failed)
next
  case 3
  from assms show ?case
    by (intro exI [of _ 0]) (simp add: plain_io_def io_step_refl)
qed

section \<open>One file transfer\<close>

text \<open>The bytes a request still has to send.\<close>

definition req_bytes :: "(int \<Rightarrow> bytes option) \<Rightarrow> sendfile_request \<Rightarrow> bytes" where
  "req_bytes fs r = item_bytes fs (SendFile r)"

definition moved_to :: "sendfile_request \<Rightarrow> int \<Rightarrow> sendfile_request" where
  "moved_to r m = r\<lparr>sf_offset := sf_offset r + m, sf_count := sf_count r - m\<rparr>"

lemma moved_to_more: "moved_to (moved_to r a) b = moved_to r (a + b)"
  by (simp add: moved_to_def algebra_simps)

lemma moved_to_0 [simp]: "moved_to r 0 = r"
  by (simp add: moved_to_def)

lemma req_bytes_moved:
  assumes "0 \<le> m" "m \<le> sf_count r" "0 \<le> sf_offset r"
  shows "req_bytes fs (moved_to r m) = drop (nat m) (req_bytes fs r)"
  using assms
  by (simp add: req_bytes_def item_bytes_def moved_to_def drop_take nat_diff_distrib nat_add_distrib
      add.commute)

definition sent_file ::
  "sendfile_request \<Rightarrow> int \<Rightarrow> 'a ssl_transport_scheme \<Rightarrow> 'a ssl_transport_scheme \<Rightarrow> bool" where
  "sent_file r m w v =
     (0 \<le> m \<and> m \<le> sf_count r \<and> plain_io (take (nat m) (req_bytes (files w) r)) w v)"

lemma sent_file_more:
  assumes "sent_file r a w v" "sent_file (moved_to r a) b v u" "0 \<le> sf_offset r"
  shows "sent_file r (a + b) w u"
proof -
  have f: "files v = files w"
    using assms(1) by (simp add: sent_file_def plain_io_def io_step_def)
  have a: "0 \<le> a" "a \<le> sf_count r" and b: "0 \<le> b" "b \<le> sf_count r - a"
    using assms(1,2) by (simp_all add: sent_file_def moved_to_def)
  have "plain_io (take (nat a) (req_bytes (files w) r)) w v"
    "plain_io (take (nat b) (drop (nat a) (req_bytes (files w) r))) v u"
    using assms(1,2) f req_bytes_moved [OF a assms(3)] by (simp_all add: sent_file_def)
  then have "plain_io (take (nat a) (req_bytes (files w) r) @
          take (nat b) (drop (nat a) (req_bytes (files w) r))) w u"
    by (rule plain_trans)
  with a b show ?thesis by (simp add: sent_file_def nat_add_distrib take_add)
qed

definition sendfile_result ::
  "sendfile_request \<Rightarrow> 'a ssl_transport_scheme \<Rightarrow> ssl_error \<times> int \<Rightarrow> 'a ssl_transport_scheme \<Rightarrow> bool" where
  "sendfile_result r w res v =
     (sent_file r (snd res) w v \<and>
      (if fst res = SSL_ERROR_NONE then snd res = sf_count r else snd res < sf_count r))"

lemma sendfile_failed_cases:
  "direct_sendfile_failed a = Inl c \<Longrightarrow> \<not> is_exit_class c"
  "direct_sendfile_failed a = Inr err \<Longrightarrow> err \<noteq> SSL_ERROR_NONE"
  using make_exc_not_exit [of a] reset_not_exit
  by (auto simp: direct_sendfile_failed_def split: if_splits)

lemma file_slice:
  "n \<le> sf_count r \<Longrightarrow>
     take (nat n) (drop (nat (sf_offset r)) (file_bytes w (sf_fd r))) = take (nat n) (req_bytes (files w) r)"
  by (simp add: req_bytes_def item_bytes_def file_bytes_def min_def nat_mono)

lemma direct_sendfile_round:
  assumes "sent_file r m w v" "m \<noteq> sf_count r" "0 \<le> sf_offset r"
  shows "wp (direct_sendfile_step (sf_fd r) (sf_offset r + m, sf_count r - m, m))
      (\<lambda>x u. case x of
          Inl l \<Rightarrow> \<exists>m. l = (sf_offset r + m, sf_count r - m, m) \<and> sent_file r m w u
        | Inr res \<Rightarrow> sendfile_result r w res u)
      (io_failed w) v"
proof -
  let ?Q = "\<lambda>x u. case x of
          Inl l \<Rightarrow> \<exists>m. l = (sf_offset r + m, sf_count r - m, m) \<and> sent_file r m w u
        | Inr res \<Rightarrow> sendfile_result r w res u"
  have io: "plain_io (take (nat m) (req_bytes (files w) r)) w v" and m: "0 \<le> m" "m < sf_count r"
    using assms by (simp_all add: sent_file_def)
  have after: "wp (let n = min (sa_rc a) (sf_count r - m) in
           if n > 0 then
             andthen
               (bnd (gets (\<lambda>w. take (nat n) (drop (nat (sf_offset r + m)) (file_bytes w (sf_fd r))))) accept_plain)
               (continue_with (sf_offset r + m + n, sf_count r - m - n, m + n))
           else bnd (lift_exn (direct_sendfile_failed a)) (\<lambda>err. leave_with (err, m))) ?Q (io_failed w) u"
    if u: "plain_io (take (nat m) (req_bytes (files w) r)) w u" for a and u :: "'a ssl_transport_scheme"
  proof -
    have su: "sent_file r m w u" using u m by (simp add: sent_file_def)
    show ?thesis
    proof (cases "min (sa_rc a) (sf_count r - m) > 0")
      case True
      define n where "n = min (sa_rc a) (sf_count r - m)"
      have n: "0 < n" "n \<le> sf_count r - m" using True by (simp_all add: n_def)
      let ?bs = "take (nat n) (drop (nat (sf_offset r + m)) (file_bytes u (sf_fd r)))"
      have "?bs = take (nat n) (req_bytes (files u) (moved_to r m))"
        using file_slice [of n "moved_to r m" u] n by (simp add: moved_to_def)
      then have "sent_file (moved_to r m) n u (u\<lparr>e_plain := e_plain u @ ?bs\<rparr>)"
        using n by (simp add: sent_file_def moved_to_def plain_io_def io_step_def)
      from sent_file_more [OF su this assms(3)]
      have s: "sent_file r (m + n) w (u\<lparr>e_plain := e_plain u @ ?bs\<rparr>)" .
      have "wp (andthen
               (bnd (gets (\<lambda>w. take (nat n) (drop (nat (sf_offset r + m)) (file_bytes w (sf_fd r))))) accept_plain)
               (continue_with (sf_offset r + m + n, sf_count r - m - n, m + n))) ?Q (io_failed w) u"
        using s by (simp add: wps accept_plain_def)
      with n(1) show ?thesis unfolding n_def [symmetric] Let_def by simp
    next
      case False
      then show ?thesis
        using su m u
        by (auto simp: Let_def wps sendfile_result_def
            dest: sendfile_failed_cases intro: plain_failed split: sum.splits)
    qed
  qed
  have ne: "sf_count r - m \<noteq> 0" using m by simp
  show ?thesis
    unfolding direct_sendfile_step_def prod.case if_not_P [OF ne]
    by (subst wp_bnd, rule wp_weaken [OF wp_plain_quiet [OF ssl_call_quiet ssl_call_tame io]])
       (rule after, assumption+)
qed

lemma engine_sendfile_wp:
  assumes "0 \<le> sf_count r" "0 \<le> sf_offset r"
  shows "wp (engine_sendfile (sf_fd r) (sf_offset r) (sf_count r)) (sendfile_result r w) (io_failed w) w"
proof -
  have start: "sent_file r 0 w w" using assms by (simp add: sent_file_def plain_io_def io_step_refl)
  have "wp (direct_sendfile (sf_fd r) (sf_offset r) (sf_count r)) (sendfile_result r w) (io_failed w) w"
    unfolding direct_sendfile_def
  proof (rule wp_loop [where J =
        "\<lambda>l v. \<exists>m. l = (sf_offset r + m, sf_count r - m, m) \<and> sent_file r m w v"], goal_cases)
    case (1 l v)
    then obtain m where l: "l = (sf_offset r + m, sf_count r - m, m)" and m: "sent_file r m w v" by auto
    show ?case
    proof (cases "m = sf_count r")
      case True
      with m show ?thesis by (simp add: l direct_sendfile_step_def wps sendfile_result_def)
    next
      case False
      from direct_sendfile_round [OF m False assms(2)] show ?thesis unfolding l .
    qed
  next
    case (2 l v)
    then show ?case by (auto simp: sent_file_def intro: plain_failed)
  next
    case 3
    from start show ?case by (intro exI [of _ 0]) simp
  qed
  moreover have "io_failed w (exn_of NotImplementedErr) w"
    by (simp add: io_failed_def io_step_refl is_exit_def exn_of_def)
  ultimately show ?thesis by (simp add: engine_sendfile_def wps)
qed

text \<open>
  Where a request lives while it is sent: nowhere yet, or in the backlog. \<open>put\<close> is what a
  mutation of the request does to the transport.
\<close>

locale tls_store =
  fixes put :: "sendfile_request \<Rightarrow> 'a ssl_transport_scheme \<Rightarrow> 'a ssl_transport_scheme"
  assumes put_io: "io_step w (put r w)"
    and put_plain: "e_plain (put r w) = e_plain w"
    and put_size: "x_size (put r w) = x_size w"
    and put_futures: "futures (put r w) = futures w"
    and put_put: "put r (put r' w) = put r w"
    and put_quiet: "plain_io bs w v \<Longrightarrow> plain_io bs (put r w) (put r v)"
begin

lemma put_sent: "plain_io bs (put r w) v \<Longrightarrow> plain_io bs (put r' w) (put r' v)"
  using put_quiet [of bs "put r w" v r'] by (simp add: put_put)

definition transferred ::
  "sendfile_request \<Rightarrow> 'a ssl_transport_scheme \<Rightarrow> int \<Rightarrow> 'a ssl_transport_scheme \<Rightarrow> bool" where
  "transferred r w m v =
     (0 \<le> m \<and> m \<le> sf_count r \<and>
      plain_io (take (nat m) (req_bytes (files w) r)) (put (moved_to r m) w) v)"

lemma files_put: "files (put r w) = files w"
  using put_io [of w r] by (simp add: io_step_def)

lemma transferred_sent:
  assumes "transferred r w a v" "sent_file (moved_to r a) b v u" "0 \<le> sf_offset r"
  shows "transferred r w (a + b) (put (moved_to r (a + b)) u)"
proof -
  have f: "files v = files w"
    using assms(1) files_put [of "moved_to r a" w] by (simp add: transferred_def plain_io_def io_step_def)
  have a: "0 \<le> a" "a \<le> sf_count r" and b: "0 \<le> b" "b \<le> sf_count r - a"
    using assms(1,2) by (simp_all add: transferred_def sent_file_def moved_to_def)
  have "plain_io (take (nat a) (req_bytes (files w) r)) (put (moved_to r a) w) v"
    "plain_io (take (nat b) (drop (nat a) (req_bytes (files w) r))) v u"
    using assms(1,2) f req_bytes_moved [OF a assms(3)] by (simp_all add: transferred_def sent_file_def)
  then have "plain_io (take (nat a) (req_bytes (files w) r) @
      take (nat b) (drop (nat a) (req_bytes (files w) r))) (put (moved_to r a) w) u"
    by (rule plain_trans)
  from put_sent [OF this, of "moved_to r (a + b)"] a b show ?thesis
    by (simp add: transferred_def nat_add_distrib take_add)
qed

lemma transferred_quiet: "transferred r w m v \<Longrightarrow> quiet_io v u \<Longrightarrow> transferred r w m u"
  unfolding transferred_def using plain_quiet by blast

lemma transferred_io:
  assumes "transferred r w m v" "io_step v u"
  shows "io_step w u"
proof -
  have "io_step (put (moved_to r m) w) v" using assms(1) by (simp add: transferred_def plain_io_def)
  from io_step_trans [OF put_io this] assms(2) show ?thesis by (rule io_step_trans)
qed

lemma transferred_failed: "transferred r w m v \<Longrightarrow> \<not> is_exit_class c \<Longrightarrow> io_failed w (exn_of c) v"
  using transferred_io [of r w m v v] by (simp add: io_step_refl io_failed_def is_exit_def exn_of_def)

definition transfer_end ::
  "sendfile_request \<Rightarrow> 'a ssl_transport_scheme \<Rightarrow> bool \<times> sendfile_request \<Rightarrow> 'a ssl_transport_scheme \<Rightarrow> bool" where
  "transfer_end r w res v =
     (\<exists>m. snd res = moved_to r m \<and> transferred r w m v \<and> (fst res \<longleftrightarrow> m = sf_count r))"

lemma transfer_round:
  assumes "transferred r w m v" "m \<le> sf_count r" "0 \<le> sf_offset r"
  shows "wp (socket_try_sendfile_step (\<lambda>r. upd (put r)) (moved_to r m))
      (\<lambda>x u. case x of
          Inl r' \<Rightarrow> \<exists>m \<le> sf_count r. r' = moved_to r m \<and> transferred r w m u
        | Inr res \<Rightarrow> transfer_end r w res u)
      (io_failed w) v"
proof -
  let ?Q = "\<lambda>x u. case x of
          Inl r' \<Rightarrow> \<exists>m \<le> sf_count r. r' = moved_to r m \<and> transferred r w m u
        | Inr res \<Rightarrow> transfer_end r w res u"
  let ?r = "moved_to r m"
  have m: "0 \<le> m" using assms(1) by (simp add: transferred_def)
  have after: "wp (case res of (err, n) \<Rightarrow>
       let r' = ?r\<lparr>sf_offset := sf_offset ?r + n, sf_count := sf_count ?r - n\<rparr> in
       andthen (upd (put r'))
         (case err of
            SSL_ERROR_NONE \<Rightarrow>
              let r'' = r'\<lparr>sf_count := 0\<rparr> in andthen (upd (put r'')) (leave_with (True, r''))
          | SSL_ERROR_WANT_WRITE \<Rightarrow>
              bnd socket_retry_after_want_write (\<lambda>again.
                if again then continue_with r' else leave_with (False, r'))
          | SSL_ERROR_WANT_READ \<Rightarrow> leave_with (False, r')
          | _ \<Rightarrow> raise RuntimeErr)) ?Q (io_failed w) u"
    if res: "sendfile_result ?r v res u" for res u
  proof -
    obtain err n where e: "res = (err, n)" by (cases res)
    let ?m = "m + n"
    have sent: "sent_file ?r n v u" using res by (simp add: sendfile_result_def e)
    have r': "?r\<lparr>sf_offset := sf_offset ?r + n, sf_count := sf_count ?r - n\<rparr> = moved_to r ?m"
      using moved_to_more [of r m n] by (simp add: moved_to_def)
    from transferred_sent [OF assms(1) sent assms(3)]
    have t: "transferred r w ?m (put (moved_to r ?m) u)" .
    show ?thesis
    proof (cases "err = SSL_ERROR_NONE")
      case True
      with res have n: "?m = sf_count r" by (simp add: sendfile_result_def e moved_to_def)
      have c: "(moved_to r (sf_count r))\<lparr>sf_count := 0\<rparr> = moved_to r (sf_count r)"
        by (simp add: moved_to_def)
      from True t show ?thesis
        unfolding e prod.case Let_def r' n
        by (simp add: wps c put_put transfer_end_def)
    next
      case False
      with res have lt: "?m < sf_count r" by (simp add: sendfile_result_def e moved_to_def)
      have "wp socket_retry_after_want_write (\<lambda>_ x. transferred r w ?m x) (io_failed w)
              (put (moved_to r ?m) u)"
      proof (rule wp_weaken)
        show "wp socket_retry_after_want_write (\<lambda>_ x. quiet_io (put (moved_to r ?m) u) x)
            (\<lambda>e x. quiet_io (put (moved_to r ?m) u) x \<and> \<not> is_exit e) (put (moved_to r ?m) u)"
          by (rule tame_wp [OF retry_tame], rule wp_steps_in [OF retry_quiet]) simp_all
      qed (use transferred_quiet [OF t] transferred_io [OF t] in
            \<open>auto simp: io_failed_def quiet_io_def\<close>)
      note retry = this
      from False t lt show ?thesis
        unfolding e prod.case Let_def r'
        by (cases err)
           (auto simp: wps transfer_end_def transferred_failed intro!: wp_weaken [OF retry]
               exI [of _ "m + n"] less_imp_le intro: transferred_failed)
    qed
  qed
  have ok: "0 \<le> sf_count ?r" "0 \<le> sf_offset ?r"
    using assms m by (simp_all add: moved_to_def)
  have "wp (engine_sendfile (sf_fd ?r) (sf_offset ?r) (sf_count ?r)) (sendfile_result ?r v) (io_failed w) v"
    by (rule wp_weaken [OF engine_sendfile_wp [OF ok]])
       (use transferred_io [OF assms(1)] in \<open>auto simp: io_failed_def\<close>)
  then show ?thesis
    unfolding socket_try_sendfile_step_def wp_bnd by (rule wp_weaken) (rule after, assumption+)
qed

lemma transfer_wp:
  assumes "0 \<le> sf_count r" "0 \<le> sf_offset r" "put r w = w"
  shows "wp (socket_try_sendfile (\<lambda>r. upd (put r)) r) (transfer_end r w) (io_failed w) w"
  unfolding socket_try_sendfile_def wp_bnd wp_gets
proof (rule wp_loop [where J = "\<lambda>r' v. \<exists>m \<le> sf_count r. r' = moved_to r m \<and> transferred r w m v"],
    goal_cases)
  case (1 r' v)
  then obtain m where m: "m \<le> sf_count r" "r' = moved_to r m" "transferred r w m v" by auto
  show ?case unfolding m(2) by (rule transfer_round [OF m(3,1) assms(2)])
next
  case (2 r' v)
  then show ?case by (auto intro: transferred_failed)
next
  case 3
  from assms show ?case
    by (intro exI [of _ 0]) (simp add: transferred_def plain_io_def io_step_refl)
qed

end

interpretation fresh_file: tls_store "\<lambda>_ w. w"
  by unfold_locales (simp_all add: io_step_refl)

interpretation queued_file: tls_store
  "\<lambda>r (w :: 'a ssl_transport_scheme). w\<lparr>x_backlog := (x_backlog w)[i := TlsFile r]\<rparr>" for i
  by unfold_locales (simp_all add: io_step_def plain_io_def)

section \<open>The backlog\<close>

text \<open>
  Inside the loop over the backlog, started in \<open>w\<close>: the first \<open>i\<close> items are complete, the
  others are accounted for.
\<close>

definition rest_bytes :: "'a ssl_transport_scheme \<Rightarrow> nat \<Rightarrow> bytes" where
  "rest_bytes v i = concat (map (tls_bytes (files v)) (drop i (x_backlog v)))"

definition drained :: "'a ssl_transport_scheme \<Rightarrow> nat \<Rightarrow> 'a ssl_transport_scheme \<Rightarrow> bool" where
  "drained w i v =
     (io_step w v \<and> i \<le> length (x_backlog v) \<and>
      (\<forall>it \<in> set (drop i (x_backlog v)). tls_good (files v) it) \<and>
      x_size v = int (length (rest_bytes v i)) \<and> e_plain v @ rest_bytes v i = tls_out w)"

lemma drained_failed: "drained w i v \<Longrightarrow> \<not> is_exit_class c \<Longrightarrow> io_failed w (exn_of c) v"
  by (simp add: drained_def io_failed_def is_exit_def exn_of_def)

lemma drained_io_failed: "drained w i v \<Longrightarrow> io_failed v e u \<Longrightarrow> io_failed w e u"
  unfolding drained_def io_failed_def by (blast intro: io_step_trans)

lemma rest_split:
  assumes "i < length (x_backlog v)"
  shows "rest_bytes v i = tls_bytes (files v) (x_backlog v ! i) @ rest_bytes v (Suc i)"
  by (simp add: rest_bytes_def Cons_nth_drop_Suc [OF assms, symmetric])

lemma drained_next:
  \<comment> \<open>the item is complete\<close>
  assumes v: "drained w i v" "i < length (x_backlog v)"
    and u: "io_step v u" "x_backlog u = (x_backlog v)[i := it]" "files u = files v"
    and "e_plain u = e_plain v @ tls_bytes (files v) (x_backlog v ! i)"
    and "x_size u = x_size v - int (length (tls_bytes (files v) (x_backlog v ! i)))"
  shows "drained w (i + 1) u"
proof -
  have r: "rest_bytes u (Suc i) = rest_bytes v (Suc i)" using u by (simp add: rest_bytes_def)
  have d: "drop (Suc i) (x_backlog u) = drop (Suc i) (x_backlog v)" using u by simp
  have g: "\<forall>it \<in> set (drop (Suc i) (x_backlog v)). tls_good (files v) it"
    using v by (auto simp: drained_def Cons_nth_drop_Suc [OF v(2), symmetric])
  show ?thesis
    using v assms(6,7) u io_step_trans [of w v u] rest_split [OF v(2)]
    unfolding drained_def Suc_eq_plus1 [symmetric] r d u(3)
    by (simp add: g)
qed

lemma drained_same:
  \<comment> \<open>a part of the item was sent\<close>
  assumes v: "drained w i v" "i < length (x_backlog v)"
    and u: "io_step v u" "x_backlog u = (x_backlog v)[i := it]" "files u = files v"
    and it: "tls_good (files v) it" "tls_bytes (files v) (x_backlog v ! i) = sent @ tls_bytes (files v) it"
    and "e_plain u = e_plain v @ sent" "x_size u = x_size v - int (length sent)"
  shows "drained w i u"
proof -
  have l: "i < length (x_backlog u)" using v u by simp
  have r: "rest_bytes u i = tls_bytes (files v) it @ rest_bytes v (Suc i)"
    using rest_split [OF l] u v by (simp add: rest_bytes_def)
  have g: "\<forall>it \<in> set (drop (Suc i) (x_backlog v)). tls_good (files v) it"
    using v by (auto simp: drained_def Cons_nth_drop_Suc [OF v(2), symmetric])
  have d: "drop i (x_backlog u) = it # drop (Suc i) (x_backlog v)"
    using u v by (simp add: Cons_nth_drop_Suc [symmetric])
  show ?thesis
    using v u assms(8,9) io_step_trans [of w v u] rest_split [OF v(2)] it
    unfolding drained_def r d u(3)
    by (simp add: g)
qed

lemma item_good: "drained w i v \<Longrightarrow> i < length (x_backlog v) \<Longrightarrow> tls_good (files v) (x_backlog v ! i)"
  by (auto simp: drained_def Cons_nth_drop_Suc [symmetric])

lemma flush_data_wp:
  assumes v: "drained w i v" "i < length (x_backlog v)" and it: "x_backlog v ! i = TlsData d"
  shows "wp (flush_item (socket_methods apps) i (TlsData d))
      (\<lambda>completed u. drained w (if completed then i + 1 else i) u) (io_failed w) v"
proof (cases "aiofn_unpack_simple_buffer False d")
  case (Inl c)
  then have "\<not> is_exit_class c" using unpack_ok_class [OF Inl] by auto
  then show ?thesis using Inl drained_failed [OF v(1)] by (simp add: flush_item_def wps)
next
  case (Inr mem)
  have good: "tls_good (files v) (TlsData d)" using item_good [OF v] it by simp
  have mem: "mem = buf_content d" by (rule unpack_content [OF Inr])
  have ne: "mem \<noteq> []" using good mem by (simp add: tls_good_def tls_bytes_def)
  have len: "py_len d = Inr (int (length mem))"
    using good_len [OF good] by (simp add: tls_len_def tls_bytes_def mem)
  have bi: "byte_items d" using good by (simp add: tls_good_def)
  have after: "wp (bnd (lift_exn (py_len d)) (\<lambda>len.
                case tail of
                  None \<Rightarrow> andthen (upd (\<lambda>w. w\<lparr>x_size := x_size w - len\<rparr>)) (ret True)
                | Some t \<Rightarrow>
                    bnd (lift_exn (py_len t)) (\<lambda>rest.
                      andthen
                        (upd (\<lambda>w. w\<lparr>x_size := x_size w - len + rest,
                                  x_backlog := (x_backlog w)[i := TlsData t]\<rparr>))
                        (ret False))))
      (\<lambda>completed u. drained w (if completed then i + 1 else i) u) (io_failed w) u"
    if wr: "written d mem v tail u" for tail and u
  proof (cases tail)
    case None
    with wr have io: "plain_io mem v u" by (simp add: written_def)
    let ?u = "u\<lparr>x_size := x_size u - int (length mem)\<rparr>"
    have f: "files u = files v" using io by (simp add: plain_io_def io_step_def)
    have "drained w (i + 1) ?u"
      by (rule drained_next [OF v, where it = "TlsData d"])
         (use io it mem f list_update_id [of "x_backlog v" i] in
           \<open>simp_all add: plain_io_def io_step_def tls_bytes_def\<close>)
    then show ?thesis using None by (simp add: wps len)
  next
    case (Some t)
    with wr obtain n where n: "n < length mem" and io: "plain_io (take n mem) v u"
      and t: "t = aiofn_maybe_copy_buffer_tail d (drop n mem)" by (auto simp: written_def)
    have f: "files u = files v" using io by (simp add: plain_io_def io_step_def)
    have ct: "buf_content t = drop n mem"
      using unpack_content [OF tail_content [OF bi Inr]] n t by simp
    have gt: "tls_good (files v) (TlsData t)"
      using n ct bi by (simp add: tls_good_def tls_bytes_def t tail_byte_items tail_immutable)
    have lt: "py_len t = Inr (int (length mem - n))"
      using good_len [OF gt] by (simp add: tls_len_def tls_bytes_def ct)
    let ?u = "u\<lparr>x_size := x_size u - int (length mem) + int (length mem - n),
               x_backlog := (x_backlog u)[i := TlsData t]\<rparr>"
    have "drained w i ?u"
      by (rule drained_same [OF v, where it = "TlsData t" and sent = "take n mem"])
         (use io it mem f ct gt n in \<open>simp_all add: plain_io_def io_step_def tls_bytes_def\<close>)
    then show ?thesis using Some by (simp add: wps len lt)
  qed
  have "wp (write_impl (socket_methods apps) d mem) (written d mem v) (io_failed w) v"
    by (rule wp_weaken [OF write_impl_wp [OF ne]]) (simp_all add: drained_io_failed [OF v(1)])
  then show ?thesis
    unfolding flush_item_def tls_item.case
    by (subst wp_bnd, simp only: Inr run_lift_exn wp_ret, subst wp_bnd)
       (rule wp_weaken, assumption, rule after, assumption+)
qed

lemma complete_transfer_wp:
  "wp (complete_transfer r)
     (\<lambda>_ u. \<exists>fs. u = v\<lparr>futures := fs\<rparr>) (\<lambda>e u. u = v \<and> \<not> is_exit e) v"
  by (auto simp: complete_transfer_def wps fut_set_def is_exit_def exn_of_def split: option.splits)
     (rule exI [of _ "futures v"], simp)

lemma flush_file_wp:
  assumes v: "drained w i v" "i < length (x_backlog v)" and it: "x_backlog v ! i = TlsFile r"
  shows "wp (flush_item (socket_methods apps) i (TlsFile r))
      (\<lambda>completed u. drained w (if completed then i + 1 else i) u) (io_failed w) v"
proof -
  let ?put = "\<lambda>r (w :: 'a ssl_transport_scheme). w\<lparr>x_backlog := (x_backlog w)[i := TlsFile r]\<rparr>"
  let ?Q = "\<lambda>completed u. drained w (if completed then i + 1 else i) u"
  have good: "tls_good (files v) (TlsFile r)" using item_good [OF v] it by simp
  then have bytes: "tls_bytes (files v) (TlsFile r) = req_bytes (files v) r"
    and len: "int (length (req_bytes (files v) r)) = sf_count r" and off: "0 \<le> sf_offset r"
    and pos: "0 \<le> sf_count r"
    by (auto simp: tls_good_def tls_bytes_def req_bytes_def)
  have same: "?put r v = v" using it list_update_id [of "x_backlog v" i] by simp
  have after: "wp (case res of (completed, r') \<Rightarrow>
            andthen (upd (\<lambda>w. w\<lparr>x_size := x_size w - sf_count r + sf_count r'\<rparr>))
              (if \<not> completed then ret False
               else andthen (complete_transfer r')
                 (andthen (upd (\<lambda>w. w\<lparr>x_size := x_size w - sf_count r'\<rparr>)) (ret True))))
      ?Q (io_failed w) u"
    if te: "queued_file.transfer_end i r v res u" for res u
  proof -
    obtain completed r' where res: "res = (completed, r')" by (cases res)
    with te obtain m where r': "r' = moved_to r m" and t: "queued_file.transferred i r v m u"
      and c: "completed \<longleftrightarrow> m = sf_count r"
      by (auto simp: queued_file.transfer_end_def)
    have m: "0 \<le> m" "m \<le> sf_count r"
      and io: "plain_io (take (nat m) (req_bytes (files v) r)) (?put r' v) u"
      using t r' by (auto simp: queued_file.transferred_def)
    have sz: "sf_count r' = sf_count r - m" using r' by (simp add: moved_to_def)
    have step: "io_step v (u\<lparr>futures := fs, x_size := n\<rparr>)" for n fs
      using queued_file.transferred_io [OF t, of "u\<lparr>futures := fs, x_size := n\<rparr>"]
      by (simp add: io_step_def)
    have step1: "io_step v (u\<lparr>x_size := n\<rparr>)" for n
      using queued_file.transferred_io [OF t, of "u\<lparr>x_size := n\<rparr>"]
      by (simp add: io_step_def)
    have f: "files u = files v" "x_backlog u = (x_backlog v)[i := TlsFile r']" "x_size u = x_size v"
      "e_plain u = e_plain v @ take (nat m) (req_bytes (files v) r)"
      using io by (simp_all add: plain_io_def io_step_def)
    show ?thesis
    proof (cases completed)
      case True
      with c have ms: "m = sf_count r" by simp
      let ?n = "x_size u - sf_count r"
      have fin: "drained w (i + 1) (u\<lparr>futures := fs, x_size := ?n\<rparr>)" for fs
        by (rule drained_next [OF v, where it = "TlsFile r'"])
           (use step f len it bytes ms in \<open>simp_all add: nat_le_iff\<close>)
      have fail: "io_failed w e (u\<lparr>x_size := n\<rparr>)" if "\<not> is_exit e" for e n
        using drained_io_failed [OF v(1), of e] step1 [of n] that by (simp add: io_failed_def)
      show ?thesis
        unfolding res prod.case using True
        by (simp add: wp_andthen wp_upd)
           (rule wp_weaken [OF complete_transfer_wp], use fin fail in \<open>auto simp: wps\<close>)
    next
      case False
      with c m have lt: "m < sf_count r" by simp
      have b: "req_bytes (files v) r' = drop (nat m) (req_bytes (files v) r)"
        using req_bytes_moved [OF m off] r' by simp
      have gl: "int (length (req_bytes (files v) r')) = sf_count r'"
        using b len m sz by simp
      have g': "tls_good (files v) (TlsFile r')"
        using gl off m lt sz r'
        by (auto simp: tls_good_def tls_bytes_def req_bytes_def moved_to_def)
      have split: "tls_bytes (files v) (x_backlog v ! i) =
          take (nat m) (req_bytes (files v) r) @ tls_bytes (files v) (TlsFile r')"
      proof -
        have "tls_bytes (files v) (TlsFile r') = drop (nat m) (req_bytes (files v) r)"
          unfolding b [symmetric] by (simp add: tls_bytes_def req_bytes_def)
        then show ?thesis by (simp only: it bytes append_take_drop_id)
      qed
      have nm: "int (length (take (nat m) (req_bytes (files v) r))) = m"
        using len m by simp
      have "drained w i (u\<lparr>x_size := x_size u - sf_count r + sf_count r'\<rparr>)"
        by (rule drained_same [OF v _ _ _ g' split])
           (use step1 f nm sz in simp_all)
      then show ?thesis using False by (simp add: res wps)
    qed
  qed
  have "wp (socket_try_sendfile (\<lambda>r. upd (?put r)) r) (queued_file.transfer_end i r v) (io_failed w) v"
    by (rule wp_weaken [OF queued_file.transfer_wp [OF pos off same]])
       (simp_all add: drained_io_failed [OF v(1)])
  then show ?thesis
    unfolding flush_item_def tls_item.case sync_at_def [abs_def]
    by (subst wp_bnd, simp only: socket_methods_def ssl_methods.select_convs)
       (rule wp_weaken, assumption, rule after, assumption+)
qed

lemma flush_loop_wp:
  assumes "ssl_inv w" "\<not> t_finalizing w"
  shows "wp (loop n (flush_backlog_step (socket_methods apps)) 0) (drained w) (io_failed w) w"
proof (rule wp_loop [where J = "drained w"], goal_cases)
  case (1 i v)
  show ?case
  proof (cases "i < length (x_backlog v)")
    case False
    with 1 show ?thesis by (simp add: flush_backlog_step_def wps)
  next
    case True
    have item: "wp (flush_item (socket_methods apps) i (x_backlog v ! i))
        (\<lambda>completed u. drained w (if completed then i + 1 else i) u) (io_failed w) v"
      using flush_data_wp [OF 1 True] flush_file_wp [OF 1 True] by (cases "x_backlog v ! i") simp_all
    from True show ?thesis
      by (simp add: flush_backlog_step_def wp_bnd wp_gets)
         (rule wp_weaken [OF item], auto simp: wps split: if_splits)
  qed
next
  case (2 i v)
  then show ?case by (rule drained_failed) simp
next
  case 3
  from assms have "accounted w" by (simp add: ssl_inv_def)
  then show ?case
    by (simp add: drained_def io_step_refl accounted_def rest_bytes_def tls_pending_def tls_out_def)
qed

lemma drained_end:
  assumes "ssl_inv w" "\<not> t_finalizing w" "drained w i v"
  shows "ssl_inv (v\<lparr>x_backlog := drop i (x_backlog v)\<rparr>) \<and>
    ssl_rel w (v\<lparr>x_backlog := drop i (x_backlog v)\<rparr>)"
proof (rule io_intact [OF _ assms(1)])
  show "io_step w (v\<lparr>x_backlog := drop i (x_backlog v)\<rparr>)"
    using assms(3) by (simp add: drained_def io_step_def)
qed (use assms(2,3) in \<open>simp_all add: drained_def accounted_def tls_pending_def tls_out_def rest_bytes_def\<close>)

lemma drained_quiet:
  assumes "drained w i v" "quiet_io v u"
  shows "drained w i u"
proof -
  have "io_step w u"
    using assms by (simp add: drained_def quiet_io_def) (metis io_step_trans)
  moreover have "files u = files v" "x_backlog u = x_backlog v" "x_size u = x_size v" "e_plain u = e_plain v"
    using assms(2) by (simp_all add: quiet_io_def io_step_def)
  ultimately show ?thesis using assms(1) by (simp add: drained_def rest_bytes_def)
qed

end
