(* ===== verification/SslOps.thy ===== *)
theory SslOps
  imports SslOutput
begin

text \<open>
  Every operation of the TLS socket transport keeps \<open>ssl_inv\<close> and moves the state by
  \<open>ssl_rel\<close>, for every application whose callbacks do. Operations that may raise in the middle
  of an update are \<open>ssl_safe\<close>: they leave \<open>ssl_broken\<close>, from which the error handlers of the
  source close the transport.
\<close>

section \<open>Steps without callbacks\<close>

lemmas ssl_state_defs =
  ssl_inv_def ssl_weak_def ssl_life_def ssl_rel_def ssl_frame_def ssl_wraps_def wrapped_def
  accounted_def flow_inv_def finalize_count_def tls_out_def tls_pending_def

lemma upd_intact: "(\<And>w. ssl_inv w \<Longrightarrow> ssl_inv (f w) \<and> ssl_rel w (f w)) \<Longrightarrow> steps_in ssl_intact (upd f)"
  by (simp add: steps_in_def intact_def)

lemma log_quietly:
  assumes "\<not> is_life ob" "ob \<noteq> ObPauseWriting" "ob \<noteq> ObResumeWriting"
  shows "ssl_life (w\<lparr>trace := trace w @ [ob]\<rparr>) = ssl_life w"
    "flow_inv x_watermarks (w\<lparr>trace := trace w @ [ob]\<rparr>) = flow_inv x_watermarks w"
proof -
  show "ssl_life (w\<lparr>trace := trace w @ [ob]\<rparr>) = ssl_life w"
    using assms(1) by (auto simp: ssl_life_def life_run_append life_next_def split: option.splits)
  have "flow_run b [ob] = Some b" for b
    using assms(2,3) by (cases ob) simp_all
  then show "flow_inv x_watermarks (w\<lparr>trace := trace w @ [ob]\<rparr>) = flow_inv x_watermarks w"
    by (auto simp: flow_inv_def flow_run_append split: option.splits)
qed

lemma tls_log_weak:
  assumes "\<not> is_life ob" "ob \<noteq> ObPauseWriting" "ob \<noteq> ObResumeWriting"
  shows "ssl_weak (w\<lparr>trace := trace w @ [ob]\<rparr>) = ssl_weak w"
  unfolding ssl_weak_def log_quietly [OF assms] by (simp add: finalize_count_def)

lemma log_intact:
  assumes "\<not> is_life ob" "ob \<noteq> ObPauseWriting" "ob \<noteq> ObResumeWriting"
  shows "steps_in ssl_intact (log ob)"
  unfolding log_def
proof (rule upd_intact)
  fix w :: "'a ssl_transport_scheme"
  assume "ssl_inv w"
  then show "ssl_inv (w\<lparr>trace := trace w @ [ob]\<rparr>) \<and> ssl_rel w (w\<lparr>trace := trace w @ [ob]\<rparr>)"
    unfolding ssl_inv_def tls_log_weak [OF assms]
    by (simp add: ssl_rel_def ssl_frame_def ssl_wraps_def wrapped_def accounted_def tls_out_def
        tls_pending_def finalize_count_def)
qed

lemma handler_intact: "steps_in ssl_intact (call_exception_handler msg e ctx)"
  unfolding call_exception_handler_def by (rule log_intact) (simp_all add: is_life_def)

lemma check_thread_intact: "steps_in ssl_intact check_thread"
  unfolding check_thread_def by (intro ti.order_rules)

text \<open>Updates of fields that neither the invariant nor the relation reads.\<close>

lemma weak_rest:
  assumes "ssl_life v" "flow_inv x_watermarks v"
    "finalize_count v = finalize_count w" "x_writer v = x_writer w" "writer_on v = writer_on w"
    "reader_on v = reader_on w" "x_had_eagain v \<longrightarrow> x_had_eagain w" "x_state v = x_state w"
    "t_finalizing v = t_finalizing w" "x_size v = x_size w" "x_open v = x_open w" "x_loop v = x_loop w"
  shows "ssl_weak w \<Longrightarrow> ssl_weak v"
  unfolding ssl_weak_def using assms by auto

lemma weak_same:
  assumes "ssl_life v = ssl_life w" "flow_inv x_watermarks v = flow_inv x_watermarks w"
    "finalize_count v = finalize_count w" "x_writer v = x_writer w" "writer_on v = writer_on w"
    "reader_on v = reader_on w" "x_had_eagain v \<longrightarrow> x_had_eagain w" "x_state v = x_state w"
    "t_finalizing v = t_finalizing w" "x_size v = x_size w" "x_open v = x_open w" "x_loop v = x_loop w"
  shows "ssl_weak w \<Longrightarrow> ssl_weak v"
proof -
  assume w: "ssl_weak w"
  then have "ssl_life v" "flow_inv x_watermarks v" by (simp_all add: assms(1,2) ssl_weak_def)
  from weak_rest [OF this assms(3-12) w] show ?thesis .
qed

lemma same_intact:
  assumes "ssl_life v = ssl_life w" "flow_inv x_watermarks v = flow_inv x_watermarks w"
    "finalize_count v = finalize_count w" "x_writer v = x_writer w" "writer_on v = writer_on w"
    "reader_on v = reader_on w" "x_had_eagain v \<longrightarrow> x_had_eagain w" "x_state v = x_state w"
    "t_finalizing v = t_finalizing w" "x_size v = x_size w" "x_open v = x_open w" "x_loop v = x_loop w"
    and "t_connected v = t_connected w" "files v = files w" "t_thread_id v = t_thread_id w"
    "x_backlog v = x_backlog w" "e_plain v = e_plain w"
  shows "ssl_intact w v"
  using weak_same [OF assms(1-12)] assms
  by (simp add: intact_def ssl_inv_def ssl_rel_def ssl_frame_def ssl_wraps_def wrapped_def
      accounted_def tls_out_def tls_pending_def)

lemma upd_same: "(\<And>w. ssl_intact w (f w)) \<Longrightarrow> steps_in ssl_intact (upd f)"
  by (simp add: steps_in_def)

lemma field_intact:
  "steps_in ssl_intact (upd (\<lambda>w. w\<lparr>x_shutdown_timer := b\<rparr>))"
  "steps_in ssl_intact (upd (\<lambda>w. w\<lparr>x_handshake_timer := b\<rparr>))"
  "steps_in ssl_intact (upd (\<lambda>w. w\<lparr>x_closed_count := x_closed_count w + 1\<rparr>))"
  "steps_in ssl_intact (upd (\<lambda>w. w\<lparr>x_next_request := x_next_request w + 1\<rparr>))"
  "steps_in ssl_intact (upd (\<lambda>w. w\<lparr>x_had_eagain := False\<rparr>))"
  "steps_in ssl_intact (upd (\<lambda>w. w\<lparr>t_read_paused := b\<rparr>))"
  "steps_in ssl_intact (upd (\<lambda>w. w\<lparr>futures := fs w\<rparr>))"
  by (rule upd_same, rule same_intact; simp add: ssl_life_def flow_inv_def finalize_count_def)+

lemma future_intact: "steps_in ssl_intact (fut_set i s)" "steps_in ssl_intact create_future"
proof -
  show "steps_in ssl_intact (fut_set i s)"
    unfolding fut_set_def by (intro ti.order_rules field_intact)
  show "steps_in ssl_intact create_future"
    using field_intact(7) [of "\<lambda>w. futures w @ [FutPending]"]
    by (simp add: steps_in_def create_future_def)
qed

lemma soon_intact: "(\<And>e. s \<noteq> SoonFinalizeClose e) \<Longrightarrow> steps_in ssl_intact (call_soon s)"
  unfolding call_soon_def
  by (rule upd_same, rule same_intact)
     (simp_all add: ssl_life_def flow_inv_def finalize_count_def split: soon.splits)

lemma drop_writer_wp:
  "wp drop_writer (\<lambda>_ u. \<exists>x y. u = w\<lparr>x_writer := x, writer_on := y\<rparr> \<and>
     (x_open w \<and> x_writer w \<longrightarrow> \<not> x \<and> \<not> y) \<and>
     (\<not> (x_open w \<and> x_writer w) \<longrightarrow> x = x_writer w \<and> y = writer_on w)) E w"
proof -
  have "w = w\<lparr>x_writer := x_writer w, writer_on := writer_on w\<rparr>" by simp
  then show ?thesis
    by (auto simp: drop_writer_def remove_writer_def wps)
qed

section \<open>Closing\<close>

lemma release_some:
  "\<exists>f. for_each q (release_ssl_waiter (Some e)) w = (Inr (), w\<lparr>futures := f\<rparr>)"
proof (induction q arbitrary: w)
  case Nil
  show ?case by simp (rule exI [of _ "futures w"], simp)
next
  case (Cons it q)
  have s: "\<exists>f. w = w\<lparr>futures := f\<rparr>" for w :: "'a ssl_transport_scheme"
    by (rule exI [of _ "futures w"]) simp
  have "\<exists>f. release_ssl_waiter (Some e) it w = (Inr (), w\<lparr>futures := f\<rparr>)"
    by (auto simp: release_ssl_waiter_def run fut_set_def s split: tls_item.splits option.splits)
  then obtain f where f: "release_ssl_waiter (Some e) it w = (Inr (), w\<lparr>futures := f\<rparr>)" by blast
  obtain f' where "for_each q (release_ssl_waiter (Some e)) (w\<lparr>futures := f\<rparr>) =
      (Inr (), w\<lparr>futures := f\<rparr>\<lparr>futures := f'\<rparr>)"
    using Cons.IH by blast
  with f show ?case by (simp add: run) blast
qed

lemma release_none:
  "wp (for_each q (release_ssl_waiter None)) (\<lambda>_ u. u = w) (\<lambda>e u. u = w \<and> e = exn_of TypeErr) w"
proof (induction q)
  case Nil
  show ?case by (simp add: wp_def)
next
  case (Cons it q)
  have "wp (release_ssl_waiter None it) (\<lambda>_ u. u = w) (\<lambda>e u. u = w \<and> e = exn_of TypeErr) w"
    by (simp add: release_ssl_waiter_def wps split: tls_item.splits option.splits)
  then show ?case
    unfolding for_each.simps wp_andthen by (rule wp_weaken) (simp_all add: Cons.IH)
qed

definition closed_by :: "'a ssl_transport_scheme \<Rightarrow> 'a ssl_transport_scheme \<Rightarrow> bool" where
  "closed_by v u =
     (ssl_weak u \<and> t_finalizing u \<and> ssl_frame v u \<and> ssl_wraps v u)"

lemma close_wp:
  assumes "ssl_weak v" "x_state v \<noteq> DO_HANDSHAKE" "\<not> t_finalizing v" "x_size v = 0"
  shows "wp (block [drop_writer, remove_reader, schedule_finalize_close exc]) (\<lambda>_ u. closed_by v u) E v"
proof -
  have v: "x_open v" "x_writer v = writer_on v" "finalize_count v = 0"
    using assms(1,3) by (simp_all add: ssl_weak_def)
  have l: "ssl_life v" "flow_inv x_watermarks v" using assms(1) by (simp_all add: ssl_weak_def)
  have "closed_by v (v\<lparr>x_writer := False, writer_on := False, reader_on := False,
      t_finalizing := True, soon := soon v @ [SoonFinalizeClose exc]\<rparr>)"
    using assms(2-4) v l
    by (auto simp: closed_by_def ssl_weak_def ssl_frame_def ssl_wraps_def wrapped_def ssl_life_def
        flow_inv_def finalize_count_def)
  then show ?thesis
    unfolding wp_block wp_andthen
    by (rule_tac wp_weaken [OF drop_writer_wp])
       (use v in \<open>auto simp: wps remove_reader_def schedule_finalize_close_def call_soon_def\<close>)
qed

lemma force_close_wp:
  assumes "ssl_weak v" "x_state v \<noteq> DO_HANDSHAKE"
  shows "wp (socket_force_close exc) (\<lambda>_ u. closed_by v u)
      (\<lambda>e u. exc = None \<and> u = v \<and> e = exn_of TypeErr) v"
proof (cases "t_finalizing v")
  case True
  with assms show ?thesis
    by (simp add: socket_force_close_def wps closed_by_def ssl_frame_refl ssl_wraps_refl)
next
  case False
  then have "x_open v" using assms(1) by (simp add: ssl_weak_def)
  have w0: "ssl_weak (v\<lparr>x_size := 0\<rparr>)"
    using assms(1) False unfolding ssl_weak_def
    by (simp only: ssl_life_def flow_inv_def finalize_count_def) auto
  define E where "E = (\<lambda>e u. exc = None \<and> u = v \<and> e = exn_of TypeErr)"
  have closed: "wp (block [drop_writer, remove_reader, schedule_finalize_close exc]) (\<lambda>_ u. closed_by v u) E u"
    if "u = v\<lparr>futures := fs, x_backlog := q, x_size := 0\<rparr>" for u fs q
  proof -
    have u: "ssl_weak u" "x_state u \<noteq> DO_HANDSHAKE" "\<not> t_finalizing u" "x_size u = 0"
      using assms(2) False weak_same [of u "v\<lparr>x_size := 0\<rparr>"]
      by (simp_all add: that ssl_life_def flow_inv_def finalize_count_def w0)
    have "closed_by u x \<Longrightarrow> closed_by v x" for x
      by (simp add: that closed_by_def ssl_frame_def ssl_wraps_def wrapped_def finalize_count_def)
    with close_wp [OF u] show ?thesis by (rule wp_weaken)
  qed
  have clear: "wp (unless (\<lambda>w. x_size w = 0) (ssl_clear_write_backlog exc))
      (\<lambda>_ u. \<exists>fs q. u = v\<lparr>futures := fs, x_backlog := q, x_size := 0\<rparr>) E v"
  proof (cases "x_size v = 0")
    case True
    then have "v = v\<lparr>futures := futures v, x_backlog := x_backlog v, x_size := 0\<rparr>" by simp
    then have "\<exists>fs q. v = v\<lparr>futures := fs, x_backlog := q, x_size := 0\<rparr>" by blast
    then show ?thesis unfolding wp_unless if_P [OF True] .
  next
    case False
    have "wp (for_each (x_backlog v) (release_ssl_waiter exc)) (\<lambda>_ u. \<exists>fs. u = v\<lparr>futures := fs\<rparr>) E v"
    proof (cases exc)
      case None
      have "\<exists>fs. v = v\<lparr>futures := fs\<rparr>" by (rule exI [of _ "futures v"]) simp
      then show ?thesis
        unfolding None by (intro wp_weaken [OF release_none]) (auto simp: E_def None)
    next
      case (Some e)
      obtain f where "for_each (x_backlog v) (release_ssl_waiter (Some e)) v = (Inr (), v\<lparr>futures := f\<rparr>)"
        using release_some by blast
      then show ?thesis unfolding Some wp_def by (simp only: prod.case sum.case) blast
    qed
    then show ?thesis
      unfolding ssl_clear_write_backlog_def wp_unless if_not_P [OF False] wp_block wp_bnd wp_gets
      by (rule wp_weaken) (unfold wp_upd, blast)
  qed
  show ?thesis
    unfolding socket_force_close_def wp_unless E_def [symmetric]
    using \<open>x_open v\<close> False
    by (simp add: wp_block(3) [of "unless _ _"])
       (rule wp_weaken [OF clear], use closed in \<open>auto\<close>)
qed

section \<open>Errors\<close>

lemma tls_closed_inv: "closed_by v u \<Longrightarrow> ssl_inv u"
  by (simp add: closed_by_def ssl_inv_def)

lemma closed_rel: "closed_by v u \<Longrightarrow> ssl_rel v u"
  by (simp add: closed_by_def ssl_rel_def)

lemma closed_trans: "ssl_frame w v \<Longrightarrow> ssl_wraps w v \<Longrightarrow> closed_by v u \<Longrightarrow> closed_by w u"
  unfolding closed_by_def using ssl_frame_trans [of w v u] ssl_wraps_trans [of w v u] by blast

lemma closed_log:
  assumes "closed_by v u" "\<not> is_life ob" "ob \<noteq> ObPauseWriting" "ob \<noteq> ObResumeWriting"
  shows "closed_by v (u\<lparr>trace := trace u @ [ob]\<rparr>)"
  using assms(1) unfolding closed_by_def tls_log_weak [OF assms(2-4)]
  by (simp add: ssl_frame_def ssl_wraps_def wrapped_def finalize_count_def)

lemma closed_future: "closed_by v u \<Longrightarrow> closed_by v (u\<lparr>futures := fs\<rparr>)"
  using weak_same [of "u\<lparr>futures := fs\<rparr>" u]
  by (simp add: closed_by_def ssl_frame_def ssl_wraps_def wrapped_def finalize_count_def ssl_life_def
      flow_inv_def)

lemma set_state_wp:
  "(transition_allowed (x_state w) s \<Longrightarrow> Q () (w\<lparr>x_state := s\<rparr>)) \<Longrightarrow> E (exn_of RuntimeErr) w \<Longrightarrow>
     wp (set_state s) Q E w"
  by (simp add: set_state_def wps)

lemma unwrap_wp: "Q () (w\<lparr>x_state := UNWRAPPED\<rparr>) \<Longrightarrow> wp (set_state UNWRAPPED) Q E w"
  by (simp add: set_state_def wps)

lemma fatal_wp:
  assumes "ssl_weak v" "x_state v \<noteq> DO_HANDSHAKE"
  shows "wp (ssl_fatal_error (socket_methods apps) e msg) (\<lambda>_ u. closed_by v u) E v"
proof -
  have "wp (socket_force_close (Some e)) (\<lambda>_ u. closed_by v u) E v"
    by (rule wp_weaken [OF force_close_wp [OF assms]]) simp_all
  then show ?thesis
    unfolding ssl_fatal_error_def wp_block socket_methods_def ssl_methods.select_convs
    by (rule wp_weaken)
       (auto simp: wps call_exception_handler_def log_def is_life_def intro: closed_log)
qed

lemma shutdown_failed_wp:
  assumes "ssl_weak v" "x_state v \<noteq> DO_HANDSHAKE"
  shows "wp (on_shutdown_complete (socket_methods apps) (Some e)) (\<lambda>_ u. closed_by v u) E v"
proof -
  let ?v = "v\<lparr>x_shutdown_timer := False\<rparr>"
  have v: "ssl_weak ?v" "x_state ?v \<noteq> DO_HANDSHAKE"
    using assms weak_same [of ?v v] by (simp_all add: ssl_life_def flow_inv_def finalize_count_def)
  have "closed_by ?v u \<Longrightarrow> closed_by v u" for u
    by (simp add: closed_by_def ssl_frame_def ssl_wraps_def wrapped_def finalize_count_def)
  with fatal_wp [OF v] show ?thesis
    unfolding on_shutdown_complete_def wp_block wp_upd option.case by (rule wp_weaken)
qed

lemma wakeup_waiter_wp: "(\<And>fs. Q () (w\<lparr>futures := fs\<rparr>)) \<Longrightarrow> wp (wakeup_waiter exc) Q E w"
proof -
  assume q: "\<And>fs. Q () (w\<lparr>futures := fs\<rparr>)"
  from q [of "futures w"] have "Q () w" by simp
  with q show ?thesis by (auto simp: wakeup_waiter_def fut_set_def wps split: option.splits)
qed

lemma unwrapped_weak:
  "ssl_weak v \<Longrightarrow> ssl_weak (v\<lparr>x_state := UNWRAPPED\<rparr>)"
  unfolding ssl_weak_def by (simp only: ssl_life_def flow_inv_def finalize_count_def) auto

lemma handshake_failed_wp:
  assumes "ssl_weak v"
  shows "wp (on_handshake_complete apps (socket_methods apps) (Some e)) (\<lambda>_ u. closed_by v u) E v"
proof -
  let ?u = "v\<lparr>x_handshake_timer := False, x_state := UNWRAPPED\<rparr>"
  have "ssl_weak (v\<lparr>x_handshake_timer := False\<rparr>)"
    using assms weak_same [of "v\<lparr>x_handshake_timer := False\<rparr>" v]
    by (simp add: ssl_life_def flow_inv_def finalize_count_def)
  then have u: "ssl_weak ?u" "x_state ?u \<noteq> DO_HANDSHAKE"
    using unwrapped_weak [of "v\<lparr>x_handshake_timer := False\<rparr>"] by simp_all
  have "state_rank (x_state v) \<le> 4" by (cases "x_state v") simp_all
  then have "ssl_frame v ?u" "ssl_wraps v ?u"
    by (simp_all add: ssl_frame_def ssl_wraps_def wrapped_def finalize_count_def)
  then have c: "closed_by ?u x \<Longrightarrow> closed_by v x" for x by (rule closed_trans)
  show ?thesis
    unfolding on_handshake_complete_def wp_block wp_upd option.case
    by (rule unwrap_wp, rule wp_weaken [OF fatal_wp [OF u]])
       (auto intro!: wakeup_waiter_wp closed_future c)
qed

lemma handle_error_wp:
  assumes "ssl_weak v" "\<not> is_exit e"
  shows "wp (ssl_handle_error apps (socket_methods apps) msg e) (\<lambda>_ u. closed_by v u) E v"
  using assms
  by (simp add: ssl_handle_error_def wps handshake_failed_wp shutdown_failed_wp fatal_wp)

lemma handler_repairs:
  assumes "ssl_inv w" "ssl_broken w e v"
  shows "wp (ssl_handle_error apps (socket_methods apps) msg e)
      (\<lambda>_ u. ssl_inv u \<and> ssl_rel w u) (\<lambda>_ u. ssl_inv u \<and> ssl_rel w u) v"
proof (cases "is_exit e")
  case True
  with assms show ?thesis by (simp add: ssl_handle_error_def wps ssl_broken_def)
next
  case False
  have v: "ssl_weak v" "ssl_frame w v" "ssl_wraps w v" using assms(2) by (simp_all add: ssl_broken_def)
  show ?thesis
    by (rule wp_weaken [OF handle_error_wp [OF v(1) False]])
       (auto intro: tls_closed_inv closed_rel closed_trans [OF v(2,3)])
qed

lemmas tls_handled = tls.handled [OF _ handler_repairs]

section \<open>Flow control\<close>

lemma intact_steps:
  assumes "ssl_intact u w" "steps_in ssl_intact m"
  shows "wp m (\<lambda>_. ssl_intact u) (\<lambda>_. ssl_intact u) w"
  by (rule wp_steps_in [OF assms(2)]) (use assms(1) ti.order_trans in blast)+

lemma call_flow_intact:
  assumes "\<And>a. proto = Some a \<Longrightarrow> steps_in ssl_intact (cb a)"
    and "ssl_intact u (w\<lparr>trace := trace w @ [ob]\<rparr>)"
  shows "wp (call_flow ob cb msg ctx proto) (\<lambda>_. ssl_intact u) (\<lambda>_. ssl_intact u) w"
proof -
  have c: "steps_in ssl_intact (case proto of None \<Rightarrow> raise AttributeErr | Some a \<Rightarrow> cb a)"
    using assms(1) by (auto intro: ti.raise_in split: option.splits)
  have h: "steps_in ssl_intact (if is_exit e then reraise e else call_exception_handler msg e ctx)" for e
    by (auto intro: ti.reraise_in handler_intact)
  have "steps_in ssl_intact
          (try_except (case proto of None \<Rightarrow> raise AttributeErr | Some a \<Rightarrow> cb a)
             (\<lambda>e. if is_exit e then reraise e else call_exception_handler msg e ctx))"
    by (intro ti.try_except_in c h)
  from intact_steps [OF assms(2) this] show ?thesis
    by (simp add: call_flow_def log_def wps)
qed

lemma flow_same:
  assumes "ob \<in> {ObPauseWriting, ObResumeWriting}" "wm_paused (x_watermarks w) = (ob = ObResumeWriting)"
    and "b = (ob = ObPauseWriting)"
  shows "ssl_intact w
      (x_watermarks_update (wm_paused_update (\<lambda>_. b)) w\<lparr>trace := trace w @ [ob]\<rparr>)" (is "ssl_intact w ?w")
proof (rule same_intact)
  have "life_run s [ob] = Some s" for s
    using assms(1) by (auto simp: life_next_def is_life_def)
  then have "life_run s (tr @ [ob]) = life_run s tr" for s tr
    by (simp add: life_run_append split: option.split)
  then show "ssl_life ?w = ssl_life w" by (simp add: ssl_life_def)
  show "flow_inv x_watermarks ?w = flow_inv x_watermarks w"
    using assms by (auto simp: flow_inv_def flow_run_append split: option.splits if_splits)
qed (simp_all add: finalize_count_def)

lemma pause_raw_intact:
  assumes "\<And>a. proto = Some a \<Longrightarrow> steps_in ssl_intact (on_pause_writing a)"
  shows "steps_in ssl_intact (maybe_pause_protocol_raw x_watermarks x_watermarks_update proto n)"
proof (rule steps_in_wp)
  fix w :: "'a ssl_transport_scheme"
  show "wp (maybe_pause_protocol_raw x_watermarks x_watermarks_update proto n)
          (\<lambda>_. ssl_intact w) (\<lambda>_. ssl_intact w) w"
    using flow_same [of ObPauseWriting w True]
    unfolding maybe_pause_protocol_raw_def
    by (auto simp: wps ti.order_refl intro!: call_flow_intact assms)
qed

lemma resume_raw_intact:
  assumes "\<And>a. proto = Some a \<Longrightarrow> steps_in ssl_intact (on_resume_writing a)"
  shows "steps_in ssl_intact (maybe_resume_protocol_raw x_watermarks x_watermarks_update proto n)"
proof (rule steps_in_wp)
  fix w :: "'a ssl_transport_scheme"
  show "wp (maybe_resume_protocol_raw x_watermarks x_watermarks_update proto n)
          (\<lambda>_. ssl_intact w) (\<lambda>_. ssl_intact w) w"
    using flow_same [of ObResumeWriting w False]
    unfolding maybe_resume_protocol_raw_def
    by (auto simp: wps ti.order_refl intro!: call_flow_intact assms)
qed

lemma set_limits_raw_intact:
  "steps_in ssl_intact
     (bnd (gets (\<lambda>w. set_write_buffer_limits_raw high low (x_watermarks w)))
        (\<lambda>r. bnd (lift_exn r) (\<lambda>wm. upd (x_watermarks_update (\<lambda>_. wm)))))"
proof (rule steps_in_wp)
  fix w :: "'a ssl_transport_scheme"
  have "ssl_intact w (w\<lparr>x_watermarks := wm\<rparr>)" if "wm_paused wm = wm_paused (x_watermarks w)" for wm
    by (rule same_intact) (simp_all add: that ssl_life_def flow_inv_def finalize_count_def)
  then show "wp (bnd (gets (\<lambda>w. set_write_buffer_limits_raw high low (x_watermarks w)))
        (\<lambda>r. bnd (lift_exn r) (\<lambda>wm. upd (x_watermarks_update (\<lambda>_. wm)))))
        (\<lambda>_. ssl_intact w) (\<lambda>_. ssl_intact w) w"
    by (auto simp: wps ti.order_refl split: sum.splits dest!: set_limits_ok)
qed

section \<open>The state machine\<close>

lemma state_step:
  assumes "s \<in> {FLUSHING, SHUTDOWN, UNWRAPPED}" "transition_allowed (x_state w) s" "ssl_inv w"
  shows "ssl_inv (w\<lparr>x_state := s\<rparr>)" "ssl_rel w (w\<lparr>x_state := s\<rparr>)"
proof -
  let ?w = "w\<lparr>x_state := s\<rparr>"
  have r: "state_rank (x_state w) \<le> state_rank s" "wrapped ?w \<Longrightarrow> wrapped w"
    using assms(1,2) by (cases "x_state w"; auto simp: wrapped_def)+
  have "ssl_weak ?w"
    using assms(1,3) by (simp only: ssl_inv_def ssl_weak_def ssl_life_def flow_inv_def finalize_count_def) auto
  moreover have "accounted ?w = accounted w" by (simp add: accounted_def tls_pending_def)
  ultimately show "ssl_inv ?w" using assms(3) r(2) by (simp add: ssl_inv_def)
  show "ssl_rel w ?w"
    using r by (auto simp: ssl_rel_def ssl_frame_def ssl_wraps_def tls_out_def tls_pending_def
        finalize_count_def)
qed

lemma state_intact:
  assumes "s \<in> {FLUSHING, SHUTDOWN, UNWRAPPED}"
  shows "steps_in ssl_intact (set_state s)"
  by (rule steps_in_wp, rule set_state_wp)
     (auto simp: intact_def ssl_rel_refl dest: state_step [OF assms])

lemma force_close_post:
  assumes "ssl_inv w" "x_state w \<noteq> DO_HANDSHAKE"
  shows "wp (socket_force_close exc) (\<lambda>_ u. ssl_inv u \<and> ssl_rel w u) (\<lambda>_ u. ssl_inv u \<and> ssl_rel w u) w"
  by (rule wp_weaken [OF force_close_wp [OF ssl_inv_weak [OF assms(1)] assms(2)]])
     (use assms(1) in \<open>auto intro: tls_closed_inv closed_rel ssl_rel_refl\<close>)

lemma abort_intact: "steps_in ssl_intact (abort_with (socket_methods apps) exc)"
proof (rule steps_in_wp)
  fix w :: "'a ssl_transport_scheme"
  show "wp (abort_with (socket_methods apps) exc) (\<lambda>_. ssl_intact w) (\<lambda>_. ssl_intact w) w"
  proof (cases "ssl_inv w")
    case True
    have u: "ssl_inv (w\<lparr>x_state := UNWRAPPED\<rparr>)" "ssl_rel w (w\<lparr>x_state := UNWRAPPED\<rparr>)"
      by (rule state_step [OF _ _ True]; simp)+
    have c: "wp (socket_force_close exc) (\<lambda>_. ssl_intact w) (\<lambda>_. ssl_intact w) v"
      if "ssl_inv v" "ssl_rel w v" "x_state v = UNWRAPPED" for v
      by (rule wp_weaken [OF force_close_post])
         (use that ssl_rel_trans in \<open>auto simp: intact_def\<close>)
    show ?thesis
      unfolding abort_with_def wp_block wp_unless socket_methods_def ssl_methods.select_convs
      using c [of w] c [of "w\<lparr>x_state := UNWRAPPED\<rparr>"] u True ssl_rel_refl [of w]
      by (simp add: set_state_def wps)
  next
    case False
    then have "ssl_intact w = (\<lambda>_. True)" by (simp add: intact_def fun_eq_iff)
    then show ?thesis by (simp add: wp_true)
  qed
qed

end
