(* ===== verification/SslRun.thy ===== *)
theory SslRun
  imports SslOps
begin

text \<open>
  The operations of the TLS socket transport, one after the other, for every application whose
  callbacks keep \<open>ssl_inv\<close> and move the state by \<open>ssl_rel\<close>. What an operation may rely on is
  an instance of \<open>guarded\<close>: \<open>post\<close> after the handshake, \<open>conn\<close> while the application is
  connected, \<open>live\<close> inside the event handlers, where a connection that has left the handshake
  was announced.
\<close>

section \<open>Stronger preconditions\<close>

lemma safe_within:
  assumes "safe I R X m" "\<And>w v. I w \<Longrightarrow> P w \<Longrightarrow> I v \<Longrightarrow> R w v \<Longrightarrow> P v" "\<And>w e v. X w e v \<Longrightarrow> X' w e v"
  shows "safe (\<lambda>w. I w \<and> P w) R X' m"
proof (rule safeI)
  fix w
  assume "I w \<and> P w"
  then show "wp m (\<lambda>_ v. (I v \<and> P v) \<and> R w v) (X' w) w"
    by (intro wp_weaken [OF safeD [OF assms(1)]]) (use assms(2,3) in blast)+
qed

definition ssl_failed :: "'a ssl_transport_scheme \<Rightarrow> exn \<Rightarrow> 'a ssl_transport_scheme \<Rightarrow> bool" where
  "ssl_failed w e v = (ssl_frame w v \<and> ssl_weak v \<and> (is_exit e \<longrightarrow> ssl_inv v \<and> ssl_rel w v))"

abbreviation ssl_post :: "'a ssl_transport_scheme \<Rightarrow> bool" where
  "ssl_post w \<equiv> ssl_inv w \<and> x_state w \<noteq> DO_HANDSHAKE"

abbreviation ssl_conn :: "'a ssl_transport_scheme \<Rightarrow> bool" where
  "ssl_conn w \<equiv> ssl_inv w \<and> t_connected w"

abbreviation ssl_live :: "'a ssl_transport_scheme \<Rightarrow> bool" where
  "ssl_live w \<equiv> ssl_inv w \<and> (wrapped w \<longrightarrow> t_connected w)"

abbreviation post_safe :: "('a ssl_transport_scheme, 'b) prog \<Rightarrow> bool" where
  "post_safe m \<equiv> safe ssl_post ssl_rel ssl_broken m"

abbreviation conn_safe :: "('a ssl_transport_scheme, 'b) prog \<Rightarrow> bool" where
  "conn_safe m \<equiv> safe ssl_conn ssl_rel ssl_broken m"

abbreviation live_safe :: "('a ssl_transport_scheme, 'b) prog \<Rightarrow> bool" where
  "live_safe m \<equiv> safe ssl_live ssl_rel ssl_failed m"

lemma broken_failed: "ssl_broken w e v \<Longrightarrow> ssl_failed w e v"
  by (simp add: ssl_broken_def ssl_failed_def)

lemma later_broken: "ssl_rel w v \<Longrightarrow> ssl_broken v e u \<Longrightarrow> ssl_broken w e u"
  unfolding ssl_broken_def using ssl_rel_trans ssl_frame_trans ssl_wraps_trans ssl_rel_def by blast

interpretation post: guarded ssl_post ssl_rel ssl_broken
proof
  show "ssl_rel w w" for w :: "'a ssl_transport_scheme" by (rule ssl_rel_refl)
  show "ssl_rel w v \<Longrightarrow> ssl_rel v u \<Longrightarrow> ssl_rel w u" for w v u :: "'a ssl_transport_scheme"
    by (rule ssl_rel_trans)
  show "ssl_post w \<Longrightarrow> ssl_post v \<Longrightarrow> ssl_rel w v \<Longrightarrow> ssl_broken w e v"
    for w v :: "'a ssl_transport_scheme" and e
    by (auto intro: tls.X_intact)
  show "ssl_post w \<Longrightarrow> ssl_post v \<Longrightarrow> ssl_rel w v \<Longrightarrow> ssl_broken v e u \<Longrightarrow> ssl_broken w e u"
    for w v u :: "'a ssl_transport_scheme" and e
    by (rule later_broken)
qed

interpretation conn: guarded ssl_conn ssl_rel ssl_broken
proof
  show "ssl_rel w w" for w :: "'a ssl_transport_scheme" by (rule ssl_rel_refl)
  show "ssl_rel w v \<Longrightarrow> ssl_rel v u \<Longrightarrow> ssl_rel w u" for w v u :: "'a ssl_transport_scheme"
    by (rule ssl_rel_trans)
  show "ssl_conn w \<Longrightarrow> ssl_conn v \<Longrightarrow> ssl_rel w v \<Longrightarrow> ssl_broken w e v"
    for w v :: "'a ssl_transport_scheme" and e
    by (auto intro: tls.X_intact)
  show "ssl_conn w \<Longrightarrow> ssl_conn v \<Longrightarrow> ssl_rel w v \<Longrightarrow> ssl_broken v e u \<Longrightarrow> ssl_broken w e u"
    for w v u :: "'a ssl_transport_scheme" and e
    by (rule later_broken)
qed

interpretation live: guarded ssl_live ssl_rel ssl_failed
proof
  show "ssl_rel w w" for w :: "'a ssl_transport_scheme" by (rule ssl_rel_refl)
  show "ssl_rel w v \<Longrightarrow> ssl_rel v u \<Longrightarrow> ssl_rel w u" for w v u :: "'a ssl_transport_scheme"
    by (rule ssl_rel_trans)
  show "ssl_live w \<Longrightarrow> ssl_live v \<Longrightarrow> ssl_rel w v \<Longrightarrow> ssl_failed w e v"
    for w v :: "'a ssl_transport_scheme" and e
    by (auto intro: broken_failed tls.X_intact)
  show "ssl_live w \<Longrightarrow> ssl_live v \<Longrightarrow> ssl_rel w v \<Longrightarrow> ssl_failed v e u \<Longrightarrow> ssl_failed w e u"
    for w v u :: "'a ssl_transport_scheme" and e
    unfolding ssl_failed_def using ssl_rel_trans ssl_frame_trans ssl_rel_def by blast
qed

lemma post_keeps: "x_state w \<noteq> DO_HANDSHAKE \<Longrightarrow> ssl_rel w v \<Longrightarrow> x_state v \<noteq> DO_HANDSHAKE"
  by (cases "x_state w") (auto simp: ssl_rel_def ssl_frame_def)

lemma conn_keeps: "t_connected w \<Longrightarrow> ssl_rel w v \<Longrightarrow> t_connected v"
  by (simp add: ssl_rel_def ssl_frame_def)

lemma live_keeps: "wrapped w \<longrightarrow> t_connected w \<Longrightarrow> ssl_rel w v \<Longrightarrow> wrapped v \<longrightarrow> t_connected v"
  by (auto simp: ssl_rel_def ssl_wraps_def ssl_frame_def)

lemma post_of_tls: "ssl_safe m \<Longrightarrow> post_safe m"
  by (erule safe_within) (use post_keeps in blast)+

lemma conn_of_tls: "ssl_safe m \<Longrightarrow> conn_safe m"
  by (erule safe_within) (use conn_keeps in blast)+

lemma live_of_tls: "ssl_safe m \<Longrightarrow> live_safe m"
  by (erule safe_within) (use live_keeps broken_failed in blast)+

lemmas post_of_intact = post_of_tls [OF tls.safe_intact]
lemmas conn_of_intact = conn_of_tls [OF tls.safe_intact]
lemmas live_of_intact = live_of_tls [OF tls.safe_intact]
lemmas post_of_quiet = post_of_tls [OF safe_quiet]
lemmas live_of_quiet = live_of_tls [OF safe_quiet]

section \<open>Callbacks\<close>

lemma log_life:
  assumes "ssl_inv w" "t_connected w" "ob \<in> {ObDataReceived d, ObGetBuffer, ObBufferUpdated d}"
  shows "ssl_inv (w\<lparr>trace := trace w @ [ob]\<rparr>)" "ssl_rel w (w\<lparr>trace := trace w @ [ob]\<rparr>)"
proof -
  have n: "life_next (Connected, b) ob = Some (Connected, b)" for b
    using assms(3) by (auto simp: life_next_def is_life_def)
  have "flow_run b [ob] = Some b" for b using assms(3) by auto
  then have f: "flow_inv x_watermarks (w\<lparr>trace := trace w @ [ob]\<rparr>) = flow_inv x_watermarks w"
    by (auto simp: flow_inv_def flow_run_append split: option.splits)
  have wk: "ssl_weak w" using assms(1) by (rule ssl_inv_weak)
  then have "ssl_life w" by (simp add: ssl_weak_def)
  then have l: "ssl_life (w\<lparr>trace := trace w @ [ob]\<rparr>)"
    using assms(2) n by (auto simp: ssl_life_def life_run_append)
  have "ssl_weak (w\<lparr>trace := trace w @ [ob]\<rparr>)"
    by (rule weak_rest [OF l _ _ _ _ _ _ _ _ _ _ _ wk])
       (use f wk in \<open>simp_all add: finalize_count_def ssl_weak_def\<close>)
  then show "ssl_inv (w\<lparr>trace := trace w @ [ob]\<rparr>)"
    using assms(1) unfolding ssl_inv_def by (simp add: wrapped_def accounted_def tls_pending_def)
  show "ssl_rel w (w\<lparr>trace := trace w @ [ob]\<rparr>)"
    by (simp add: ssl_rel_def ssl_frame_def ssl_wraps_def wrapped_def finalize_count_def tls_out_def
        tls_pending_def)
qed

lemma conn_of_wp:
  fixes m :: "('a ssl_transport_scheme, 'b) prog"
  assumes "\<And>w. ssl_conn w \<Longrightarrow> wp m (\<lambda>_. ssl_intact w) (\<lambda>_. ssl_intact w) w"
  shows "conn_safe m"
proof (rule safeI)
  fix w :: "'a ssl_transport_scheme"
  assume w: "ssl_conn w"
  then have r: "ssl_conn v \<and> ssl_rel w v" "ssl_broken w e v" if "ssl_intact w v" for e v
    using that conn_keeps [of w v] tls.X_intact [of w v e] by (auto simp: intact_def)
  show "wp m (\<lambda>_ v. ssl_conn v \<and> ssl_rel w v) (ssl_broken w) w"
    by (rule wp_weaken [OF assms [OF w]]) (use r in blast)+
qed

locale tls_app =
  fixes apps :: "nat \<Rightarrow> 'a ssl_transport_scheme app"
  assumes apps_intact: "apps_in ssl_intact apps"
begin

abbreviation vt :: "'a ssl_transport_scheme ssl_methods" where
  "vt \<equiv> socket_methods apps"

lemma call_protocol_conn:
  assumes "\<And>p. steps_in ssl_intact (cb (apps p))" "ssl_conn w"
    "ob \<in> {ObDataReceived d, ObGetBuffer, ObBufferUpdated d}"
  shows "wp (call_protocol_c apps ob cb) (\<lambda>_. ssl_intact w) (\<lambda>_. ssl_intact w) w"
proof -
  let ?w = "w\<lparr>trace := trace w @ [ob]\<rparr>"
  have w: "ssl_intact w ?w" using log_life [OF _ _ assms(3), of w] assms(2) by (simp add: intact_def)
  have "wp (case t_protocol ?w of None \<Rightarrow> raise AttributeErr | Some i \<Rightarrow> cb (apps i))
      (\<lambda>_. ssl_intact w) (\<lambda>_. ssl_intact w) ?w"
    by (rule intact_steps [OF w]) (auto intro: ti.raise_in assms(1) split: option.splits)
  with w show ?thesis by (simp add: call_protocol_c_def call_protocol_def log_def wps)
qed

lemma data_received_conn: "conn_safe (call_protocol_data_received apps d)"
  by (rule conn_of_wp)
     (simp add: call_protocol_data_received_def aiofn_add_info_and_reraise_def wps
        call_protocol_conn [where d = d] apps_inD [OF apps_intact])

lemma buffer_updated_conn: "conn_safe (call_protocol_buffer_updated apps d)"
  by (rule conn_of_wp)
     (simp add: call_protocol_buffer_updated_def aiofn_add_info_and_reraise_def wps
        call_protocol_conn [where d = d] apps_inD [OF apps_intact])

lemma get_buffer_conn: "conn_safe (call_protocol_get_buffer apps)"
proof (rule conn_of_wp)
  fix w :: "'a ssl_transport_scheme"
  assume "ssl_conn w"
  then have "wp (call_protocol_c apps ObGetBuffer (\<lambda>a. on_get_buffer a (-1))) (\<lambda>_. ssl_intact w) (\<lambda>_. ssl_intact w) w"
    by (intro call_protocol_conn) (simp_all add: apps_inD [OF apps_intact])
  then show "wp (call_protocol_get_buffer apps) (\<lambda>_. ssl_intact w) (\<lambda>_. ssl_intact w) w"
    unfolding call_protocol_get_buffer_def aiofn_add_info_and_reraise_def wp_try_except wp_bnd wp_reraise
    by (rule wp_weaken) (auto simp: wps split: sum.splits)
qed

lemma eof_intact: "steps_in ssl_intact (call_protocol_eof_received apps)"
proof (rule steps_in_wp)
  fix w :: "'a ssl_transport_scheme"
  let ?w = "w\<lparr>t_eof_received := True, trace := trace w @ [ObEofReceived]\<rparr>"
  have w: "ssl_intact w ?w" if "t_connected w" "\<not> t_eof_received w"
    unfolding intact_def
  proof
    assume inv: "ssl_inv w"
    have wk: "ssl_weak w" using inv by (rule ssl_inv_weak)
    then have "ssl_life w" by (simp add: ssl_weak_def)
    with that have l: "ssl_life ?w"
      by (auto simp: ssl_life_def life_run_append life_next_def is_life_def)
    have f: "flow_inv x_watermarks ?w = flow_inv x_watermarks w"
      by (auto simp: flow_inv_def flow_run_append split: option.splits)
    have "ssl_weak ?w"
      by (rule weak_rest [OF l _ _ _ _ _ _ _ _ _ _ _ wk])
         (use f wk in \<open>simp_all add: finalize_count_def ssl_weak_def\<close>)
    then show "ssl_inv ?w \<and> ssl_rel w ?w"
      using inv unfolding ssl_inv_def
      by (simp add: wrapped_def accounted_def tls_pending_def ssl_rel_def
          ssl_frame_def ssl_wraps_def tls_out_def finalize_count_def)
  qed
  have c: "wp (case t_protocol ?w of None \<Rightarrow> raise AttributeErr | Some i \<Rightarrow> on_eof_received (apps i))
      (\<lambda>_. ssl_intact w) (\<lambda>_. ssl_intact w) ?w" if "t_connected w" "\<not> t_eof_received w"
    by (rule intact_steps [OF w [OF that]])
       (auto intro: ti.raise_in apps_inD [OF apps_intact] split: option.splits)
  show "wp (call_protocol_eof_received apps) (\<lambda>_. ssl_intact w) (\<lambda>_. ssl_intact w) w"
    using c
    by (auto simp: call_protocol_eof_received_def call_protocol_def aiofn_add_info_and_reraise_def
        log_def wps ti.order_refl)
qed

lemma ssl_eof_intact: "steps_in ssl_intact (ssl_eof_received apps)"
  unfolding ssl_eof_received_def
  by (intro ti.order_rules eof_intact) (auto intro!: ti.order_rules log_intact simp: is_life_def)

section \<open>Flow control\<close>

lemma buffer_size_intact: "steps_in ssl_intact (socket_write_buffer_size apps)"
proof -
  have "steps_in ssl_intact
      (bnd (gets (current_app apps)) (\<lambda>p. case p of
          None \<Rightarrow> raise NullDeref
        | Some a \<Rightarrow> bnd (on_local_write_buffer_size a) (\<lambda>n. ret (k + n))))" for k
  proof (rule steps_in_wp)
    fix w :: "'a ssl_transport_scheme"
    have "steps_in ssl_intact (case current_app apps w of
          None \<Rightarrow> raise NullDeref
        | Some a \<Rightarrow> bnd (on_local_write_buffer_size a) (\<lambda>n. ret (k + n)))"
      by (auto simp: current_app_def intro!: ti.order_rules apps_inD [OF apps_intact] split: option.splits)
    then show "wp (bnd (gets (current_app apps)) (\<lambda>p. case p of
          None \<Rightarrow> raise NullDeref
        | Some a \<Rightarrow> bnd (on_local_write_buffer_size a) (\<lambda>n. ret (k + n))))
        (\<lambda>_. ssl_intact w) (\<lambda>_. ssl_intact w) w"
      unfolding wp_bnd [of "gets _"] wp_gets by (rule intact_steps [OF ti.order_refl])
  qed
  then show ?thesis
    unfolding socket_write_buffer_size_def
    by (rule ti.andthen_in [OF check_thread_intact ti.bnd_in [OF ti.gets_in ti.cond_in [OF _ ti.ret_in]]])
qed

lemma with_current_app:
  assumes "\<And>w. steps_in ssl_intact (f (current_app apps w))"
  shows "steps_in ssl_intact (bnd (gets (current_app apps)) f)"
  by (rule steps_in_wp, unfold wp_bnd [of "gets _"] wp_gets)
     (rule intact_steps [OF ti.order_refl assms])

lemma maybe_pause_intact: "steps_in ssl_intact (socket_maybe_pause apps)"
  unfolding socket_maybe_pause_def
  by (intro with_current_app ti.bnd_in buffer_size_intact pause_raw_intact)
     (auto simp: current_app_def intro: apps_inD [OF apps_intact])

lemma maybe_resume_intact: "steps_in ssl_intact (socket_maybe_resume apps)"
  unfolding socket_maybe_resume_def
  by (intro with_current_app ti.bnd_in buffer_size_intact resume_raw_intact)
     (auto simp: current_app_def intro: apps_inD [OF apps_intact])

lemma set_limits_intact: "steps_in ssl_intact (socket_set_write_buffer_limits apps high low)"
  unfolding socket_set_write_buffer_limits_def set_write_buffer_limits_wm_def
  by (intro ti.andthen_in check_thread_intact with_current_app ti.bnd_in [OF buffer_size_intact]
      ti.block_cons_in ti.block_nil_in set_limits_raw_intact pause_raw_intact resume_raw_intact)
     (auto simp: current_app_def intro: apps_inD [OF apps_intact])

end

section \<open>Shutdown\<close>

context tls_app
begin

lemma flush_safe: "ssl_safe (v_flush_outgoing vt)" "ssl_safe (v_retry_after_want_write vt)"
  by (simp_all add: socket_methods_def safe_quiet [OF flush_quiet] safe_quiet [OF retry_quiet])

lemma should_retry_safe: "ssl_safe shutdown \<Longrightarrow> ssl_safe (should_retry_read apps vt shutdown err)"
  unfolding should_retry_read_def
  by (cases err; simp add: tls.safe_raise tls.safe_ret flush_safe)
     (intro tls.safe_rules tls.safe_intact [OF ssl_eof_intact])

lemma read_into_void_safe: "ssl_safe shutdown \<Longrightarrow> ssl_safe (do_read_into_void apps vt shutdown)"
  unfolding do_read_into_void_def read_into_void_step_def
  by (intro tls.safe_bnd [OF tls.safe_gets] tls.safe_loop tls.safe_bnd [OF safe_quiet [OF engine_read_quiet]])
     (auto intro!: tls.safe_continue tls.safe_leave tls.safe_bnd should_retry_safe split: prod.split)

lemma shutdown_complete_post: "post_safe (on_shutdown_complete vt None)"
proof (rule safeI)
  fix w :: "'a ssl_transport_scheme"
  assume w: "ssl_post w"
  let ?w = "w\<lparr>x_shutdown_timer := False\<rparr>"
  have "ssl_intact w ?w"
    by (rule same_intact) (simp_all add: ssl_life_def flow_inv_def finalize_count_def)
  with w have v: "ssl_post ?w" "ssl_rel w ?w" by (simp_all add: intact_def)
  have r: "ssl_post u \<and> ssl_rel w u" "ssl_broken w e u" if "ssl_inv u \<and> ssl_rel ?w u" for e u
    using w v that ssl_rel_trans [of w ?w u] post_keeps [of w u] tls.X_intact [of w u e] by auto
  show "wp (on_shutdown_complete vt None) (\<lambda>_ u. ssl_post u \<and> ssl_rel w u) (ssl_broken w) w"
    unfolding on_shutdown_complete_def wp_block wp_upd option.case socket_methods_def
      ssl_methods.select_convs
    by (rule wp_weaken [OF force_close_post]) (use v r in blast)+
qed

lemma do_shutdown_post: "ssl_safe shutdown \<Longrightarrow> post_safe (do_shutdown apps vt shutdown)"
proof -
  assume s: "ssl_safe shutdown"
  have "post_safe (do_shutdown_step vt u)" for u
    unfolding do_shutdown_step_def
  proof (rule post.safe_bnd [OF post_of_quiet [OF engine_shutdown_quiet]])
    show "post_safe (case err of
         SSL_ERROR_NONE \<Rightarrow>
           andthen (v_flush_outgoing vt) (andthen (on_shutdown_complete vt None) (leave_with ()))
       | SSL_ERROR_WANT_WRITE \<Rightarrow>
           bnd (v_retry_after_want_write vt) (\<lambda>again.
             if again then continue_with () else leave_with ())
       | SSL_ERROR_WANT_READ \<Rightarrow> andthen (v_flush_outgoing vt) (leave_with ())
       | _ \<Rightarrow> raise RuntimeErr)" for err
      by (cases err; simp only: ssl_error.case)
         (intro post.safe_rules post_of_tls [OF flush_safe(1)] post_of_tls [OF flush_safe(2)]
            shutdown_complete_post)+
  qed
  then show ?thesis
    unfolding do_shutdown_def
    by (intro post.safe_block_cons post.safe_block_nil post_of_tls [OF read_into_void_safe [OF s]]
        post.safe_bnd [OF post.safe_gets] post.safe_loop)
qed

end

section \<open>The backlog\<close>

context tls_app
begin

lemma flush_backlog_safe: "ssl_safe (flush_write_backlog vt)"
proof (rule safeI)
  fix w :: "'a ssl_transport_scheme"
  assume w: "ssl_inv w"
  show "wp (flush_write_backlog vt) (\<lambda>_ v. ssl_inv v \<and> ssl_rel w v) (ssl_broken w) w"
  proof (cases "x_size w = 0")
    case True
    with w show ?thesis by (simp add: flush_write_backlog_def wps ssl_rel_refl)
  next
    case False
    then have nf: "\<not> t_finalizing w" using w by (auto simp: ssl_inv_def ssl_weak_def)
    have failed: "ssl_broken w e v" if "io_failed w e v" for e v
      using that w nf by (auto simp: io_failed_def intro: io_broken ssl_inv_weak)
    have flushed: "wp (andthen (v_flush_outgoing vt) (ret ())) (\<lambda>_ u. drained w i u) (ssl_broken w) v"
      if "drained w i v" for i v
    proof -
      have io: "io_step w v" using that by (simp add: drained_def)
      have "wp socket_flush_outgoing_bio (\<lambda>_ u. quiet_io v u) (\<lambda>e u. quiet_io v u \<and> \<not> is_exit e) v"
        by (rule tame_wp [OF flush_tame], rule wp_steps_in [OF flush_quiet]) simp_all
      then show ?thesis
        unfolding wp_andthen wp_ret socket_methods_def ssl_methods.select_convs
        by (rule wp_weaken)
           (use drained_quiet [OF that] io_step_trans [OF io] in
             \<open>auto simp: quiet_io_def io_failed_def intro!: failed\<close>)
    qed
    have resume: "wp (socket_maybe_resume apps) (\<lambda>_ u. ssl_inv u \<and> ssl_rel w u) (ssl_broken w)
        (v\<lparr>x_backlog := drop i (x_backlog v)\<rparr>)" if "drained w i v" for i v
      using drained_end [OF w nf that]
      by (intro tls.later [OF tls.safe_intact [OF maybe_resume_intact] w]) simp_all
    have "wp (bnd (loop n (flush_backlog_step vt) 0) (\<lambda>items_completed.
           block [
             andthen (v_flush_outgoing vt) (ret ()),
             upd (\<lambda>w. w\<lparr>x_backlog := drop items_completed (x_backlog w)\<rparr>),
             v_maybe_resume vt])) (\<lambda>_ v. ssl_inv v \<and> ssl_rel w v) (ssl_broken w) w" for n
      unfolding wp_bnd
    proof (rule wp_weaken [OF flush_loop_wp [OF w nf]])
      show "wp (block [
             andthen (v_flush_outgoing vt) (ret ()),
             upd (\<lambda>w. w\<lparr>x_backlog := drop i (x_backlog w)\<rparr>),
             v_maybe_resume vt]) (\<lambda>_ v. ssl_inv v \<and> ssl_rel w v) (ssl_broken w) v"
        if "drained w i v" for i v
        unfolding wp_block
        by (rule wp_weaken [OF flushed [OF that]])
           (simp_all add: wp_upd socket_methods_def resume)
    qed (rule failed)
    then show ?thesis
      using w by (simp add: flush_write_backlog_def wp_unless wp_bnd [of "gets _"] wp_gets ssl_rel_refl)
  qed
qed

lemma local_size_safe: "ssl_safe (get_local_write_buffer_size apps)"
proof -
  have b: "ssl_safe (case p of None \<Rightarrow> ret k
      | Some i \<Rightarrow> bnd (on_local_write_buffer_size (apps i)) (\<lambda>n. ret (k + n)))" for k p
    by (cases p; simp only: option.case)
       (intro tls.safe_rules tls.safe_intact [OF apps_inD(11) [OF apps_intact]])+
  show ?thesis
    unfolding get_local_write_buffer_size_def
    by (intro tls.safe_bnd [OF tls.safe_gets] tls.safe_bnd [OF tls.safe_bnd [OF tls.safe_gets b]]
        tls.safe_cond tls.safe_ret tls.safe_bnd [OF safe_quiet [OF bio_quiet(2)]])
qed

lemma do_flush_post:
  assumes "ssl_safe shutdown"
  shows "post_safe (do_flush apps vt shutdown)"
proof -
  have last: "post_safe (bnd (get_local_write_buffer_size apps) (\<lambda>n.
      if n = 0 then block [set_state SHUTDOWN, do_shutdown apps vt shutdown] else ret ()))"
    by (rule post.safe_bnd [OF post_of_tls [OF local_size_safe]], rule post.safe_if,
        rule post.safe_block_cons [OF post_of_intact [OF state_intact]], simp)
       (intro post.safe_block_cons post.safe_block_nil do_shutdown_post assms post.safe_ret)+
  show ?thesis
    unfolding do_flush_def
    by (rule post.safe_block_cons [OF post_of_tls [OF read_into_void_safe [OF assms]]])
       (intro post.safe_block_cons [OF post.safe_unless [OF post_of_tls [OF flush_backlog_safe]]]
        post.safe_block_cons [OF last] post.safe_block_nil)
qed

lemma tls_of_post:
  assumes "post_safe m" "ssl_inv w" "x_state w \<noteq> DO_HANDSHAKE"
  shows "wp m (\<lambda>_ v. ssl_inv v \<and> ssl_rel w v) (ssl_broken w) w"
  by (rule wp_weaken [OF safeD [OF assms(1)]]) (use assms in auto)

lemma start_shutdown_safe: "ssl_safe (start_shutdown apps vt)"
proof -
  have "ssl_safe (start_shutdown_level n apps vt)" for n
  proof (induction n)
    case 0
    show ?case unfolding start_shutdown_level.simps by (rule tls.safe_raise)
  next
    case (Suc n)
    have flush: "post_safe (block [set_state FLUSHING, call_later_shutdown,
        do_flush apps vt (start_shutdown_level n apps vt)])"
      unfolding call_later_shutdown_def
      by (intro post.safe_block_cons post.safe_block_nil do_flush_post Suc post_of_intact state_intact
          ti.cond_in ti.raise_in field_intact) simp
    show ?case
      unfolding start_shutdown_level.simps
    proof (rule tls.safe_unless, rule safeI)
      fix w :: "'a ssl_transport_scheme"
      assume w: "ssl_inv w"
      show "wp (cond (\<lambda>w. x_state w = DO_HANDSHAKE) (abort_with vt None)
          (block [set_state FLUSHING, call_later_shutdown,
             do_flush apps vt (start_shutdown_level n apps vt)]))
          (\<lambda>_ v. ssl_inv v \<and> ssl_rel w v) (ssl_broken w) w"
        using safeD [OF tls.safe_intact [OF abort_intact] w] tls_of_post [OF flush w]
        by (simp add: wp_cond)
    qed
  qed
  then show ?thesis by (simp add: start_shutdown_def)
qed

end

end
