(* ===== verification/SslWrites.thy ===== *)
theory SslWrites
  imports SslRun
begin

text \<open>
  Writing plaintext: what a call adds to \<open>tls_out\<close>, for data whose \<open>len()\<close> counts bytes. A
  part that OpenSSL takes and the rest that goes to the backlog add up to the data, in order.
\<close>

section \<open>What a call adds\<close>

definition plain_buf :: "pybuf \<Rightarrow> bool" where
  "plain_buf d = (byte_items d \<and> py_len d = Inr (int (length (buf_content d))))"

definition grown :: "bytes \<Rightarrow> 'a ssl_transport_scheme \<Rightarrow> 'a ssl_transport_scheme \<Rightarrow> bool" where
  "grown bs w v = (ssl_inv v \<and> ssl_rel w v \<and> \<not> t_finalizing v \<and> tls_out v = tls_out w @ bs)"

definition wrote :: "bytes \<Rightarrow> 'a ssl_transport_scheme \<Rightarrow> 'a ssl_transport_scheme \<Rightarrow> bool" where
  "wrote bs w v = (ssl_inv v \<and> ssl_rel w v \<and> (\<not> t_finalizing v \<longrightarrow> prefix (tls_out w @ bs) (tls_out v)))"

lemma grown_refl: "ssl_inv w \<Longrightarrow> \<not> t_finalizing w \<Longrightarrow> grown [] w w"
  by (simp add: grown_def ssl_rel_refl)

lemma grown_trans: "grown a w v \<Longrightarrow> grown b v u \<Longrightarrow> grown (a @ b) w u"
  using ssl_rel_trans [of w v u] by (simp add: grown_def)

lemma grown_wrote: "grown bs w v \<Longrightarrow> wrote bs w v"
  by (simp add: grown_def wrote_def)

lemma wrote_later:
  assumes "grown bs w v" "ssl_inv u" "ssl_rel v u"
  shows "wrote bs w u"
  using assms ssl_rel_trans [of w v u] by (auto simp: grown_def wrote_def ssl_rel_def)

definition kept :: "'a ssl_transport_scheme \<Rightarrow> 'a ssl_transport_scheme \<Rightarrow> bool" where
  "kept w v = (ssl_inv v \<and> ssl_rel w v)"

lemma kept_broken: "ssl_inv w \<Longrightarrow> kept w v \<Longrightarrow> ssl_broken w e v"
  by (simp add: kept_def tls.X_intact)

lemma kept_refl: "ssl_inv w \<Longrightarrow> kept w w"
  by (simp add: kept_def ssl_rel_refl)

lemma grown_kept: "grown bs w v \<Longrightarrow> kept v u \<Longrightarrow> kept w u"
  using ssl_rel_trans [of w v u] by (simp add: grown_def kept_def)

lemma wrote_kept: "wrote bs w v \<Longrightarrow> kept w v"
  by (simp add: wrote_def kept_def)

lemma grown_broken: "grown bs w v \<Longrightarrow> ssl_broken v e u \<Longrightarrow> ssl_broken w e u"
  using later_broken [of w v e u] by (simp add: grown_def)

lemma grown_item:
  assumes "ssl_inv w" "\<not> t_finalizing w" "tls_good (files w) it"
  shows "grown (tls_bytes (files w) it) w
      (w\<lparr>x_backlog := x_backlog w @ [it], x_size := x_size w + int (length (tls_bytes (files w) it))\<rparr>)"
    (is "grown ?bs w ?v")
proof -
  have a: "accounted w" and wk: "ssl_weak w" using assms(1,2) by (simp_all add: ssl_inv_def)
  have out: "tls_out ?v = tls_out w @ ?bs" by (simp add: tls_out_def tls_pending_def)
  have "accounted ?v" using a assms(3) by (simp add: accounted_def tls_pending_def)
  moreover have "ssl_weak ?v"
    using wk assms(2) unfolding ssl_weak_def
    by (simp only: ssl_life_def flow_inv_def finalize_count_def) auto
  ultimately have "ssl_inv ?v" using assms(1) by (simp add: ssl_inv_def wrapped_def)
  with out assms(2) show ?thesis
    by (simp add: grown_def ssl_rel_def ssl_frame_def ssl_wraps_def wrapped_def finalize_count_def)
qed

lemma plain_grown:
  assumes "ssl_inv w" "\<not> t_finalizing w" "x_size w = 0" "plain_io bs w v"
  shows "grown bs w v" "x_size v = 0"
proof -
  have io: "io_step w v" and v: "e_plain v = e_plain w @ bs" "x_backlog v = x_backlog w" "x_size v = x_size w"
    using assms(4) by (simp_all add: plain_io_def)
  have f: "files v = files w" "t_finalizing v = t_finalizing w" using io by (simp_all add: io_step_def)
  have a: "accounted w" using assms(1,2) by (simp add: ssl_inv_def)
  have p: "tls_pending v = tls_pending w" by (simp add: tls_pending_def v f)
  then have "accounted v" using a by (simp add: accounted_def v f)
  moreover have "tls_out v = tls_out w @ bs"
    using accounted_empty [OF a assms(3)] by (simp add: tls_out_def p v)
  ultimately show "grown bs w v"
    using io_intact [OF io assms(1)] assms(2) f v by (simp add: grown_def)
  show "x_size v = 0" using v assms(3) by simp
qed

lemma tail_bytes:
  assumes "byte_items d" "d = PyNone \<or> aiofn_unpack_simple_buffer False d = Inr mem" "n \<le> length mem"
  shows "buf_content (aiofn_maybe_copy_buffer_tail d (drop n mem)) = drop n mem"
proof (cases "d = PyNone")
  case True
  then show ?thesis by (simp add: aiofn_maybe_copy_buffer_tail_def)
next
  case False
  then show ?thesis using unpack_content [OF tail_content [OF assms(1) _ assms(3)]] assms(2) by simp
qed

context tls_app
begin

lemma push_wp:
  assumes "ssl_inv w" "\<not> t_finalizing w" "tls_good (files w) (TlsData d)"
  shows "wp (push_backlog d) (\<lambda>_ v. grown (buf_content d) w v) E w"
  using grown_item [OF assms] good_len [OF assms(3)]
  by (simp add: push_backlog_def wps tls_len_def tls_bytes_def)

lemma append_wp:
  assumes "ssl_inv w" "\<not> t_finalizing w" "plain_buf d"
  shows "wp (append_to_backlog vt d False) (\<lambda>_ v. grown (buf_content d) w v) (\<lambda>_. kept w) w"
    "wp (append_to_backlog vt d True) (\<lambda>_ v. wrote (buf_content d) w v) (\<lambda>_. kept w) w"
proof -
  have true: "buf_true d = (buf_content d \<noteq> [])" using assms(3) by (simp add: plain_buf_def buf_true_def)
  have good: "tls_good fs (TlsData d')" "buf_content d' = buf_content d"
    if "aiofn_maybe_copy_buffer d = Inr d'" "buf_content d \<noteq> []" for d' fs
    using that assms(3) maybe_copy_content [OF that(1)] maybe_copy_byte_items [OF _ that(1)]
      maybe_copy_immutable [OF that(1)]
    by (simp_all add: tls_good_def tls_bytes_def plain_buf_def)
  have pause: "wp (push_backlog d') (\<lambda>_. wp (socket_maybe_pause apps) (\<lambda>_ v. wrote (buf_content d') w v)
      (\<lambda>_. kept w)) (\<lambda>_. kept w) w" if "tls_good (files w) (TlsData d')" for d'
  proof (rule wp_weaken [OF push_wp [OF assms(1,2) that]])
    fix v
    assume g: "grown (buf_content d') w v"
    then have "ssl_inv v" by (simp add: grown_def)
    show "wp (socket_maybe_pause apps) (\<lambda>_ v. wrote (buf_content d') w v) (\<lambda>_. kept w) v"
      by (rule wp_steps_in [OF maybe_pause_intact])
         (use wrote_later [OF g] grown_kept [OF g] \<open>ssl_inv v\<close> in \<open>auto simp: intact_def kept_def\<close>)
  qed
  have stay: "kept w w" by (rule kept_refl [OF assms(1)])
  have "wp (append_to_backlog vt d False) (\<lambda>_ v. grown (buf_content d) w v) (\<lambda>_. kept w) w \<and>
    wp (append_to_backlog vt d True) (\<lambda>_ v. wrote (buf_content d) w v) (\<lambda>_. kept w) w"
  proof (cases "buf_content d = []")
    case True
    with true grown_refl [OF assms(1,2)] grown_wrote [OF grown_refl [OF assms(1,2)]] show ?thesis
      by (simp add: append_to_backlog_def wps)
  next
    case False
    show ?thesis
    proof (cases "aiofn_maybe_copy_buffer d")
      case (Inl c)
      then show ?thesis using False true stay by (simp add: append_to_backlog_def wps)
    next
      case (Inr d')
      with good [OF this False] pause [of d'] push_wp [OF assms(1,2), of d'] show ?thesis
        using False true by (simp add: append_to_backlog_def wps socket_methods_def)
    qed
  qed
  then show
    "wp (append_to_backlog vt d False) (\<lambda>_ v. grown (buf_content d) w v) (\<lambda>_. kept w) w"
    "wp (append_to_backlog vt d True) (\<lambda>_ v. wrote (buf_content d) w v) (\<lambda>_. kept w) w"
    by blast+
qed

lemma sent_wp:
  assumes "ssl_inv w" "\<not> t_finalizing w" "x_size w = 0" "mem \<noteq> []" "byte_items d"
    "d = PyNone \<or> aiofn_unpack_simple_buffer False d = Inr mem"
  shows "wp (write_impl vt d mem)
      (\<lambda>tail v. x_size v = 0 \<and>
         (case tail of
            None \<Rightarrow> grown mem w v
          | Some t \<Rightarrow> \<exists>bs. mem = bs @ buf_content t \<and> grown bs w v \<and> tls_good (files v) (TlsData t)))
      (ssl_broken w) w"
proof (rule wp_weaken [OF write_impl_wp [OF assms(4)]])
  show "x_size v = 0 \<and> (case tail of
            None \<Rightarrow> grown mem w v
          | Some t \<Rightarrow> \<exists>bs. mem = bs @ buf_content t \<and> grown bs w v \<and> tls_good (files v) (TlsData t))"
    if wr: "written d mem w tail v" for tail v
  proof (cases tail)
    case None
    with wr plain_grown [OF assms(1-3)] show ?thesis by (simp add: written_def)
  next
    case (Some t)
    with wr obtain n where n: "n < length mem" "plain_io (take n mem) w v"
      "t = aiofn_maybe_copy_buffer_tail d (drop n mem)"
      by (auto simp: written_def)
    have t: "buf_content t = drop n mem" using tail_bytes [OF assms(5,6)] n by simp
    then have "tls_good (files v) (TlsData t)"
      using n tail_byte_items [OF assms(5)] tail_immutable by (simp add: tls_good_def tls_bytes_def)
    with plain_grown [OF assms(1-3) n(2)] t Some show ?thesis by (auto intro: exI [of _ "take n mem"])
  qed
  show "ssl_broken w e v" if "io_failed w e v" for e v
    using that assms(1,2) by (auto simp: io_failed_def intro: io_broken ssl_inv_weak)
qed

end

section \<open>The write calls\<close>

lemma ready_wp:
  assumes "\<not> ssl_is_closing w \<Longrightarrow> Q True w"
    and "\<And>v. ssl_is_closing w \<Longrightarrow> ssl_intact w v \<Longrightarrow> Q False v"
  shows "wp is_protocol_ready Q E w"
proof -
  let ?m = "block [
           only_if (\<lambda>w. x_closed_count w \<ge> LOG_THRESHOLD_FOR_CONNLOST_WRITES)
             (log (ObLogWarning ''SSL connection is closed'')),
           upd (\<lambda>w. w\<lparr>x_closed_count := x_closed_count w + 1\<rparr>)]"
  have "steps_in ssl_intact ?m"
    by (intro ti.order_rules log_intact field_intact) (simp_all add: is_life_def)
  then have "wp ?m (\<lambda>_. ssl_intact w) (\<lambda>_. ssl_intact w) w"
    by (rule wp_steps_in) simp_all
  moreover have "wp ?m (\<lambda>_ _. True) (\<lambda>_ _. False) w" by (simp add: wps log_def)
  ultimately have "wp ?m (\<lambda>_. ssl_intact w) (\<lambda>_ _. False) w"
    by (drule_tac wp_conj) (assumption, erule wp_weaken, simp_all)
  then show ?thesis
    using assms unfolding is_protocol_ready_def
    by (simp add: wp_cond wp_andthen wp_ret) (auto intro: wp_weaken)
qed

lemma handler_wrote:
  assumes "ssl_inv w" "ssl_broken w e v"
  shows "wp (ssl_handle_error apps (socket_methods apps) msg e)
      (\<lambda>_ u. wrote bs w u) (\<lambda>_ u. ssl_inv u \<and> ssl_rel w u) v"
proof (cases "is_exit e")
  case True
  with assms show ?thesis by (simp add: ssl_handle_error_def wps ssl_broken_def)
next
  case False
  have v: "ssl_weak v" "ssl_frame w v" "ssl_wraps w v" using assms(2) by (simp_all add: ssl_broken_def)
  have "closed_by w u \<Longrightarrow> wrote bs w u" for u
    using tls_closed_inv [of w u] closed_rel [of w u] by (simp add: wrote_def closed_by_def)
  then show ?thesis
    by (intro wp_weaken [OF handle_error_wp [OF v(1) False]])
       (auto intro: tls_closed_inv closed_rel closed_trans [OF v(2,3)])
qed

context tls_app
begin

lemma flush_grown:
  assumes "grown bs w v" "x_size v = 0"
  shows "wp (flush_outgoing_bio vt)
      (\<lambda>_ u. grown bs w u \<and> x_size u = 0 \<and> files u = files v) (ssl_broken w) v"
proof -
  have v: "ssl_inv v" "\<not> t_finalizing v" using assms(1) by (simp_all add: grown_def)
  have "wp socket_flush_outgoing_bio (\<lambda>_ u. quiet_io v u) (\<lambda>e u. quiet_io v u \<and> \<not> is_exit e) v"
    by (rule tame_wp [OF flush_tame], rule wp_steps_in [OF flush_quiet]) simp_all
  moreover have "grown bs w u \<and> x_size u = 0 \<and> files u = files v" if "quiet_io v u" for u
  proof -
    have "plain_io [] v u" using that by (simp add: quiet_plain)
    with plain_grown [OF v assms(2) this] grown_trans [OF assms(1), of "[]" u]
    show ?thesis by (simp add: plain_io_def io_step_def)
  qed
  moreover have "ssl_broken w e u" if "quiet_io v u \<and> \<not> is_exit e" for e u
  proof (rule grown_broken [OF assms(1)], rule io_broken)
    show "ssl_weak v" using v(1) by (rule ssl_inv_weak)
  qed (use that v in \<open>simp_all add: quiet_io_def\<close>)
  ultimately show ?thesis
    unfolding flush_outgoing_bio_def wp_andthen wp_ret
    by (simp add: socket_methods_def) (rule wp_weaken)
qed

lemma write_whole:
  \<comment> \<open>nothing is queued: OpenSSL takes what it can, the rest is queued\<close>
  assumes "ssl_inv w" "\<not> t_finalizing w" "x_size w = 0" "mem \<noteq> []" "byte_items d"
    "d = PyNone \<or> aiofn_unpack_simple_buffer False d = Inr mem"
  shows "wp (bnd (write_impl vt d mem) (\<lambda>tail.
      block [flush_outgoing_bio vt, append_to_backlog vt (tail_object tail) True]))
      (\<lambda>_ v. wrote mem w v) (ssl_broken w) w"
  unfolding wp_bnd
proof (rule wp_weaken [OF sent_wp [OF assms]])
  fix tail v
  assume v: "x_size v = 0 \<and> (case tail of None \<Rightarrow> grown mem w v
    | Some t \<Rightarrow> \<exists>bs. mem = bs @ buf_content t \<and> grown bs w v \<and> tls_good (files v) (TlsData t))"
  show "wp (block [flush_outgoing_bio vt, append_to_backlog vt (tail_object tail) True])
      (\<lambda>_ v. wrote mem w v) (ssl_broken w) v"
  proof (cases tail)
    case None
    with v have "grown mem w v" "x_size v = 0" by simp_all
    then show ?thesis
      unfolding wp_block None tail_object_def option.case
      by (intro wp_weaken [OF flush_grown])
         (auto simp: append_to_backlog_def buf_true_def wp_ret grown_wrote)
  next
    case (Some t)
    with v obtain bs where bs: "mem = bs @ buf_content t" "grown bs w v" "tls_good (files v) (TlsData t)"
      by auto
    have t: "plain_buf t"
      using good_len [OF bs(3)] bs(3) by (simp add: plain_buf_def tls_good_def tls_len_def tls_bytes_def)
    have "wp (append_to_backlog vt t True) (\<lambda>_ u. wrote mem w u) (ssl_broken w) u"
      if "grown bs w u" for u
    proof (rule wp_weaken [OF append_wp(2) [OF _ _ t]])
      show "ssl_inv u" "\<not> t_finalizing u" using that by (simp_all add: grown_def)
      show "wrote mem w x" if "wrote (buf_content t) u x" for x
        using that \<open>grown bs w u\<close> ssl_rel_trans [of w u x] bs(1)
        by (simp add: wrote_def grown_def)
      show "ssl_broken w e x" if "kept u x" for e x
        using grown_kept [OF \<open>grown bs w u\<close> that] by (rule kept_broken [OF assms(1)])
    qed
    then show ?thesis
      unfolding wp_block Some tail_object_def option.case
      by (intro wp_weaken [OF flush_grown [OF bs(2)]]) (use v in auto)
  qed
qed

lemma write_exact:
  assumes "ssl_inv w" "\<not> ssl_is_closing w" "plain_buf data"
  shows "wp (ssl_write_nocheck apps vt data)
      (\<lambda>_ v. wrote (buf_content data) w v) (\<lambda>_ v. ssl_inv v \<and> ssl_rel w v) w"
proof -
  have nf: "\<not> t_finalizing w" using assms(2) by (simp add: ssl_is_closing_def)
  have "wp (bnd (lift_exn (aiofn_unpack_simple_buffer False data)) (\<lambda>mem.
                if mem = [] then ret ()
                else
                  bnd (write_impl vt data mem) (\<lambda>tail.
                    block [flush_outgoing_bio vt, append_to_backlog vt (tail_object tail) True])))
      (\<lambda>_ v. wrote (buf_content data) w v) (ssl_broken w) w" if "x_size w = 0"
  proof (cases "aiofn_unpack_simple_buffer False data")
    case (Inl c)
    then show ?thesis using tls.X_intact [OF assms(1,1) ssl_rel_refl] by (simp add: wps)
  next
    case (Inr mem)
    have m: "mem = buf_content data" by (rule unpack_content [OF Inr])
    have "byte_items data" using assms(3) by (simp add: plain_buf_def)
    with write_whole [OF assms(1) nf that, of mem data] Inr
    have "mem \<noteq> [] \<Longrightarrow> wp (bnd (write_impl vt data mem) (\<lambda>tail.
        block [flush_outgoing_bio vt, append_to_backlog vt (tail_object tail) True]))
        (\<lambda>_ v. wrote mem w v) (ssl_broken w) w" by blast
    moreover have "mem = [] \<Longrightarrow> wrote mem w w" using grown_wrote [OF grown_refl [OF assms(1) nf]] by simp
    ultimately show ?thesis
      unfolding wp_bnd [of "lift_exn _"] wp_lift_exn Inr sum.case m [symmetric]
      by (cases "mem = []") (simp_all add: wp_def)
  qed
  with wp_weaken [OF append_wp(2) [OF assms(1) nf assms(3)] _ kept_broken [OF assms(1)]]
  have body: "wp (cond (\<lambda>w. x_size w \<noteq> 0) (append_to_backlog vt data True)
      (bnd (lift_exn (aiofn_unpack_simple_buffer False data)) (\<lambda>mem.
                if mem = [] then ret ()
                else
                  bnd (write_impl vt data mem) (\<lambda>tail.
                    block [flush_outgoing_bio vt, append_to_backlog vt (tail_object tail) True]))))
      (\<lambda>_ v. wrote (buf_content data) w v) (ssl_broken w) w"
    by (simp add: wp_cond)
  show ?thesis
    unfolding ssl_write_nocheck_def wp_bnd [of is_protocol_ready]
    by (rule ready_wp)
       (use assms(2) wp_weaken [OF body] handler_wrote [OF assms(1)] in \<open>simp_all add: wp_try_except\<close>)
qed

end

section \<open>Pointers, lines and files\<close>

context tls_app
begin

lemma ready_intact:
  fixes m :: "('a ssl_transport_scheme, unit) prog"
  assumes "\<And>w. ssl_inv w \<Longrightarrow> \<not> ssl_is_closing w \<Longrightarrow>
      wp (bnd is_protocol_ready (\<lambda>ready. if \<not> ready then ret () else m))
        (\<lambda>_ v. wrote bs w v) (\<lambda>_ v. ssl_inv v \<and> ssl_rel w v) w"
  shows "steps_in ssl_intact (bnd is_protocol_ready (\<lambda>ready. if \<not> ready then ret () else m))"
proof (rule steps_in_wp)
  fix w :: "'a ssl_transport_scheme"
  consider "\<not> ssl_inv w" | "ssl_inv w" "ssl_is_closing w" | "ssl_inv w" "\<not> ssl_is_closing w" by blast
  then show "wp (bnd is_protocol_ready (\<lambda>ready. if \<not> ready then ret () else m))
      (\<lambda>_. ssl_intact w) (\<lambda>_. ssl_intact w) w"
  proof cases
    case 1
    then have "ssl_intact w = (\<lambda>_. True)" by (simp add: intact_def fun_eq_iff)
    then show ?thesis by (simp add: wp_true)
  next
    case 2
    then show ?thesis unfolding wp_bnd by (intro ready_wp) (simp_all add: wp_def)
  next
    case 3
    from assms [OF this] show ?thesis
      by (rule wp_weaken) (simp_all add: intact_def wrote_def)
  qed
qed

lemma wrote_handled:
  assumes "ssl_inv w" "wp m (\<lambda>_ v. wrote bs w v) (ssl_broken w) w"
  shows "wp (try_except m (ssl_handle_error apps vt msg)) (\<lambda>_ v. wrote bs w v)
      (\<lambda>_ v. ssl_inv v \<and> ssl_rel w v) w"
  unfolding wp_try_except
  by (rule wp_weaken [OF assms(2)]) (use handler_wrote [OF assms(1)] in auto)

lemma write_intact: "plain_buf data \<Longrightarrow> steps_in ssl_intact (ssl_write_nocheck apps vt data)"
  unfolding ssl_write_nocheck_def
  by (rule ready_intact) (rule write_exact [unfolded ssl_write_nocheck_def])

lemma write_c_exact:
  assumes "ssl_inv w" "\<not> ssl_is_closing w" "mem \<noteq> []"
  shows "wp (ssl_write_c apps vt mem) (\<lambda>_ v. wrote mem w v) (\<lambda>_ v. ssl_inv v \<and> ssl_rel w v) w"
proof -
  have nf: "\<not> t_finalizing w" using assms(2) by (simp add: ssl_is_closing_def)
  have "plain_buf (PyBytes mem)" by (simp add: plain_buf_def)
  from append_wp(2) [OF assms(1) nf this]
  have "wp (append_to_backlog vt (PyBytes mem) True) (\<lambda>_ v. wrote mem w v) (ssl_broken w) w"
    by (rule wp_weaken) (simp_all add: kept_broken [OF assms(1)])
  with write_whole [OF assms(1) nf _ assms(3), of PyNone]
  have "wp (cond (\<lambda>w. x_size w = 0)
             (bnd (write_impl vt PyNone mem) (\<lambda>tail.
                block [flush_outgoing_bio vt, append_to_backlog vt (tail_object tail) True]))
             (append_to_backlog vt (PyBytes mem) True)) (\<lambda>_ v. wrote mem w v) (ssl_broken w) w"
    by (simp add: wp_cond)
  from wrote_handled [OF assms(1) this] show ?thesis
    unfolding ssl_write_c_def wp_bnd [of is_protocol_ready]
    by (intro ready_wp) (use assms(2,3) in simp_all)
qed

lemma write_c_intact: "steps_in ssl_intact (ssl_write_c apps vt mem)"
proof (rule steps_in_wp)
  fix w :: "'a ssl_transport_scheme"
  consider "\<not> ssl_inv w" | "ssl_inv w" "ssl_is_closing w \<or> mem = []" | "ssl_inv w" "\<not> ssl_is_closing w" "mem \<noteq> []"
    by blast
  then show "wp (ssl_write_c apps vt mem) (\<lambda>_. ssl_intact w) (\<lambda>_. ssl_intact w) w"
  proof cases
    case 1
    then have "ssl_intact w = (\<lambda>_. True)" by (simp add: intact_def fun_eq_iff)
    then show ?thesis by (simp add: wp_true)
  next
    case 2
    then show ?thesis
      unfolding ssl_write_c_def wp_bnd [of is_protocol_ready]
      by (intro ready_wp) (auto simp: wp_ret ti.order_refl)
  next
    case 3
    then show ?thesis
      by (intro wp_weaken [OF write_c_exact]) (auto simp: intact_def wrote_def)
  qed
qed

lemma append_lines_wp:
  assumes "ssl_inv w" "\<not> t_finalizing w" "\<forall>d \<in> set ds. plain_buf d"
  shows "wp (for_each ds (\<lambda>d. append_to_backlog vt d False))
      (\<lambda>_ v. grown (concat (map buf_content ds)) w v) (\<lambda>_. kept w) w"
  using assms
proof (induction ds arbitrary: w)
  case Nil
  then show ?case by (simp add: wp_def grown_refl)
next
  case (Cons d ds)
  then have d: "plain_buf d" by simp
  show ?case
    unfolding for_each.simps wp_andthen
  proof (rule wp_weaken [OF append_wp(1) [OF Cons.prems(1,2) d]])
    fix v
    assume g: "grown (buf_content d) w v"
    then have "ssl_inv v" "\<not> t_finalizing v" by (simp_all add: grown_def)
    with Cons have "wp (for_each ds (\<lambda>d. append_to_backlog vt d False))
      (\<lambda>_ u. grown (concat (map buf_content ds)) v u) (\<lambda>_. kept v) v" by simp
    then show "wp (for_each ds (\<lambda>d. append_to_backlog vt d False))
      (\<lambda>_ u. grown (concat (map buf_content (d # ds))) w u) (\<lambda>_. kept w) v"
      by (rule wp_weaken) (use grown_trans [OF g] grown_kept [OF g] in auto)
  qed
qed

lemma write_lines_appending: "write_lines vt ds True = for_each ds (\<lambda>d. append_to_backlog vt d False)"
  by (induction ds) simp_all

lemma write_lines_wp:
  assumes "ssl_inv w" "\<not> t_finalizing w" "\<forall>d \<in> set ds. plain_buf d" "x_size w = 0"
  shows "wp (write_lines vt ds False) (\<lambda>_ v. grown (concat (map buf_content ds)) w v) (ssl_broken w) w"
  using assms
proof (induction ds arbitrary: w)
  case Nil
  then show ?case by (simp add: wp_def grown_refl)
next
  case (Cons d ds)
  have rest: "wp (write_lines vt ds add) (\<lambda>_ u. grown (a @ concat (map buf_content ds)) w u) (ssl_broken w) v"
    if g: "grown a w v" and s: "add \<or> x_size v = 0" for a v add
  proof -
    have v: "ssl_inv v" "\<not> t_finalizing v" using g by (simp_all add: grown_def)
    have "wp (for_each ds (\<lambda>d. append_to_backlog vt d False))
        (\<lambda>_ u. grown (concat (map buf_content ds)) v u) (ssl_broken v) v"
      by (rule wp_weaken [OF append_lines_wp [OF v]]) (use Cons.prems kept_broken [OF v(1)] in auto)
    then have "wp (write_lines vt ds add) (\<lambda>_ u. grown (concat (map buf_content ds)) v u) (ssl_broken v) v"
      using Cons v s by (cases add) (simp_all add: write_lines_appending)
    then show ?thesis by (rule wp_weaken) (use grown_trans [OF g] grown_broken [OF g] in auto)
  qed
  show ?case
  proof (cases "aiofn_unpack_simple_buffer False d")
    case (Inl c)
    then show ?thesis using tls.X_intact [OF Cons.prems(1,1) ssl_rel_refl] by (simp add: wps)
  next
    case (Inr mem)
    have m: "mem = buf_content d" by (rule unpack_content [OF Inr])
    show ?thesis
    proof (cases "mem = []")
      case True
      with rest [OF grown_refl [OF Cons.prems(1,2)], of False] Cons.prems(4) m Inr show ?thesis
        by (simp add: wps)
    next
      case False
      have bd: "byte_items d" using Cons.prems(3) by (simp add: plain_buf_def)
      have after: "wp (case tail of None \<Rightarrow> write_lines vt ds False
            | Some t \<Rightarrow> andthen (push_backlog t) (write_lines vt ds True))
          (\<lambda>_ u. grown (concat (map buf_content (d # ds))) w u) (ssl_broken w) v"
        if v: "x_size v = 0 \<and> (case tail of None \<Rightarrow> grown mem w v
          | Some t \<Rightarrow> \<exists>bs. mem = bs @ buf_content t \<and> grown bs w v \<and> tls_good (files v) (TlsData t))"
        for tail v
      proof (cases tail)
        case None
        with v rest [of mem v False] m show ?thesis by simp
      next
        case (Some t)
        with v obtain bs where bs: "mem = bs @ buf_content t" "grown bs w v" "tls_good (files v) (TlsData t)"
          by auto
        have v: "ssl_inv v" "\<not> t_finalizing v" using bs(2) by (simp_all add: grown_def)
        have "wp (push_backlog t) (\<lambda>_ u. grown mem w u) (ssl_broken w) v"
          by (rule wp_weaken [OF push_wp [OF v bs(3)]]) (use grown_trans [OF bs(2)] bs(1) in auto)
        then show ?thesis
          unfolding Some option.case wp_andthen
          by (rule wp_weaken) (use rest [of mem _ True] m in auto)
      qed
      show ?thesis
        unfolding write_lines.simps if_False wp_bnd [of "lift_exn _"] wp_lift_exn Inr sum.case
          if_not_P [OF False] wp_bnd
        by (rule wp_weaken [OF sent_wp [OF Cons.prems(1,2,4) False bd]]) (use Inr after in auto)
    qed
  qed
qed

lemma pause_wrote:
  assumes "grown bs w v"
  shows "wp (v_maybe_pause vt) (\<lambda>_ u. wrote bs w u) (\<lambda>_. kept w) v"
proof -
  have "ssl_inv v" using assms by (simp add: grown_def)
  then show ?thesis
    unfolding socket_methods_def ssl_methods.select_convs
    by (intro wp_steps_in [OF maybe_pause_intact])
       (use wrote_later [OF assms] grown_kept [OF assms] in \<open>auto simp: intact_def kept_def\<close>)
qed

lemma writelines_exact:
  assumes "ssl_inv w" "\<not> ssl_is_closing w" "\<forall>d \<in> set ds. plain_buf d"
  shows "wp (ssl_writelines_nocheck apps vt ds)
      (\<lambda>_ v. wrote (concat (map buf_content ds)) w v) (\<lambda>_. kept w) w"
proof -
  let ?bs = "concat (map buf_content ds)"
  have nf: "\<not> t_finalizing w" using assms(2) by (simp add: ssl_is_closing_def)
  have queued: "wp (block [for_each ds (\<lambda>d. append_to_backlog vt d False), v_maybe_pause vt])
      (\<lambda>_ v. wrote ?bs w v) (\<lambda>_. kept w) w"
    unfolding wp_block
    by (rule wp_weaken [OF append_lines_wp [OF assms(1) nf assms(3)]]) (use pause_wrote in auto)
  have direct: "wp (block [write_lines vt ds False, flush_outgoing_bio vt, v_maybe_pause vt])
      (\<lambda>_ v. wrote ?bs w v) (ssl_broken w) w" if "x_size w = 0"
    unfolding wp_block
  proof (rule wp_weaken [OF write_lines_wp [OF assms(1) nf assms(3) that]])
    fix v
    assume g: "grown ?bs w v"
    then have "ssl_inv v" by (simp add: grown_def)
    have "wp (flush_outgoing_bio vt) (\<lambda>_ u. grown ?bs w u) (ssl_broken w) v"
      unfolding flush_outgoing_bio_def wp_andthen wp_ret socket_methods_def ssl_methods.select_convs
    proof (rule wp_steps_in [OF flush_quiet])
      fix u
      assume q: "quiet_io v u"
      then have "t_finalizing u = t_finalizing v" by (simp add: quiet_io_def io_step_def)
      with quiet_intact [OF q] quiet_same(1) [OF q] g \<open>ssl_inv v\<close> ssl_rel_trans [of w v u]
      show "grown ?bs w u" by (simp add: grown_def intact_def)
      then show "ssl_broken w e u" for e
        by (intro kept_broken [OF assms(1)]) (simp add: grown_def kept_def)
    qed
    then show "wp (flush_outgoing_bio vt)
        (\<lambda>_. wp (v_maybe_pause vt) (\<lambda>_ v. wrote ?bs w v) (ssl_broken w)) (ssl_broken w) v"
      by (rule wp_weaken)
         (auto intro!: wp_weaken [OF pause_wrote] kept_broken [OF assms(1)])
  qed
  have "wp (cond (\<lambda>w. x_size w \<noteq> 0)
           (block [
             for_each ds (\<lambda>d. append_to_backlog vt d False),
             v_maybe_pause vt])
           (try_except
             (block [
               write_lines vt ds False,
               flush_outgoing_bio vt,
               v_maybe_pause vt])
             (ssl_handle_error apps vt ''Fatal error on TLS transport'')))
      (\<lambda>_ v. wrote ?bs w v) (\<lambda>_. kept w) w"
    using queued wrote_handled [OF assms(1) direct]
    by (simp add: wp_cond kept_def [abs_def])
  then show ?thesis
    unfolding ssl_writelines_nocheck_def wp_bnd [of is_protocol_ready]
    by (intro ready_wp) (use assms(2) in simp_all)
qed

lemma writelines_intact:
  "\<forall>d \<in> set ds. plain_buf d \<Longrightarrow> steps_in ssl_intact (ssl_writelines_nocheck apps vt ds)"
  unfolding ssl_writelines_nocheck_def
  by (rule ready_intact) (rule writelines_exact [unfolded ssl_writelines_nocheck_def kept_def])

end

section \<open>File transfers\<close>

lemma tls_bytes_waiter: "tls_bytes fs (set_tls_waiter rid i it) = tls_bytes fs it"
  by (simp add: set_tls_waiter_def tls_bytes_def split: tls_item.splits)

lemma tls_good_waiter: "tls_good fs (set_tls_waiter rid i it) = tls_good fs it"
  by (simp add: set_tls_waiter_def tls_good_def tls_bytes_def split: tls_item.splits)

lemma waiter_intact:
  "steps_in ssl_intact (upd (\<lambda>w. w\<lparr>x_backlog := map (set_tls_waiter rid i) (x_backlog w)\<rparr>))"
proof (rule upd_same)
  fix w :: "'a ssl_transport_scheme"
  let ?w = "w\<lparr>x_backlog := map (set_tls_waiter rid i) (x_backlog w)\<rparr>"
  have p: "tls_pending ?w = tls_pending w"
    by (simp add: tls_pending_def o_def tls_bytes_waiter)
  have "accounted ?w = accounted w" by (simp add: accounted_def p tls_good_waiter)
  moreover have "ssl_weak ?w = ssl_weak w"
    unfolding ssl_weak_def by (simp only: ssl_life_def flow_inv_def finalize_count_def) simp
  ultimately show "ssl_intact w ?w"
    by (simp add: intact_def ssl_inv_def ssl_rel_def ssl_frame_def ssl_wraps_def wrapped_def tls_out_def p
        finalize_count_def)
qed

lemma request_good:
  assumes "make_sendfile_request fs i file offset count = Inr r"
  shows "tls_good fs (TlsFile r)" "0 \<le> sf_count r" "0 \<le> sf_offset r"
proof -
  from make_sendfile_request_ok [OF assms] obtain content where
    r: "0 \<le> sf_count r" "0 \<le> sf_offset r" "fs (sf_fd r) = Some content"
      "sf_offset r + sf_count r \<le> max (sf_offset r) (int (length content))" by blast
  then show "tls_good fs (TlsFile r)" by (auto simp: tls_good_def tls_bytes_def)
  from r show "0 \<le> sf_count r" "0 \<le> sf_offset r" by blast+
qed

lemma moved_good:
  assumes "tls_good fs (TlsFile r)" "0 \<le> m" "m \<le> sf_count r"
  shows "tls_good fs (TlsFile (moved_to r m))"
    "tls_bytes fs (TlsFile r) = take (nat m) (req_bytes fs r) @ tls_bytes fs (TlsFile (moved_to r m))"
proof -
  have r: "0 \<le> sf_offset r" "int (length (req_bytes fs r)) = sf_count r"
    using assms(1) by (simp_all add: tls_good_def tls_bytes_def req_bytes_def)
  have b: "tls_bytes fs (TlsFile q) = req_bytes fs q" for q by (simp add: tls_bytes_def req_bytes_def)
  have d: "req_bytes fs (moved_to r m) = drop (nat m) (req_bytes fs r)"
    by (rule req_bytes_moved [OF assms(2,3) r(1)])
  show "tls_bytes fs (TlsFile r) = take (nat m) (req_bytes fs r) @ tls_bytes fs (TlsFile (moved_to r m))"
    by (simp only: b d append_take_drop_id)
  have "0 \<le> sf_offset (moved_to r m)" "sf_count (moved_to r m) = sf_count r - m"
    using r(1) assms(2) by (simp_all add: moved_to_def)
  moreover have "int (length (req_bytes fs (moved_to r m))) = sf_count r - m"
    unfolding d using r(2) assms(2,3) by simp
  ultimately have "0 \<le> sf_offset (moved_to r m)"
    "int (length (req_bytes fs (moved_to r m))) = sf_count (moved_to r m)"
    by simp_all
  then show "tls_good fs (TlsFile (moved_to r m))" by (simp add: tls_good_def b)
qed

context tls_app
begin

lemma queue_transfer_wp:
  assumes "ssl_inv w" "\<not> t_finalizing w" "tls_good (files w) (TlsFile r)"
  shows "wp (queue_ssl_sendfile vt r) (\<lambda>_ v. wrote (tls_bytes (files w) (TlsFile r)) w v) (\<lambda>_. kept w) w"
proof -
  let ?bs = "tls_bytes (files w) (TlsFile r)"
  let ?v = "w\<lparr>x_backlog := x_backlog w @ [TlsFile r], x_size := x_size w + sf_count r\<rparr>"
  have "int (length ?bs) = sf_count r" using assms(3) by (simp add: tls_good_def)
  with grown_item [OF assms] have g: "grown ?bs w ?v" by simp
  have later: "wrote ?bs w u" if "wrote ?bs w v" "ssl_intact v u" for v u
  proof -
    have u: "ssl_inv u" "ssl_rel v u" using that by (simp_all add: wrote_def intact_def)
    have v: "ssl_rel w v" "\<not> t_finalizing v \<Longrightarrow> prefix (tls_out w @ ?bs) (tls_out v)"
      using that(1) by (simp_all add: wrote_def)
    have "prefix (tls_out w @ ?bs) (tls_out u)" if "\<not> t_finalizing u"
    proof -
      have "\<not> t_finalizing v" "prefix (tls_out v) (tls_out u)"
        using u(2) that by (auto simp: ssl_rel_def ssl_frame_def)
      with v(2) show ?thesis using prefix_order.trans by blast
    qed
    with u ssl_rel_trans [OF v(1) u(2)] show ?thesis by (simp add: wrote_def)
  qed
  have rest: "steps_in ssl_intact (bnd create_future (\<lambda>i.
         andthen (upd (\<lambda>w. w\<lparr>x_backlog := map (set_tls_waiter (sf_id r) i) (x_backlog w)\<rparr>))
           (ret (Some i))))"
    by (intro ti.order_rules future_intact waiter_intact)
  have "wp (bnd create_future (\<lambda>i.
         andthen (upd (\<lambda>w. w\<lparr>x_backlog := map (set_tls_waiter (sf_id r) i) (x_backlog w)\<rparr>))
           (ret (Some i)))) (\<lambda>_ u. wrote ?bs w u) (\<lambda>_. kept w) v" if "wrote ?bs w v" for v
    by (rule wp_steps_in [OF rest]) (use later [OF that] in \<open>auto intro: wrote_kept\<close>)
  then show ?thesis
    unfolding queue_ssl_sendfile_def wp_andthen wp_block wp_upd
    by (intro wp_weaken [OF pause_wrote [OF g]])
qed

lemma transfer_now_wp:
  assumes "ssl_inv w" "\<not> t_finalizing w" "tls_good (files w) (TlsFile r)" "x_size w = 0"
  shows "wp (v_try_sendfile vt (\<lambda>_. ret ()) r)
      (\<lambda>res v. case res of (sent, r') \<Rightarrow> \<exists>bs. grown bs w v \<and> tls_good (files v) (TlsFile r') \<and>
         bs @ tls_bytes (files v) (TlsFile r') = tls_bytes (files w) (TlsFile r) \<and>
         (sent \<longrightarrow> tls_bytes (files v) (TlsFile r') = []))
      (ssl_broken w) w"
proof -
  have r: "0 \<le> sf_count r" "0 \<le> sf_offset r" using assms(3) by (auto simp: tls_good_def)
  have "(\<lambda>_. ret ()) = (\<lambda>r :: sendfile_request. upd (\<lambda>w :: 'a ssl_transport_scheme. w))"
    by (rule ext, rule ext) simp
  then have m: "v_try_sendfile vt (\<lambda>_. ret ()) r = socket_try_sendfile (\<lambda>r. upd (\<lambda>w. w)) r"
    by (simp add: socket_methods_def)
  show ?thesis
    unfolding m
  proof (rule wp_weaken [OF fresh_file.transfer_wp [OF r refl]])
    show "case res of (sent, r') \<Rightarrow> \<exists>bs. grown bs w v \<and> tls_good (files v) (TlsFile r') \<and>
         bs @ tls_bytes (files v) (TlsFile r') = tls_bytes (files w) (TlsFile r) \<and>
         (sent \<longrightarrow> tls_bytes (files v) (TlsFile r') = [])"
      if "fresh_file.transfer_end r w res v" for res v
    proof -
      obtain sent r' where res: "res = (sent, r')" by (cases res)
      with that obtain n where n: "r' = moved_to r n" "fresh_file.transferred r w n v" "sent \<longleftrightarrow> n = sf_count r"
        by (auto simp: fresh_file.transfer_end_def)
      then have b: "0 \<le> n" "n \<le> sf_count r" and io: "plain_io (take (nat n) (req_bytes (files w) r)) w v"
        by (simp_all add: fresh_file.transferred_def)
      have f: "files v = files w" using io by (simp add: plain_io_def io_step_def)
      note g = moved_good [OF assms(3) b]
      have "tls_bytes (files w) (TlsFile (moved_to r n)) = []" if "n = sf_count r"
        using g(1) that by (simp add: tls_good_def moved_to_def)
      with g plain_grown(1) [OF assms(1,2,4) io] n show ?thesis
        by (auto simp: res f intro!: exI [of _ "take (nat n) (req_bytes (files w) r)"])
    qed
    show "ssl_broken w e v" if "io_failed w e v" for e v
      using that assms(1,2) by (auto simp: io_failed_def intro: io_broken ssl_inv_weak)
  qed
qed

lemma send_or_queue_wp:
  assumes "ssl_inv w" "\<not> t_finalizing w" "tls_good (files w) (TlsFile r)"
  shows "wp (bnd (cond (\<lambda>w. x_size w = 0) (v_try_sendfile vt (\<lambda>_. ret ()) r) (ret (False, r)))
      (\<lambda>(sent, r'). if sent then ret None else queue_ssl_sendfile vt r'))
      (\<lambda>_ v. wrote (tls_bytes (files w) (TlsFile r)) w v) (ssl_broken w) w"
proof -
  let ?bs = "tls_bytes (files w) (TlsFile r)"
  have after: "wp (if sent then ret None else queue_ssl_sendfile vt r')
      (\<lambda>_ v. wrote ?bs w v) (ssl_broken w) v"
    if g: "grown bs w v" "tls_good (files v) (TlsFile r')" "bs @ tls_bytes (files v) (TlsFile r') = ?bs"
      "sent \<longrightarrow> tls_bytes (files v) (TlsFile r') = []" for bs v sent r'
  proof -
    have v: "ssl_inv v" "\<not> t_finalizing v" using g(1) by (simp_all add: grown_def)
    have "wrote ?bs w u" if "wrote (tls_bytes (files v) (TlsFile r')) v u" for u
      using that g(1) g(3) [symmetric] ssl_rel_trans [of w v u] by (simp add: wrote_def grown_def)
    then have "wp (queue_ssl_sendfile vt r') (\<lambda>_ v. wrote ?bs w v) (ssl_broken w) v"
      by (intro wp_weaken [OF queue_transfer_wp [OF v g(2)]])
         (use grown_kept [OF g(1)] kept_broken [OF assms(1)] in auto)
    moreover have "sent \<Longrightarrow> wrote ?bs w v" using g(3,4) grown_wrote [OF g(1)] by simp
    ultimately show ?thesis by (simp add: wp_if wp_ret)
  qed
  show ?thesis
  proof (cases "x_size w = 0")
    case True
    then show ?thesis
      unfolding wp_bnd wp_cond if_P [OF True]
      by (intro wp_weaken [OF transfer_now_wp [OF assms True]]) (use after in auto)
  next
    case False
    have "wp (if False then ret None else queue_ssl_sendfile vt r)
        (\<lambda>_ v. wrote ?bs w v) (ssl_broken w) w"
      by (rule after [of "[]" w r False]) (use grown_refl [OF assms(1,2)] assms(3) in auto)
    with False show ?thesis by (simp add: wp_bnd wp_cond wp_ret)
  qed
qed

lemma sendfile_intact: "steps_in ssl_intact (ssl_sendfile apps vt file offset count)"
proof -
  let ?req = "\<lambda>w. make_sendfile_request (files w) (x_next_request w) file offset count"
  let ?send = "\<lambda>r. andthen (upd (\<lambda>w. w\<lparr>x_next_request := x_next_request w + 1\<rparr>))
      (try_except
         (bnd (cond (\<lambda>w. x_size w = 0) (v_try_sendfile vt (\<lambda>_. ret ()) r) (ret (False, r)))
           (\<lambda>(sent, r'). if sent then ret None else queue_ssl_sendfile vt r'))
         (\<lambda>e. andthen (ssl_handle_error apps vt ''Fatal error on TLS transport'' e) (reraise e)))"
  have send: "wp (?send r) (\<lambda>_. kept w) (\<lambda>_. kept w) w"
    if w: "ssl_inv w" "\<not> t_finalizing w" and r: "?req w = Inr r" for w :: "'a ssl_transport_scheme" and r
  proof -
    let ?v = "w\<lparr>x_next_request := x_next_request w + 1\<rparr>"
    have "ssl_intact w ?v"
      by (rule same_intact) (simp_all add: ssl_life_def flow_inv_def finalize_count_def)
    with w have k: "ssl_inv ?v" "ssl_rel w ?v" by (simp_all add: intact_def)
    have kk: "kept w u" if "kept ?v u" for u
      using that k(2) ssl_rel_trans [of w ?v u] by (simp add: kept_def)
    have good: "tls_good (files ?v) (TlsFile r)" using request_good(1) [OF r] by simp
    have nf: "\<not> t_finalizing ?v" using w by simp
    have handled: "wp (andthen (ssl_handle_error apps vt ''Fatal error on TLS transport'' e) (reraise e))
        (\<lambda>_. kept w) (\<lambda>_. kept w) u" if "ssl_broken ?v e u" for e u
      unfolding wp_andthen wp_reraise
      by (rule wp_weaken [OF handler_repairs [OF k(1) that]]) (rule kk, simp add: kept_def)+
    show ?thesis
      unfolding wp_andthen wp_upd wp_try_except
    proof (rule wp_weaken [OF send_or_queue_wp [OF k(1) nf good]])
      show "kept w u" if "wrote (tls_bytes (files ?v) (TlsFile r)) ?v u" for u
        using wrote_kept [OF that] by (rule kk)
    qed (use handled in \<open>simp add: wp_andthen\<close>)
  qed
  have ready: "wp (bnd is_protocol_ready (\<lambda>ready.
         if \<not> ready then raise RuntimeErr
         else bnd (gets ?req) (\<lambda>request. bnd (lift_exn request) ?send)))
      (\<lambda>_. ssl_intact w) (\<lambda>_. ssl_intact w) w" if w: "ssl_inv w" for w :: "'a ssl_transport_scheme"
  proof -
    have "wp (bnd (gets ?req) (\<lambda>request. bnd (lift_exn request) ?send))
        (\<lambda>_. ssl_intact w) (\<lambda>_. ssl_intact w) w" if "\<not> ssl_is_closing w"
    proof (cases "?req w")
      case (Inl c)
      then show ?thesis by (simp add: wps ti.order_refl)
    next
      case (Inr r)
      have "\<not> t_finalizing w" using that by (simp add: ssl_is_closing_def)
      from send [OF w this Inr] show ?thesis
        unfolding wp_bnd wp_gets wp_lift_exn Inr sum.case
        by (rule wp_weaken) (simp_all add: kept_def intact_def)
    qed
    then show ?thesis
      unfolding wp_bnd [of is_protocol_ready] by (intro ready_wp) (simp_all add: wp_raise)
  qed
  have main: "steps_in ssl_intact (bnd is_protocol_ready (\<lambda>ready.
         if \<not> ready then raise RuntimeErr
         else bnd (gets ?req) (\<lambda>request. bnd (lift_exn request) ?send)))"
  proof (rule steps_in_wp)
    fix w :: "'a ssl_transport_scheme"
    show "wp (bnd is_protocol_ready (\<lambda>ready.
         if \<not> ready then raise RuntimeErr
         else bnd (gets ?req) (\<lambda>request. bnd (lift_exn request) ?send)))
      (\<lambda>_. ssl_intact w) (\<lambda>_. ssl_intact w) w"
    proof (cases "ssl_inv w")
      case False
      then have "ssl_intact w = (\<lambda>_. True)" by (simp add: intact_def fun_eq_iff)
      then show ?thesis by (simp add: wp_true)
    qed (rule ready)
  qed
  show ?thesis
    unfolding ssl_sendfile_def
    by (intro ti.andthen_in [OF _ main] ti.order_rules check_thread_intact)
qed

end

end
