(* ===== verification/SslEvents.thy ===== *)
theory SslEvents
  imports SslWrites
begin

text \<open>
  The other calls of an application, the handshake, reading, and the event handlers of the TLS
  socket transport. The handlers end in \<open>ssl_handle_error\<close>, which closes the transport whatever
  state the body left behind.
\<close>

section \<open>Calls\<close>

lemma intact_if: "(ssl_inv w \<Longrightarrow> ssl_inv v \<and> ssl_rel w v) \<Longrightarrow> ssl_intact w v"
  by (simp add: intact_def)

lemma reader_kept:
  assumes "ssl_inv w" "b \<longrightarrow> \<not> t_finalizing w"
  shows "ssl_inv (w\<lparr>reader_on := b\<rparr>) \<and> ssl_rel w (w\<lparr>reader_on := b\<rparr>)"
proof -
  have "ssl_weak (w\<lparr>reader_on := b\<rparr>)"
    using assms unfolding ssl_inv_def ssl_weak_def
    by (simp only: ssl_life_def flow_inv_def finalize_count_def) auto
  then show ?thesis
    using assms(1)
    by (simp add: ssl_inv_def ssl_rel_def ssl_frame_def ssl_wraps_def wrapped_def finalize_count_def
        tls_out_def tls_pending_def accounted_def)
qed

lemma remove_reader_intact: "steps_in ssl_intact remove_reader"
  unfolding remove_reader_def by (rule upd_intact) (simp add: reader_kept)

lemma wp_any_state:
  assumes "ssl_inv w \<Longrightarrow> wp m (\<lambda>_. ssl_intact w) (\<lambda>_. ssl_intact w) w"
  shows "wp m (\<lambda>_. ssl_intact w) (\<lambda>_. ssl_intact w) w"
proof (cases "ssl_inv w")
  case False
  then have "ssl_intact w = (\<lambda>_. True)" by (simp add: intact_def fun_eq_iff)
  then show ?thesis by (simp add: wp_true)
qed (rule assms)

lemma pause_reading_intact: "steps_in ssl_intact socket_pause_reading"
proof -
  have m: "steps_in ssl_intact (if \<not> reading then ret ()
      else block [upd (\<lambda>w. w\<lparr>t_read_paused := True\<rparr>), remove_reader])" for reading
    by (cases reading; simp only: if_True if_False not_True_eq_False not_False_eq_True)
       (intro ti.order_rules field_intact remove_reader_intact)+
  show ?thesis
    unfolding socket_pause_reading_def socket_is_reading_def
    by (rule ti.andthen_in [OF check_thread_intact
        ti.bnd_in [OF ti.andthen_in [OF check_thread_intact ti.gets_in] m]])
qed

lemma resume_reading_intact: "steps_in ssl_intact socket_resume_reading"
proof -
  have soon: "steps_in ssl_intact (call_soon SoonReadReady)" by (rule soon_intact) simp
  have "steps_in ssl_intact (unless (\<lambda>w :: 'a ssl_transport_scheme. ssl_is_closing w \<or> \<not> t_read_paused w)
         (block [
           upd (\<lambda>w. w\<lparr>t_read_paused := False\<rparr>),
           add_reader,
           only_if (\<lambda>w. x_state w \<in> {WRAPPED, FLUSHING, SHUTDOWN}) (call_soon SoonReadReady)]))"
  proof (rule steps_in_wp)
    fix w :: "'a ssl_transport_scheme"
    let ?v = "w\<lparr>t_read_paused := False\<rparr>"
    let ?u = "?v\<lparr>reader_on := True\<rparr>"
    have "ssl_intact w ?v"
      by (rule same_intact) (simp_all add: ssl_life_def flow_inv_def finalize_count_def)
    moreover have "ssl_intact ?v ?u" if "\<not> t_finalizing w"
      using reader_kept [of ?v True] that by (intro intact_if) simp
    ultimately have u: "ssl_intact w ?u" if "\<not> ssl_is_closing w"
      using that ti.order_trans [of w ?v ?u] by (simp add: ssl_is_closing_def)
    have "wp (only_if (\<lambda>w. x_state w \<in> {WRAPPED, FLUSHING, SHUTDOWN}) (call_soon SoonReadReady))
        (\<lambda>_. ssl_intact w) (\<lambda>_. ssl_intact w) ?u" if "\<not> ssl_is_closing w"
      by (rule intact_steps [OF u [OF that] ti.only_if_in [OF soon]])
    then show "wp (unless (\<lambda>w. ssl_is_closing w \<or> \<not> t_read_paused w)
         (block [
           upd (\<lambda>w. w\<lparr>t_read_paused := False\<rparr>),
           add_reader,
           only_if (\<lambda>w. x_state w \<in> {WRAPPED, FLUSHING, SHUTDOWN}) (call_soon SoonReadReady)]))
        (\<lambda>_. ssl_intact w) (\<lambda>_. ssl_intact w) w"
      by (simp add: wp_unless wp_block wp_upd add_reader_def ti.order_refl)
  qed
  then show ?thesis
    unfolding socket_resume_reading_def
    by (intro ti.block_cons_in ti.block_nil_in check_thread_intact)
qed

lemma set_protocol_intact: "steps_in ssl_intact (set_protocol apps p)"
proof -
  have "steps_in ssl_intact (set_protocol_nocheck apps p :: ('a ssl_transport_scheme, unit) prog)"
    unfolding set_protocol_nocheck_def
    by (rule upd_same, rule same_intact) (simp_all add: ssl_life_def flow_inv_def finalize_count_def)
  then show ?thesis
    unfolding set_protocol_def by (intro ti.block_cons_in ti.block_nil_in check_thread_intact)
qed

context tls_app
begin

lemma close_intact: "steps_in ssl_intact (ssl_close apps vt)"
  unfolding ssl_close_def
  by (intro ti.block_cons_in ti.block_nil_in check_thread_intact tls_handled start_shutdown_safe)

lemma ssl_abort_intact: "steps_in ssl_intact (ssl_abort vt)"
  unfolding ssl_abort_def
  by (intro ti.block_cons_in ti.block_nil_in check_thread_intact abort_intact)

end

section \<open>Handshake\<close>

context tls_app
begin

lemma made_kept:
  assumes "ssl_weak w" "\<not> t_connected w" "\<not> t_finalizing w" "x_state w = WRAPPED" "accounted w"
  shows "ssl_inv (w\<lparr>t_connected := True, trace := trace w @ [ObConnectionMade]\<rparr>)"
    (is "ssl_inv ?v")
proof -
  have "ssl_life w" "flow_inv x_watermarks w" using assms(1) by (simp_all add: ssl_weak_def)
  then have l: "ssl_life ?v" "flow_inv x_watermarks ?v"
    using assms(2,3)
    by (auto simp: ssl_life_def life_run_append life_next_def is_life_def flow_inv_def flow_run_append)
       (metis phase.exhaust)
  have "ssl_weak ?v"
    by (rule weak_rest [OF l _ _ _ _ _ _ _ _ _ _ assms(1)]) (simp_all add: finalize_count_def)
  with assms(5) show ?thesis by (simp add: ssl_inv_def accounted_def tls_pending_def)
qed

lemma handshake_complete_live: "live_safe (on_handshake_complete apps vt None)"
proof (rule safeI)
  fix w :: "'a ssl_transport_scheme"
  assume w: "ssl_live w"
  let ?w0 = "w\<lparr>x_handshake_timer := False\<rparr>"
  have "ssl_intact w ?w0"
    by (rule same_intact) (simp_all add: ssl_life_def flow_inv_def finalize_count_def)
  with w have w0: "ssl_inv ?w0" "ssl_rel w ?w0" by (simp_all add: intact_def)
  let ?Q = "\<lambda>v. ssl_live v \<and> ssl_rel w v"
  have Q: "?Q v" if "ssl_inv v" "ssl_rel ?w0 v" for v
    using that w live_keeps [of ?w0 v] ssl_rel_trans [OF w0(2) that(2)] by (simp add: wrapped_def)
  have fail: "ssl_failed w e v" if "?Q v" for e v
    using that w by (auto intro: live.X_intact)
  show "wp (on_handshake_complete apps vt None) (\<lambda>_. ?Q) (ssl_failed w) w"
  proof (cases "x_state w = DO_HANDSHAKE")
    case False
    then have "\<not> transition_allowed (x_state w) WRAPPED" by (cases "x_state w") simp_all
    with Q [OF w0(1) ssl_rel_refl] fail show ?thesis
      by (simp add: on_handshake_complete_def wp_block wp_upd set_state_def wp_cond wp_raise)
  next
    case True
    have wk: "ssl_weak w" and nf: "\<not> t_finalizing w" and acc: "accounted w"
    proof -
      from w show "ssl_weak w" by (auto intro: ssl_inv_weak)
      with True show "\<not> t_finalizing w" by (auto simp: ssl_weak_def)
      with w show "accounted w" by (auto simp: ssl_inv_def)
    qed
    define v where "v sf = w\<lparr>x_handshake_timer := False, x_state := WRAPPED, x_sendfile_compatible := sf\<rparr>" for sf
    have v: "ssl_weak (v sf\<lparr>futures := fs\<rparr>)" "ssl_frame w (v sf\<lparr>futures := fs\<rparr>)"
      "accounted (v sf\<lparr>futures := fs\<rparr>)" "tls_out (v sf\<lparr>futures := fs\<rparr>) = tls_out w" for sf fs
    proof -
      show "ssl_weak (v sf\<lparr>futures := fs\<rparr>)"
        using wk nf unfolding ssl_weak_def v_def
        by (simp only: ssl_life_def flow_inv_def finalize_count_def) auto
      show "ssl_frame w (v sf\<lparr>futures := fs\<rparr>)"
        using True by (simp add: v_def ssl_frame_def finalize_count_def)
      show "accounted (v sf\<lparr>futures := fs\<rparr>)" "tls_out (v sf\<lparr>futures := fs\<rparr>) = tls_out w"
        using acc by (simp_all add: v_def accounted_def tls_pending_def tls_out_def)
    qed
    have exc: "ssl_failed w (exn_of (SSLErr c)) (v sf)" for c sf
      using v(1,2) [where sf = sf and fs = "futures w"] by (simp add: ssl_failed_def is_exit_def exn_of_def v_def)
    have soon: "wp (cond x_loop (call_soon SoonRetrySslRead) (raise AttributeErr)) (\<lambda>_. ?Q) (ssl_failed w) u"
      if "?Q u" for u
    proof -
      have "ssl_safe (cond x_loop (call_soon SoonRetrySslRead) (raise AttributeErr) :: ('a ssl_transport_scheme, unit) prog)"
        by (intro tls.safe_cond tls.safe_raise tls.safe_intact soon_intact) simp
      from live.later [OF live_of_tls [OF this] w _ _] that show ?thesis by blast
    qed
    have base: "?Q u" if "ssl_inv u" "ssl_frame w u" "t_connected u" "tls_out u = tls_out w" for u
      using that by (simp add: ssl_rel_def ssl_wraps_def)
    have made: "wp (ssl_connection_made apps) (\<lambda>_. ?Q) (ssl_failed w) (v sf\<lparr>futures := fs\<rparr>)" for sf fs
    proof (cases "t_connected w")
      case True
      then have "t_connected (v sf\<lparr>futures := fs\<rparr>)" by (simp add: v_def)
      moreover from this v(1,3) [where sf = sf and fs = fs] have "ssl_inv (v sf\<lparr>futures := fs\<rparr>)"
        by (simp add: ssl_inv_def)
      ultimately have "?Q (v sf\<lparr>futures := fs\<rparr>)" using v(2,4) [where sf = sf and fs = fs] by (intro base)
      then show ?thesis
        using \<open>t_connected (v sf\<lparr>futures := fs\<rparr>)\<close>
        by (simp add: ssl_connection_made_def call_protocol_connection_made_def wp_try_except wp_unless)
    next
      case False
      let ?u = "v sf\<lparr>futures := fs, t_connected := True, trace := trace w @ [ObConnectionMade]\<rparr>"
      have nc: "\<not> t_connected (v sf\<lparr>futures := fs\<rparr>)" "\<not> t_finalizing (v sf\<lparr>futures := fs\<rparr>)"
        "x_state (v sf\<lparr>futures := fs\<rparr>) = WRAPPED" "trace (v sf\<lparr>futures := fs\<rparr>) = trace w"
        using False nf by (simp_all add: v_def)
      have inv: "ssl_inv ?u"
        using made_kept [OF v(1) nc(1-3) v(3)] nc(4) by simp
      have "ssl_frame w ?u" "tls_out ?u = tls_out w"
        using v(2,4) [where sf = sf and fs = fs]
        by (simp_all add: ssl_frame_def finalize_count_def tls_out_def tls_pending_def)
      then have u: "?Q ?u" by (intro base inv) simp_all
      let ?m = "try_except (case t_protocol ?u of None \<Rightarrow> raise AttributeErr | Some i \<Rightarrow> on_connection_made (apps i))
          (\<lambda>e. if is_plain_exception e
            then fatal_error_no_close e ''user connection_made raised an exception''
            else reraise e)"
      have "steps_in ssl_intact ?m"
        unfolding fatal_error_no_close_def
        by (intro ti.try_except_in)
           (auto intro!: ti.raise_in ti.ret_in ti.reraise_in ti.only_if_in handler_intact
              apps_inD [OF apps_intact] split: option.split)
      then have "wp ?m (\<lambda>_. ?Q) (ssl_failed w) ?u"
      proof (rule wp_steps_in)
        show "?Q x" if "ssl_intact ?u x" for x
          using that inv u live_keeps [of ?u x] ssl_rel_trans [of w ?u x] by (simp add: intact_def)
        then show "ssl_failed w e x" if "ssl_intact ?u x" for e x
          using that by (intro fail)
      qed
      then show ?thesis
        using nc
        by (simp add: ssl_connection_made_def call_protocol_connection_made_def call_protocol_def log_def
            wp_try_except wp_unless wp_block wp_upd wp_andthen wp_bnd wp_gets)
    qed
    have rest: "wp (block [wakeup_waiter None, ssl_connection_made apps,
        cond x_loop (call_soon SoonRetrySslRead) (raise AttributeErr)]) (\<lambda>_. ?Q) (ssl_failed w) (v sf)" for sf
      unfolding wp_block
      by (rule wakeup_waiter_wp) (rule wp_weaken [OF made], use soon in auto)
    have state: "wp (set_state WRAPPED) Q' E ?w0 = Q' () (?w0\<lparr>x_state := WRAPPED\<rparr>)" for Q' E
      using True by (simp add: set_state_def wps)
    show ?thesis
      unfolding on_handshake_complete_def wp_block wp_upd option.case state wp_bnd wp_gets
      using rest exc
      by (auto simp: v_def wp_block wp_raise wp_ret split: option.split)
  qed
qed

end

context tls_app
begin

lemma do_handshake_live: "live_safe (do_handshake apps vt)"
proof -
  have "live_safe (do_handshake_step apps vt u)" for u
    unfolding do_handshake_step_def
  proof (rule live.safe_bnd [OF live_of_quiet [OF engine_handshake_quiet]])
    show "live_safe (case err of
         SSL_ERROR_NONE \<Rightarrow>
           andthen (on_handshake_complete apps vt None) (andthen (v_flush_outgoing vt) (leave_with ()))
       | SSL_ERROR_WANT_WRITE \<Rightarrow>
           bnd (v_retry_after_want_write vt) (\<lambda>again.
             if again then continue_with () else leave_with ())
       | SSL_ERROR_WANT_READ \<Rightarrow> andthen (v_flush_outgoing vt) (leave_with ())
       | _ \<Rightarrow> raise RuntimeErr)" for err
      by (cases err; simp only: ssl_error.case)
         (intro live.safe_rules live_of_tls [OF flush_safe(1)] live_of_tls [OF flush_safe(2)]
            handshake_complete_live)+
  qed
  then show ?thesis
    unfolding do_handshake_def by (intro live.safe_bnd [OF live.safe_gets] live.safe_loop)
qed

end

section \<open>Reading\<close>

context tls_app
begin

lemma retry_read_conn: "conn_safe (should_retry_read apps vt (start_shutdown apps vt) err)"
  by (rule conn_of_tls [OF should_retry_safe [OF start_shutdown_safe]])

lemma do_read_buffered_conn: "conn_safe (do_read_buffered apps vt)"
proof -
  have "conn_safe (read_buffered_step apps vt b n)" for b n
    unfolding read_buffered_step_def
    by (rule conn.safe_if [OF conn.safe_leave])
       (auto intro!: conn.safe_rules conn_of_tls [OF safe_quiet [OF engine_read_quiet]]
          get_buffer_conn buffer_updated_conn retry_read_conn split: prod.split)
  then show ?thesis
    unfolding do_read_buffered_def by (intro conn.safe_bnd [OF conn.safe_gets] conn.safe_loop)
qed

lemma do_read_copied_conn: "conn_safe (do_read_copied apps vt)"
proof -
  have "conn_safe (read_copied_step apps vt b n)" for b n
    unfolding read_copied_step_def
    by (rule conn.safe_if [OF conn.safe_leave])
       (auto intro!: conn.safe_rules conn_of_tls [OF safe_quiet [OF engine_read_quiet]]
          data_received_conn retry_read_conn split: prod.split)
  then show ?thesis
    unfolding do_read_copied_def by (intro conn.safe_bnd [OF conn.safe_gets] conn.safe_loop)
qed

lemma do_read_conn: "conn_safe (do_read apps vt)"
proof -
  have tail: "conn_safe (only_if (v_flush_after_read vt)
           (block [
             andthen (v_flush_outgoing vt) (ret ()),
             unless (\<lambda>w. x_size w = 0) (flush_write_backlog vt)]))"
    by (intro conn.safe_only_if conn.safe_block_cons conn.safe_block_nil conn.safe_andthen conn.safe_ret
        conn.safe_unless conn_of_tls [OF flush_safe(1)] conn_of_tls [OF flush_backlog_safe])
  show ?thesis
    unfolding do_read_def
    by (intro conn.safe_unless conn.safe_block_cons conn.safe_block_nil conn.safe_cond
        do_read_buffered_conn do_read_copied_conn tail)
qed

lemma live_of_conn:
  assumes "conn_safe m" "ssl_conn w"
  shows "wp m (\<lambda>_ v. ssl_live v \<and> ssl_rel w v) (ssl_failed w) w"
  by (rule wp_weaken [OF safeD [OF assms(1,2)]]) (auto intro: broken_failed)

lemma live_of_post:
  assumes "post_safe m" "ssl_live w" "x_state w \<noteq> DO_HANDSHAKE"
  shows "wp m (\<lambda>_ v. ssl_live v \<and> ssl_rel w v) (ssl_failed w) w"
proof (rule wp_weaken [OF safeD [OF assms(1)]])
  show "ssl_post w" using assms by blast
  show "ssl_live v \<and> ssl_rel w v" if "ssl_post v \<and> ssl_rel w v" for v
    using that assms(2) live_keeps [of w v] by blast
qed (rule broken_failed)

lemma bio_updated_live: "live_safe (incoming_bio_updated apps vt)"
proof (rule safeI)
  fix w :: "'a ssl_transport_scheme"
  assume w: "ssl_live w"
  then have c: "ssl_conn w" if "wrapped w" using that by blast
  note flush = live_of_post [OF do_flush_post [OF start_shutdown_safe] w]
  note shut = live_of_post [OF do_shutdown_post [OF start_shutdown_safe] w]
  show "wp (incoming_bio_updated apps vt) (\<lambda>_ v. ssl_live v \<and> ssl_rel w v) (ssl_failed w) w"
    unfolding incoming_bio_updated_def wp_bnd wp_gets
    using safeD [OF do_handshake_live w] live_of_conn [OF do_read_conn c] flush shut w
    by (cases "x_state w") (simp_all add: wrapped_def wp_def ssl_rel_refl)
qed

lemma process_eof_safe: "ssl_safe (process_eof apps vt)"
proof (rule safeI)
  fix w :: "'a ssl_transport_scheme"
  assume w: "ssl_inv w"
  let ?Q = "\<lambda>_ v. ssl_inv v \<and> ssl_rel w v"
  have failed: "wp (on_handshake_complete apps vt (Some e)) ?Q (ssl_broken w) w" for e
    by (rule wp_weaken [OF handshake_failed_wp [OF ssl_inv_weak [OF w]]]) (auto intro: tls_closed_inv closed_rel)
  have both: "post_safe (block [set_state SHUTDOWN, on_shutdown_complete vt None])"
    by (intro post.safe_block_cons post.safe_block_nil shutdown_complete_post post_of_intact state_intact) simp
  show "wp (process_eof apps vt) ?Q (ssl_broken w) w"
    unfolding process_eof_def wp_bnd wp_gets
    using failed tls_of_post [OF both w] tls_of_post [OF shutdown_complete_post w] w
    by (cases "x_state w") (simp_all add: wp_def ssl_rel_refl)
qed

end

section \<open>Event handlers\<close>

text \<open>What every event does to the state, the final callback included.\<close>

definition ssl_moves :: "'a ssl_transport_scheme \<Rightarrow> 'a ssl_transport_scheme \<Rightarrow> bool" where
  "ssl_moves w v =
     ((t_finalizing w \<longrightarrow> t_finalizing v) \<and> state_rank (x_state w) \<le> state_rank (x_state v) \<and>
      files v = files w \<and> t_thread_id v = t_thread_id w \<and>
      (\<not> t_finalizing v \<longrightarrow> prefix (tls_out w) (tls_out v)))"

lemma moves_rel: "ssl_rel w v \<Longrightarrow> ssl_moves w v"
  by (simp add: ssl_rel_def ssl_frame_def ssl_moves_def)

lemma moves_refl: "ssl_moves w w"
  by (simp add: ssl_moves_def)

lemma moves_trans: "ssl_moves w v \<Longrightarrow> ssl_moves v u \<Longrightarrow> ssl_moves w u"
  unfolding ssl_moves_def using prefix_order.trans by (metis order.trans)

definition event_ok :: "'a ssl_transport_scheme \<Rightarrow> 'a ssl_transport_scheme \<Rightarrow> bool" where
  "event_ok w v = (ssl_inv v \<and> ssl_moves w v)"

lemma event_intact: "ssl_inv w \<Longrightarrow> ssl_intact w v \<Longrightarrow> event_ok w v"
  by (simp add: intact_def event_ok_def moves_rel)

lemma event_steps: "ssl_inv w \<Longrightarrow> steps_in ssl_intact m \<Longrightarrow> event_ok w (snd (m w))"
  by (simp add: steps_in_def event_intact)

lemma failed_handled:
  assumes "ssl_inv w" "ssl_failed w e v"
  shows "wp (ssl_handle_error apps (socket_methods apps) msg e) (\<lambda>_ u. event_ok w u) (\<lambda>_ u. event_ok w u) v"
proof (cases "is_exit e")
  case True
  with assms show ?thesis by (simp add: ssl_handle_error_def wps ssl_failed_def event_ok_def moves_rel)
next
  case False
  have v: "ssl_weak v" "ssl_frame w v" using assms(2) by (simp_all add: ssl_failed_def)
  have "event_ok w u" if "closed_by v u" for u
    using that tls_closed_inv [OF that] v(2) ssl_frame_trans [of w v u]
    by (auto simp: event_ok_def ssl_moves_def closed_by_def ssl_frame_def)
  then show ?thesis by (intro wp_weaken [OF handle_error_wp [OF v(1) False]]) blast+
qed

lemma handled_event:
  assumes "ssl_inv w" "\<not> t_finalizing w" "live_safe m"
  shows "wp (try_except m (ssl_handle_error apps (socket_methods apps) msg))
      (\<lambda>_ v. event_ok w v) (\<lambda>_ v. event_ok w v) w"
  unfolding wp_try_except
proof (rule wp_weaken [OF safeD [OF assms(3)]])
  show "ssl_live w" using assms(1,2) by (simp add: ssl_inv_def)
  show "event_ok w v" if "ssl_live v \<and> ssl_rel w v" for v
    using that by (simp add: event_ok_def moves_rel)
qed (rule failed_handled [OF assms(1)])

context tls_app
begin

lemma read_step_live: "live_safe (socket_read_step apps n)"
proof -
  have sys: "live_safe (sys_read k)" for k by (rule live_of_quiet [OF sys_read_quiet])
  have more: "live_safe (case r of
                None \<Rightarrow> leave_with ()
              | Some bs \<Rightarrow>
                  if bs = [] then andthen (process_eof apps vt) (leave_with ())
                  else
                    andthen
                      (block [
                        incoming_bio_produce bs,
                        incoming_bio_updated apps vt])
                      (if length bs < buf_len then leave_with ()
                       else continue_with (k + length bs)))" for r buf_len k
    by (cases r; simp only: option.case)
       (intro live.safe_rules live_of_tls [OF process_eof_safe] live_of_quiet [OF bio_quiet(7)]
          bio_updated_live)+
  show ?thesis
    unfolding socket_read_step_def
    by (intro live.safe_if live.safe_leave live.safe_cond
        live.safe_bnd [OF live_of_quiet [OF bio_quiet(6)]] live.safe_bnd [OF sys] more)
qed

lemma read_ready_event:
  assumes "ssl_inv w"
  shows "event_ok w (snd (socket_read_ready apps w))"
proof -
  have "live_safe (cond ssl_incoming_use_membio
          (loop (MAX_READ_BYTES_PER_CYCLE_HINT + 1) (socket_read_step apps) 0)
          (incoming_bio_updated apps vt))"
    by (intro live.safe_cond live.safe_loop read_step_live bio_updated_live)
  from handled_event [OF assms _ this] assms
  show ?thesis
    by (cases "t_finalizing w")
       (simp_all add: socket_read_ready_def wp_snd run event_ok_def moves_refl)
qed

lemma retry_read_event:
  assumes "ssl_inv w"
  shows "event_ok w (snd (retry_ssl_read apps vt w))"
  using handled_event [OF assms _ bio_updated_live] assms
  by (cases "t_finalizing w") (simp_all add: retry_ssl_read_def wp_snd run event_ok_def moves_refl)

lemma drop_writer_kept:
  fixes w :: "'a ssl_transport_scheme"
  assumes "ssl_inv w" "\<not> x_had_eagain w"
  shows "wp drop_writer (\<lambda>_ v. ssl_inv v \<and> ssl_rel w v) E w"
proof -
  have "ssl_inv v \<and> ssl_rel w v"
    if "v = w\<lparr>x_writer := x, writer_on := y\<rparr>" "x = y" "t_finalizing w \<longrightarrow> \<not> y"
    for v :: "'a ssl_transport_scheme" and x y
  proof -
    have "ssl_weak v"
      using ssl_inv_weak [OF assms(1)] assms(2) that(2,3) unfolding that(1) ssl_weak_def
      by (simp only: ssl_life_def flow_inv_def finalize_count_def) auto
    then show ?thesis
      using assms(1) by (simp add: that(1) ssl_inv_def ssl_rel_def ssl_frame_def ssl_wraps_def wrapped_def
          finalize_count_def tls_out_def tls_pending_def accounted_def)
  qed
  then show ?thesis
    using ssl_inv_weak [OF assms(1)]
    by (intro wp_weaken [OF drop_writer_wp]) (auto simp: ssl_weak_def)
qed

lemma drop_writer_live: 
  "live_safe (unless x_had_eagain drop_writer :: ('a ssl_transport_scheme, unit) prog)"
proof (rule live_of_tls, rule safeI)
  fix w :: "'a ssl_transport_scheme"
  assume w: "ssl_inv w"
  show "wp (unless x_had_eagain drop_writer) (\<lambda>_ v. ssl_inv v \<and> ssl_rel w v) (ssl_broken w) w"
    using drop_writer_kept [OF w] w by (simp add: wp_unless ssl_rel_refl)
qed

lemma write_ready_event:
  assumes "ssl_inv w"
  shows "event_ok w (snd (socket_write_ready apps w))"
proof (cases "t_finalizing w")
  case True
  with assms show ?thesis by (simp add: socket_write_ready_def Let_def run event_ok_def moves_refl)
next
  case False
  let ?w = "w\<lparr>x_had_eagain := False\<rparr>"
  have "ssl_intact w ?w"
    by (rule same_intact) (simp_all add: ssl_life_def flow_inv_def finalize_count_def)
  with assms have w: "ssl_inv ?w" "ssl_rel w ?w" by (simp_all add: intact_def)
  have state: "live_safe (bnd (gets x_state) (\<lambda>s.
                case s of
                  DO_HANDSHAKE \<Rightarrow> do_handshake apps vt
                | WRAPPED \<Rightarrow> cond (\<lambda>w. x_size w \<noteq> 0) (flush_write_backlog vt) (do_read apps vt)
                | FLUSHING \<Rightarrow> do_flush apps vt (start_shutdown apps vt)
                | SHUTDOWN \<Rightarrow> do_shutdown apps vt (start_shutdown apps vt)
                | UNWRAPPED \<Rightarrow> ret ()))"
  proof (rule safeI)
    fix v :: "'a ssl_transport_scheme"
    assume v: "ssl_live v"
    then have c: "ssl_conn v" if "wrapped v" using that by blast
    note flush = live_of_post [OF do_flush_post [OF start_shutdown_safe] v]
    note shut = live_of_post [OF do_shutdown_post [OF start_shutdown_safe] v]
    show "wp (bnd (gets x_state) (\<lambda>s.
                case s of
                  DO_HANDSHAKE \<Rightarrow> do_handshake apps vt
                | WRAPPED \<Rightarrow> cond (\<lambda>w. x_size w \<noteq> 0) (flush_write_backlog vt) (do_read apps vt)
                | FLUSHING \<Rightarrow> do_flush apps vt (start_shutdown apps vt)
                | SHUTDOWN \<Rightarrow> do_shutdown apps vt (start_shutdown apps vt)
                | UNWRAPPED \<Rightarrow> ret ())) (\<lambda>_ u. ssl_live u \<and> ssl_rel v u) (ssl_failed v) v"
      unfolding wp_bnd wp_gets
      using safeD [OF do_handshake_live v] live_of_conn [OF do_read_conn c]
        safeD [OF live_of_tls [OF flush_backlog_safe] v] flush shut v
      by (cases "x_state v") (simp_all add: wrapped_def wp_cond wp_ret ssl_rel_refl)
  qed
  have "live_safe (block [flush_outgoing_bio vt,
              bnd (gets x_state) (\<lambda>s.
                case s of
                  DO_HANDSHAKE \<Rightarrow> do_handshake apps vt
                | WRAPPED \<Rightarrow> cond (\<lambda>w. x_size w \<noteq> 0) (flush_write_backlog vt) (do_read apps vt)
                | FLUSHING \<Rightarrow> do_flush apps vt (start_shutdown apps vt)
                | SHUTDOWN \<Rightarrow> do_shutdown apps vt (start_shutdown apps vt)
                | UNWRAPPED \<Rightarrow> ret ()),
              unless x_had_eagain drop_writer])"
    unfolding flush_outgoing_bio_def
    by (intro live.safe_block_cons live.safe_block_nil live.safe_andthen live_of_tls [OF flush_safe(1)]
        live.safe_ret state drop_writer_live)
  from handled_event [OF w(1) _ this] False
  have "event_ok ?w (snd (try_except (block [flush_outgoing_bio vt,
              bnd (gets x_state) (\<lambda>s.
                case s of
                  DO_HANDSHAKE \<Rightarrow> do_handshake apps vt
                | WRAPPED \<Rightarrow> cond (\<lambda>w. x_size w \<noteq> 0) (flush_write_backlog vt) (do_read apps vt)
                | FLUSHING \<Rightarrow> do_flush apps vt (start_shutdown apps vt)
                | SHUTDOWN \<Rightarrow> do_shutdown apps vt (start_shutdown apps vt)
                | UNWRAPPED \<Rightarrow> ret ()),
              unless x_had_eagain drop_writer])
            (ssl_handle_error apps vt ''Error occurred during write'') ?w))"
    by (simp add: wp_snd)
  then have "event_ok w (snd (try_except (block [flush_outgoing_bio vt,
              bnd (gets x_state) (\<lambda>s.
                case s of
                  DO_HANDSHAKE \<Rightarrow> do_handshake apps vt
                | WRAPPED \<Rightarrow> cond (\<lambda>w. x_size w \<noteq> 0) (flush_write_backlog vt) (do_read apps vt)
                | FLUSHING \<Rightarrow> do_flush apps vt (start_shutdown apps vt)
                | SHUTDOWN \<Rightarrow> do_shutdown apps vt (start_shutdown apps vt)
                | UNWRAPPED \<Rightarrow> ret ()),
              unless x_had_eagain drop_writer])
            (ssl_handle_error apps vt ''Error occurred during write'') ?w))"
    using moves_trans [OF moves_rel [OF w(2)]] by (simp add: event_ok_def)
  with False show ?thesis
    by (simp add: socket_write_ready_def Let_def run_unless block.simps(2,3) run_andthen)
qed

lemma handshake_timeout_event:
  assumes "ssl_inv w"
  shows "event_ok w (snd (check_handshake_timeout apps vt w))"
proof -
  have "ssl_safe (only_if (\<lambda>w. x_state w = DO_HANDSHAKE) (raise (OSErr ECONNABORTED))
      :: ('a ssl_transport_scheme, unit) prog)"
    by (intro tls.safe_only_if tls.safe_raise)
  from event_steps [OF assms tls_handled [OF this]] show ?thesis
    by (simp add: check_handshake_timeout_def)
qed

lemma shutdown_timeout_event:
  "ssl_inv w \<Longrightarrow> event_ok w (snd (check_shutdown_timeout vt w))"
  unfolding check_shutdown_timeout_def
  by (erule event_steps) (intro ti.only_if_in abort_intact)

end

end
