(* ===== verification/SslReach.thy ===== *)
theory SslReach
  imports SslEvents Reach
begin

text \<open>
  The end of a TLS connection, the calls an application makes, and the states a session of a TLS
  socket transport can reach. A step is one callback of the event loop, a timer, one call of a
  task from any thread, or a change on the side of the kernel, of OpenSSL or of the peer.
\<close>

section \<open>The end of a connection\<close>

lemma lost_kept:
  assumes "ssl_inv w" "t_connected w" "t_finalizing w"
  shows "event_ok w (w\<lparr>t_connected := False, trace := trace w @ [ObConnectionLost exc]\<rparr>)"
    (is "event_ok w ?v")
proof -
  have wk: "ssl_weak w" using assms(1) by (rule ssl_inv_weak)
  then have "ssl_life w" "flow_inv x_watermarks w" by (simp_all add: ssl_weak_def)
  then have l: "ssl_life ?v" "flow_inv x_watermarks ?v"
    using assms(2,3)
    by (auto simp: ssl_life_def life_run_append life_next_def is_life_def flow_inv_def flow_run_append)
  have "ssl_weak ?v"
    by (rule weak_rest [OF l _ _ _ _ _ _ _ _ _ _ wk]) (simp_all add: finalize_count_def)
  with assms(3) show ?thesis by (simp add: event_ok_def ssl_inv_def ssl_moves_def)
qed

lemma ended_kept:
  assumes "ssl_inv w" "t_finalizing w"
  shows "event_ok w (w\<lparr>x_open := False, t_protocol := None, x_loop := False\<rparr>)" (is "event_ok w ?v")
proof -
  have "ssl_weak w" using assms(1) by (rule ssl_inv_weak)
  then have "ssl_weak ?v"
    using assms(2) unfolding ssl_weak_def
    by (simp only: ssl_life_def flow_inv_def finalize_count_def) auto
  with assms(2) show ?thesis by (simp add: event_ok_def ssl_inv_def ssl_moves_def)
qed

lemma event_trans: "event_ok w v \<Longrightarrow> event_ok v u \<Longrightarrow> event_ok w u"
  unfolding event_ok_def using moves_trans by blast

lemma event_refl: "ssl_inv w \<Longrightarrow> event_ok w w"
  by (simp add: event_ok_def moves_refl)

context tls_app
begin

lemma lost_event:
  assumes "ssl_inv w" "t_finalizing w"
  shows "event_ok w (snd (ssl_connection_lost apps exc w))"
proof (cases "t_connected w")
  case False
  with assms show ?thesis by (simp add: ssl_connection_lost_def run event_refl)
next
  case True
  let ?w = "w\<lparr>t_connected := False\<rparr>"
  let ?v = "w\<lparr>t_connected := False, trace := trace w @ [ObConnectionLost exc]\<rparr>"
  have v: "event_ok w ?v" by (rule lost_kept [OF assms(1) True assms(2)])
  let ?h = "\<lambda>e. if is_plain_exception e
            then fatal_error_no_close e ''user connection_lost raised an exception''
            else reraise e :: ('a ssl_transport_scheme, unit) prog"
  have h: "steps_in ssl_intact (?h e)" for e
    by (auto simp: fatal_error_no_close_def intro!: ti.ret_in ti.reraise_in ti.only_if_in handler_intact)
  have cb: "steps_in ssl_intact (try_except (case t_protocol w of None \<Rightarrow> raise AttributeErr
      | Some i \<Rightarrow> on_connection_lost (apps i) exc) ?h)"
    by (intro ti.try_except_in h)
       (auto intro: ti.raise_in apps_inD [OF apps_intact] split: option.splits)
  have inv: "ssl_inv ?v" using v by (simp add: event_ok_def)
  have "snd (ssl_connection_lost apps exc w) = snd (try_except (case t_protocol w of None \<Rightarrow> raise AttributeErr
      | Some i \<Rightarrow> on_connection_lost (apps i) exc) ?h ?v)"
    using True by (simp add: ssl_connection_lost_def connection_lost_callback_def run log_def)
  with event_trans [OF v event_steps [OF inv cb]] show ?thesis by simp
qed

lemma finalize_event:
  assumes "ssl_inv w" "t_finalizing w"
  shows "event_ok w (snd (socket_finalize_close apps exc w))"
proof -
  let ?last = "\<lambda>w. snd (block [
         upd (\<lambda>w. w\<lparr>x_open := False, t_protocol := None, x_loop := False\<rparr>),
         only_if x_server (block [log ObServerDetach, upd (\<lambda>w. w\<lparr>x_server := False\<rparr>)])] w)"
  have last: "event_ok u (?last u)" if u: "ssl_inv u" "t_finalizing u" for u :: "'a ssl_transport_scheme"
  proof -
    let ?v = "u\<lparr>x_open := False, t_protocol := None, x_loop := False\<rparr>"
    have v: "event_ok u ?v" by (rule ended_kept [OF u])
    have srv: "steps_in ssl_intact (upd (\<lambda>w. w\<lparr>x_server := False\<rparr>) :: ('a ssl_transport_scheme, unit) prog)"
      by (rule upd_same, rule same_intact) (simp_all add: ssl_life_def flow_inv_def finalize_count_def)
    have "steps_in ssl_intact (only_if x_server
        (block [log ObServerDetach, upd (\<lambda>w. w\<lparr>x_server := False\<rparr>)]) :: ('a ssl_transport_scheme, unit) prog)"
      by (intro ti.only_if_in ti.block_cons_in ti.block_nil_in log_intact srv) (simp_all add: is_life_def)
    from event_trans [OF v event_steps [OF _ this]] v show ?thesis by (simp add: run event_ok_def)
  qed
  have l: "event_ok w (snd (ssl_connection_lost apps exc w))" by (rule lost_event [OF assms])
  then have "ssl_inv (snd (ssl_connection_lost apps exc w))" "t_finalizing (snd (ssl_connection_lost apps exc w))"
    using assms(2) by (simp_all add: event_ok_def ssl_moves_def)
  note event_trans [OF l last [OF this]]
  moreover have "snd (socket_finalize_close apps exc w) = ?last (snd (ssl_connection_lost apps exc w))"
    unfolding socket_finalize_close_def by (rule snd_try_finally) (simp add: run log_def)
  ultimately show ?thesis by simp
qed

end

section \<open>Calls\<close>

text \<open>"Transport.write_eof", which the TLS transports inherit.\<close>

definition base_write_eof :: "('a transport_scheme, unit) prog" where
  "base_write_eof = block [check_thread, raise NotImplementedErr]"

definition tls_run_call ::
  "(nat \<Rightarrow> 'a ssl_transport_scheme app) \<Rightarrow> call \<Rightarrow> ('a ssl_transport_scheme, unit) prog" where
  "tls_run_call apps c =
     (let vt = socket_methods apps in
      case c of
        CallWrite d \<Rightarrow> transport_write (ssl_write_nocheck apps vt) d
      | CallWritelines ds \<Rightarrow> transport_writelines (ssl_writelines_nocheck apps vt) ds
      | CallWriteC bs \<Rightarrow> ssl_write_c apps vt bs
      | CallSendfile file offset cnt \<Rightarrow> andthen (ssl_sendfile apps vt file offset cnt) (ret ())
      | CallWriteEof \<Rightarrow> base_write_eof
      | CallClose \<Rightarrow> ssl_close apps vt
      | CallAbort \<Rightarrow> ssl_abort vt
      | CallPauseReading \<Rightarrow> socket_pause_reading
      | CallResumeReading \<Rightarrow> socket_resume_reading
      | CallSetLimits high low \<Rightarrow> socket_set_write_buffer_limits apps high low
      | CallGetSize \<Rightarrow> andthen (socket_write_buffer_size apps) (ret ())
      | CallSetProtocol p \<Rightarrow> set_protocol apps p)"

text \<open>
  The copy of a tail is made in items, so the accounting is right for byte-sized items only. An
  argument that is not a buffer may be passed; it is refused.
\<close>

definition byte_view :: "pybuf \<Rightarrow> bool" where
  "byte_view d = (case d of PyMemview _ _ _ k _ \<Rightarrow> k = 1 | _ \<Rightarrow> True)"

definition byte_call :: "call \<Rightarrow> bool" where
  "byte_call c =
     (case c of CallWrite d \<Rightarrow> byte_view d | CallWritelines ds \<Rightarrow> list_all byte_view ds | _ \<Rightarrow> True)"

lemma byte_view_items: "byte_view d \<Longrightarrow> byte_items d"
  by (cases d rule: byte_items.cases) (simp_all add: byte_view_def)

lemma valid_plain: "aiofn_validate_buffer d = Inr u \<Longrightarrow> byte_view d \<Longrightarrow> plain_buf d"
  using byte_view_items [of d]
  by (cases d) (simp_all add: aiofn_validate_buffer_def plain_buf_def byte_view_def)

context tls_app
begin

lemma validated_in:
  assumes "plain_buf d \<Longrightarrow> steps_in ssl_intact m" "byte_view d"
  shows "steps_in ssl_intact (andthen (lift_exn (aiofn_validate_buffer d)) m)"
proof (cases "aiofn_validate_buffer d")
  case (Inl c)
  then show ?thesis by (simp add: steps_in_def run ti.order_refl)
next
  case (Inr u)
  with assms valid_plain have "steps_in ssl_intact m" by blast
  then show ?thesis by (intro ti.order_rules)
qed

lemma validated_lines_in:
  fixes m :: "('a ssl_transport_scheme, unit) prog"
  assumes "\<forall>d \<in> set ds. plain_buf d \<Longrightarrow> steps_in ssl_intact m" "list_all byte_view ds"
  shows "steps_in ssl_intact (andthen (for_each ds (\<lambda>d. lift_exn (aiofn_validate_buffer d))) m)"
proof (cases "\<forall>d \<in> set ds. plain_buf d")
  case True
  with assms(1) show ?thesis by (intro ti.andthen_in ti.for_each_in ti.lift_exn_in)
next
  case False
  have stop: "\<exists>e. for_each ds (\<lambda>d. lift_exn (aiofn_validate_buffer d)) w = (Inl e, w)"
    for w :: "'a ssl_transport_scheme"
    using False assms(2)
  proof (induction ds)
    case (Cons d ds)
    show ?case
    proof (cases "aiofn_validate_buffer d")
      case (Inl c)
      then show ?thesis by (simp add: run)
    next
      case (Inr u)
      with Cons valid_plain [OF Inr] show ?thesis by (auto simp: run)
    qed
  qed simp
  show ?thesis
  proof (rule steps_in_wp)
    fix w :: "'a ssl_transport_scheme"
    obtain e where "for_each ds (\<lambda>d. lift_exn (aiofn_validate_buffer d)) w = (Inl e, w)"
      using stop by blast
    then show "wp (andthen (for_each ds (\<lambda>d. lift_exn (aiofn_validate_buffer d))) m)
        (\<lambda>_. ssl_intact w) (\<lambda>_. ssl_intact w) w"
      by (simp add: wp_def run ti.order_refl)
  qed
qed

lemma call_intact:
  assumes "byte_call c"
  shows "steps_in ssl_intact (tls_run_call apps c)"
proof (cases c)
  case (CallWrite d)
  then have "byte_view d" using assms by (simp add: byte_call_def)
  then show ?thesis
    using CallWrite validated_in [OF write_intact]
    by (simp add: tls_run_call_def transport_write_def block.simps ti.andthen_in check_thread_intact)
next
  case (CallWritelines ds)
  then have "list_all byte_view ds" using assms by (simp add: byte_call_def)
  then show ?thesis
    using CallWritelines validated_lines_in [OF writelines_intact]
    by (simp add: tls_run_call_def transport_writelines_def block.simps ti.andthen_in check_thread_intact ti.ret_in)
qed (auto simp: tls_run_call_def base_write_eof_def Let_def intro!: ti.order_rules check_thread_intact write_c_intact
       sendfile_intact close_intact ssl_abort_intact pause_reading_intact resume_reading_intact set_limits_intact
       buffer_size_intact set_protocol_intact)

end

section \<open>Applications\<close>

text \<open>
  As for the stream transport, every application whose callbacks call the transport again, nested
  to depth \<open>d\<close>; here the callbacks send byte-sized items.
\<close>

definition tls_run_script ::
  "(nat \<Rightarrow> 'a ssl_transport_scheme app) \<Rightarrow> script \<Rightarrow> ('a ssl_transport_scheme, unit) prog" where
  "tls_run_script apps sc =
     bnd (gets (\<lambda>w. sc (trace w))) (\<lambda>(cs, e).
       andthen
         (for_each (filter (\<lambda>(c, _). byte_call c) cs) (\<lambda>(c, survives).
            if survives then try_except (tls_run_call apps c) (\<lambda>_. ret ()) else tls_run_call apps c))
         (case e of None \<Rightarrow> ret () | Some x \<Rightarrow> reraise x))"

definition tls_scripted_app ::
  "(nat \<Rightarrow> 'a ssl_transport_scheme app) \<Rightarrow> behaviour \<Rightarrow> 'a ssl_transport_scheme app" where
  "tls_scripted_app apps b =
     \<lparr>app_buffered = b_buffered b, app_aiofn = b_aiofn b,
      on_connection_made = tls_run_script apps (b_connection_made b),
      on_connection_lost = (\<lambda>_. tls_run_script apps (b_connection_lost b)),
      on_data_received = (\<lambda>_. tls_run_script apps (b_data_received b)),
      on_eof_received = andthen (tls_run_script apps (b_eof_received b)) (gets (\<lambda>w. b_keep_open b (trace w))),
      on_get_buffer = (\<lambda>_. andthen (tls_run_script apps (b_get_buffer b)) (gets (\<lambda>w. b_buffer b (trace w)))),
      on_buffer_updated = (\<lambda>_. tls_run_script apps (b_buffer_updated b)),
      on_pause_writing = tls_run_script apps (b_pause_writing b),
      on_resume_writing = tls_run_script apps (b_resume_writing b),
      on_datagram_received = (\<lambda>_ _. ret ()), on_error_received = (\<lambda>_. ret ()),
      on_local_write_buffer_size = gets (\<lambda>w. b_local_size b (trace w))\<rparr>"

fun tls_scripted :: "nat \<Rightarrow> (nat \<Rightarrow> behaviour) \<Rightarrow> nat \<Rightarrow> 'a ssl_transport_scheme app" where
  "tls_scripted 0 B p = inert_app (b_buffered (B p)) (b_aiofn (B p))"
| "tls_scripted (Suc d) B p = tls_scripted_app (tls_scripted d B) (B p)"

lemma for_each_members:
  "(\<And>x. x \<in> set xs \<Longrightarrow> steps_in ssl_intact (f x)) \<Longrightarrow> steps_in ssl_intact (for_each xs f)"
  by (induction xs) (auto intro: ti.ret_in ti.andthen_in)

context tls_app
begin

lemma script_intact: "steps_in ssl_intact (tls_run_script apps sc)"
proof (rule steps_in_wp)
  fix w :: "'a ssl_transport_scheme"
  have "steps_in ssl_intact (andthen
         (for_each (filter (\<lambda>(c, _). byte_call c) cs) (\<lambda>(c, survives).
            if survives then try_except (tls_run_call apps c) (\<lambda>_. ret ()) else tls_run_call apps c))
         (case e of None \<Rightarrow> ret () | Some x \<Rightarrow> reraise x))" for cs e
    by (intro ti.andthen_in for_each_members)
       (auto intro!: ti.order_rules call_intact split: option.splits)
  from intact_steps [OF ti.order_refl this]
  show "wp (tls_run_script apps sc) (\<lambda>_. ssl_intact w) (\<lambda>_. ssl_intact w) w"
    by (cases "sc (trace w)") (simp add: tls_run_script_def wps)
qed

end

lemma tls_scripted_intact:
  "apps_in ssl_intact (tls_scripted d B :: nat \<Rightarrow> 'a ssl_transport_scheme app)"
proof (induction d)
  case 0
  show ?case by (simp add: apps_in_def app_in_def inert_app_def idle_app_def ti.ret_in)
next
  case (Suc d)
  then have r: "tls_app (tls_scripted d B :: nat \<Rightarrow> 'a ssl_transport_scheme app)" by (rule tls_app.intro)
  show ?case
    unfolding apps_in_def app_in_def
    using tls_app.script_intact [OF r] by (simp add: tls_scripted_app_def ti.order_rules)
qed

interpretation tls_scripted: tls_app "tls_scripted d B :: nat \<Rightarrow> 'a ssl_transport_scheme app" for d B
  by (rule tls_app.intro) (rule tls_scripted_intact)

section \<open>Sessions\<close>

datatype tls_event =
    TlsSoon
  | TlsRead
  | TlsWrite
  | TlsHandshakeTimer
  | TlsShutdownTimer
  | TlsCall nat call
  | TlsWorld "sysret list" "unit recvret list" "ssl_answer list"

inductive tls_next ::
  "(nat \<Rightarrow> ssl_transport app) \<Rightarrow> tls_event \<Rightarrow> ssl_transport \<Rightarrow> ssl_transport \<Rightarrow> bool"
  for apps where
  tls_soon: "soon w = s # rest \<Longrightarrow>
     tls_next apps TlsSoon w (snd (ssl_run_soon apps s (w\<lparr>soon := rest\<rparr>)))"
| tls_read: "reader_on w \<Longrightarrow> tls_next apps TlsRead w (snd (socket_read_ready apps w))"
| tls_write: "writer_on w \<Longrightarrow> tls_next apps TlsWrite w (snd (socket_write_ready apps w))"
| tls_handshake_timer: "x_handshake_timer w \<Longrightarrow>
     tls_next apps TlsHandshakeTimer w (snd (check_handshake_timeout apps (socket_methods apps) w))"
| tls_shutdown_timer: "x_shutdown_timer w \<Longrightarrow>
     tls_next apps TlsShutdownTimer w (snd (check_shutdown_timeout (socket_methods apps) w))"
| tls_call: "byte_call c \<Longrightarrow> tls_next apps (TlsCall i c) w
     ((snd (tls_run_call apps c (w\<lparr>thread_now := i\<rparr>)))\<lparr>thread_now := thread_now w\<rparr>)"
| tls_world: "tls_next apps (TlsWorld ks kr sc) w
     (w\<lparr>k_send := ks, k_recv := k_recv w @ kr, e_script := e_script w @ sc\<rparr>)"

inductive tls_reachable ::
  "(nat \<Rightarrow> ssl_transport app) \<Rightarrow> ssl_transport \<Rightarrow> tls_event list \<Rightarrow> ssl_transport \<Rightarrow> bool"
  for apps w0 where
  tls_start: "tls_reachable apps w0 [] w0"
| tls_later: "tls_reachable apps w0 evs w \<Longrightarrow> tls_next apps ev w w' \<Longrightarrow> tls_reachable apps w0 (evs @ [ev]) w'"

inductive_simps tls_next_simps:
  "tls_next apps TlsSoon w w'" "tls_next apps TlsRead w w'" "tls_next apps TlsWrite w w'"
  "tls_next apps TlsHandshakeTimer w w'" "tls_next apps TlsShutdownTimer w w'"
  "tls_next apps (TlsCall i c) w w'" "tls_next apps (TlsWorld ks kr sc) w w'"

text \<open>
  The start of a session: the constructor returned. \<open>fresh_engine\<close> is an engine on a descriptor
  on which nothing has happened, in whatever mode.
\<close>

definition fresh_engine :: "ssl_engine \<Rightarrow> bool" where
  "fresh_engine w =
     (\<not> reader_on w \<and> \<not> writer_on w \<and> soon w = [] \<and> trace w = [] \<and> e_plain w = [] \<and>
      \<not> t_connected w \<and> \<not> t_eof_received w \<and> \<not> t_finalizing w)"

definition tls_started ::
  "(nat \<Rightarrow> ssl_transport app) \<Rightarrow> nat \<Rightarrow> nat option \<Rightarrow> bool \<Rightarrow> ssl_engine \<Rightarrow> ssl_transport \<Rightarrow> bool" where
  "tls_started apps p waiter server engine w =
     (fresh_engine engine \<and>
      socket_transport_start apps (ret ()) (ssl_transport_init apps p waiter server engine) = (Inr (), w))"

section \<open>Every step keeps the invariant\<close>

lemma tls_same_event:
  assumes "ssl_inv w" "ssl_life v = ssl_life w" "flow_inv x_watermarks v = flow_inv x_watermarks w"
    "finalize_count v \<le> finalize_count w" "x_writer v = x_writer w" "writer_on v = writer_on w"
    "reader_on v = reader_on w" "x_had_eagain v = x_had_eagain w" "x_state v = x_state w"
    "t_finalizing v = t_finalizing w" "x_size v = x_size w" "x_open v = x_open w" "x_loop v = x_loop w"
    "t_connected v = t_connected w" "files v = files w" "t_thread_id v = t_thread_id w"
    "x_backlog v = x_backlog w" "e_plain v = e_plain w"
  shows "event_ok w v"
proof -
  have "ssl_weak w" using assms(1) by (rule ssl_inv_weak)
  then have "ssl_weak v" unfolding ssl_weak_def using assms by (auto split: if_splits)
  then show ?thesis
    using assms by (simp add: event_ok_def ssl_inv_def ssl_moves_def wrapped_def accounted_def
        tls_pending_def tls_out_def)
qed

lemma tls_start_inv:
  assumes app: "tls_app apps" and f: "fresh_engine engine"
  shows "wp (socket_transport_start apps (ret ())) (\<lambda>_. ssl_inv) (\<lambda>_ _. True)
      (ssl_transport_init apps p waiter server engine)"
proof -
  let ?w = "(ssl_transport_init apps p waiter server engine)
      \<lparr>x_open := True, reader_on := True, x_state := DO_HANDSHAKE, x_handshake_timer := True\<rparr>"
  have "ssl_life ?w" "flow_inv x_watermarks ?w"
    using f by (simp_all add: fresh_engine_def ssl_transport_init_def set_protocol_nocheck_def upd_def
        ssl_life_def flow_inv_def watermarks_new_eq limits_ok_def py_ssize_max_def
        ssl_engine.defs ssl_transport.defs)
  then have w: "ssl_live ?w"
    using f by (simp add: fresh_engine_def ssl_transport_init_def set_protocol_nocheck_def upd_def
        ssl_inv_def ssl_weak_def wrapped_def accounted_def tls_pending_def finalize_count_def
        ssl_engine.defs ssl_transport.defs)
  have fail: "wp (block [
           upd (\<lambda>w. w\<lparr>x_open := False\<rparr>),
           remove_reader,
           drop_writer,
           upd (\<lambda>w. w\<lparr>x_handshake_timer := False\<rparr>),
           reraise e]) (\<lambda>_. ssl_inv) (\<lambda>_ _. True) v" for e and v :: ssl_transport
    by (auto simp: wp_block wp_upd wp_reraise remove_reader_def wp_andthen
        intro!: wp_weaken [OF drop_writer_wp])
  have "wp (incoming_bio_updated apps (socket_methods apps)) (\<lambda>_. ssl_inv)
      (\<lambda>e. wp (block [
           upd (\<lambda>w. w\<lparr>x_open := False\<rparr>),
           remove_reader,
           drop_writer,
           upd (\<lambda>w. w\<lparr>x_handshake_timer := False\<rparr>),
           reraise e]) (\<lambda>_. ssl_inv) (\<lambda>_ _. True)) ?w"
    by (rule wp_weaken [OF safeD [OF tls_app.bio_updated_live [OF app] w]]) (use fail in auto)
  then show ?thesis
    by (simp add: socket_transport_start_def start_handshake_def set_state_def wp_block wp_upd
        wp_try_except wp_andthen wp_cond wp_ret add_reader_def ssl_transport_init_def
        set_protocol_nocheck_def upd_def ssl_engine.defs ssl_transport.defs)
qed

lemma tls_pop:
  assumes "ssl_inv w" "soon w = s # rest"
  shows "event_ok w (w\<lparr>soon := rest\<rparr>)"
    "s = SoonFinalizeClose exc \<Longrightarrow> t_finalizing w"
proof -
  have c: "finalize_count (w\<lparr>soon := rest\<rparr>) \<le> finalize_count w"
    using finalize_count_pop [OF assms(2)] by (auto split: soon.splits)
  then show "event_ok w (w\<lparr>soon := rest\<rparr>)"
    by (intro tls_same_event [OF assms(1)]) (simp_all add: ssl_life_def flow_inv_def)
  show "t_finalizing w" if "s = SoonFinalizeClose exc"
    using ssl_inv_weak [OF assms(1)] finalize_count_pop [OF assms(2)] that
    by (auto simp: ssl_weak_def split: if_splits)
qed

lemma tls_thread:
  assumes "ssl_inv w"
  shows "event_ok w (w\<lparr>thread_now := i\<rparr>)"
  by (rule tls_same_event [OF assms]) (simp_all add: ssl_life_def flow_inv_def finalize_count_def)

lemma tls_next_event:
  assumes app: "tls_app apps" and w: "ssl_inv w" and n: "tls_next apps ev w w'"
  shows "event_ok w w'"
  using n
proof (cases rule: tls_next.cases)
  case (tls_soon s rest)
  let ?v = "w\<lparr>soon := rest\<rparr>"
  note pop = tls_pop [OF w tls_soon(3)]
  have v: "ssl_inv ?v" using pop(1) by (simp add: event_ok_def)
  have "event_ok ?v (snd (ssl_run_soon apps s ?v))"
  proof (cases s)
    case (SoonFinalizeClose exc)
    then have "t_finalizing ?v" using pop(2) by simp
    with tls_app.finalize_event [OF app v] SoonFinalizeClose show ?thesis by (simp add: ssl_run_soon_def)
  qed (use tls_app.retry_read_event [OF app v] tls_app.read_ready_event [OF app v] event_refl [OF v]
       in \<open>simp_all add: ssl_run_soon_def\<close>)
  with pop(1) show ?thesis unfolding tls_soon(2) by (rule event_trans)
next
  case tls_read
  then show ?thesis using tls_app.read_ready_event [OF app w] by simp
next
  case tls_write
  then show ?thesis using tls_app.write_ready_event [OF app w] by simp
next
  case tls_handshake_timer
  then show ?thesis using tls_app.handshake_timeout_event [OF app w] by simp
next
  case tls_shutdown_timer
  then show ?thesis using tls_app.shutdown_timeout_event [OF app w] by simp
next
  case (tls_call c i)
  let ?v = "w\<lparr>thread_now := i\<rparr>" and ?u = "\<lambda>w. w\<lparr>thread_now := thread_now (w' :: ssl_transport)\<rparr>"
  have v: "event_ok w ?v" by (rule tls_thread [OF w])
  then have "ssl_inv ?v" by (simp add: event_ok_def)
  from event_steps [OF this tls_app.call_intact [OF app tls_call(3)]]
  have u: "event_ok ?v (snd (tls_run_call apps c ?v))" .
  then have "ssl_inv (snd (tls_run_call apps c ?v))" by (simp add: event_ok_def)
  from event_trans [OF event_trans [OF v u] tls_thread [OF this]] tls_call show ?thesis by simp
next
  case (tls_world ks kr sc)
  show ?thesis unfolding tls_world(2)
    by (rule tls_same_event [OF w]) (simp_all add: ssl_life_def flow_inv_def finalize_count_def)
qed

lemma tls_reachable_event:
  assumes "tls_app apps" "tls_reachable apps w0 evs w" "ssl_inv w0"
  shows "event_ok w0 w"
  using assms(2)
proof induction
  case tls_start
  then show ?case by (rule event_refl [OF assms(3)])
next
  case (tls_later evs w ev w')
  then have "ssl_inv w" by (simp add: event_ok_def)
  from event_trans [OF tls_later(3) tls_next_event [OF assms(1) this tls_later(2)]] show ?case .
qed

lemma tls_session_inv:
  assumes "tls_started (tls_scripted d B) p waiter server engine w0"
    "tls_reachable (tls_scripted d B) w0 evs w"
  shows "ssl_inv w"
proof -
  have app: "tls_app (tls_scripted d B)" by (rule tls_app.intro) (rule tls_scripted_intact)
  have "fresh_engine engine"
    and "socket_transport_start (tls_scripted d B) (ret ())
      (ssl_transport_init (tls_scripted d B) p waiter server engine) = (Inr (), w0)"
    using assms(1) by (simp_all add: tls_started_def)
  then have "ssl_inv w0" using tls_start_inv [OF app, of engine p waiter server] by (simp add: wp_def)
  from tls_reachable_event [OF app assms(2) this] show ?thesis by (simp add: event_ok_def)
qed

end
