(* ===== verification/SslFuelEvents.thy ===== *)
theory SslFuelEvents
  imports SslFuel SslReach
begin

text \<open>
  The handshake, reading, the events and the calls of an application end, under the callbacks of any
  application that ends.
\<close>

lemma wp_any: "(\<And>a v. Q a v) \<Longrightarrow> wp m Q (\<lambda>_ _. True) w"
  by (rule wp_weaken [OF wp_true]) simp_all

lemma positive_buffer: "wp (call_protocol_get_buffer apps) (\<lambda>n _. 0 < n) (\<lambda>_ _. True) w"
  unfolding call_protocol_get_buffer_def wp_try_except wp_bnd
  by (rule wp_weaken [OF wp_true]) (auto simp: wps aiofn_add_info_and_reraise_def split: sum.splits)

text \<open>
  A call with arguments that exist in Python: the method \<open>fileno()\<close> of a file raises what it likes,
  but not the exhaustion of fuel.
\<close>

definition real_call :: "call \<Rightarrow> bool" where
  "real_call c = (case c of CallSendfile f _ _ \<Rightarrow> pf_fileno f \<noteq> Inl OutOfFuel | _ \<Rightarrow> True)"

context fueled_apps
begin

section \<open>Handshake\<close>

lemma handshake_complete_ends: "ends (on_handshake_complete apps vt exc)"
proof -
  have cert: "ends (bnd (gets x_cert_error) (\<lambda>err. case err of None \<Rightarrow> ret () | Some c \<Rightarrow> raise (SSLErr c)))"
    by (auto intro!: la.ends_rules split: option.split)
  have "ends (block [
              set_state WRAPPED,
              upd (\<lambda>w. w\<lparr>x_sendfile_compatible := sendfile_available w \<and> ktls_send_enabled w \<noteq> 0\<rparr>),
              bnd (gets x_cert_error) (\<lambda>err. case err of None \<Rightarrow> ret () | Some c \<Rightarrow> raise (SSLErr c)),
              wakeup_waiter None,
              ssl_connection_made apps,
              cond x_loop (call_soon SoonRetrySslRead) (raise AttributeErr)])"
    by (intro la.ends_block_cons la.ends_block_nil la.ends_cond la.ends_raise cert set_state_ends ends_same
        wakeup_waiter_ends made_ends loop_ends) simp_all
  then show ?thesis
    unfolding on_handshake_complete_def
    by (auto intro!: la.ends_block_cons la.ends_block_nil ends_same set_state_ends ssl_fatal_error_ends
        wakeup_waiter_ends split: option.split)
qed

lemma handshake_ends: "ends (do_handshake apps vt)"
  unfolding do_handshake_def
proof (rule la.ends_fuel_loop [OF _ fuel_enough])
  show "progress_in (\<lambda>_. True) later answers isl (do_handshake_step apps vt l)" for l
    unfolding do_handshake_step_def socket_table
    by (rule la.progress_bnd [OF handshake_progress])
       (auto intro!: la.ends_rules loop_ends handshake_complete_ends la.progress_leave la.progress_andthen
         split: ssl_error.split)
qed

section \<open>Reading\<close>

lemma retry_read_ends: "ends (should_retry_read apps vt (start_shutdown apps vt) err)"
  unfolding should_retry_read_def socket_table
  by (auto intro!: la.ends_rules eof_ends loop_ends start_shutdown_ends split: ssl_error.split)

lemma nothing_read:
  assumes "\<not> (case a of (err, data) \<Rightarrow> err \<noteq> SSL_ERROR_WANT_READ \<or> data \<noteq> [])"
  shows "a = (SSL_ERROR_WANT_READ, [])"
  using assms by (cases a) auto

lemma read_buffered_progress:
  "progress_in (\<lambda>_. True) later answers isl (read_buffered_step apps vt mbio nread)"
proof -
  have "progress_in (\<lambda>_. True) later answers isl (bnd (engine_read n) (\<lambda>(err, data).
            andthen (if data = [] then ret () else call_protocol_buffer_updated apps data)
              (if length data = n then
                 cond t_read_paused (leave_with ()) (continue_with (nread + length data))
               else
                 bnd (should_retry_read apps vt (start_shutdown apps vt) err) (\<lambda>again.
                   if \<not> again then leave_with ()
                   else cond t_read_paused (leave_with ()) (continue_with (nread + length data))))))"
    if "0 < n" for n
  proof (rule la.progress_bnd [OF read_progress [OF that]], goal_cases)
    case (1 a)
    then show ?case by (auto intro!: la.ends_rules received_ends retry_read_ends)
  next
    case (2 a)
    have "length ([] :: bytes) \<noteq> n" using that by simp
    then show ?case
      unfolding nothing_read [OF 2] prod.case no_retry
      by (simp only: if_True if_False not_False_eq_True) (intro la.progress_andthen la.ends_if received_ends la.ends_ret la.progress_leave)
  qed
  then have "progress_in (\<lambda>_. True) later answers isl (bnd (call_protocol_get_buffer apps) (\<lambda>n.
      bnd (engine_read n) (\<lambda>(err, data).
            andthen (if data = [] then ret () else call_protocol_buffer_updated apps data)
              (if length data = n then
                 cond t_read_paused (leave_with ()) (continue_with (nread + length data))
               else
                 bnd (should_retry_read apps vt (start_shutdown apps vt) err) (\<lambda>again.
                   if \<not> again then leave_with ()
                   else cond t_read_paused (leave_with ()) (continue_with (nread + length data)))))))"
    by (rule la.progress_value [OF received_ends(4) positive_buffer])
  then show ?thesis unfolding read_buffered_step_def by (simp add: la.progress_leave)
qed

lemma read_copied_progress:
  "progress_in (\<lambda>_. True) later answers isl (read_copied_step apps vt mbio nread)"
proof -
  have "progress_in (\<lambda>_. True) later answers isl (bnd (engine_read DATA_RECEIVED_MAX_SIZE) (\<lambda>(err, data).
          andthen (if data = [] then ret () else call_protocol_data_received apps data)
            (cond t_read_paused (leave_with ())
              (if length data < DATA_RECEIVED_MAX_SIZE then
                 bnd (should_retry_read apps vt (start_shutdown apps vt) err) (\<lambda>again.
                   if again then continue_with (nread + length data) else leave_with ())
               else continue_with (nread + length data)))))"
  proof (rule la.progress_bnd [OF read_progress], goal_cases)
    case (2 a)
    then show ?case by (auto intro!: la.ends_rules received_ends retry_read_ends)
  next
    case (3 a)
    have "length ([] :: bytes) < DATA_RECEIVED_MAX_SIZE" by (simp add: DATA_RECEIVED_MAX_SIZE_def)
    then show ?case
      unfolding nothing_read [OF 3] prod.case no_retry
      by (simp only: if_True if_False) (intro la.progress_andthen la.ends_if received_ends la.ends_ret la.progress_leave la.progress_cond)
  qed (simp add: DATA_RECEIVED_MAX_SIZE_def)
  then show ?thesis unfolding read_copied_step_def by (simp add: la.progress_leave)
qed

lemma read_ends: "ends (do_read apps vt)"
  unfolding do_read_def do_read_buffered_def do_read_copied_def socket_table
  by (intro la.ends_unless la.ends_only_if la.ends_block_cons la.ends_block_nil la.ends_cond la.ends_andthen la.ends_ret
      la.ends_bnd [OF la.ends_gets] la.ends_fuel_loop [OF _ fuel_enough] read_buffered_progress read_copied_progress
      flush_backlog_ends loop_ends)

section \<open>Events\<close>

lemma shutdown_nested: "ends_in ending later (start_shutdown apps vt)"
  by (rule ends_ending [OF start_shutdown_ends])

lemma updated_ends: "ends (incoming_bio_updated apps vt)"
proof (rule ends_inI, unfold incoming_bio_updated_def wp_bnd wp_gets)
  fix w :: "'a ssl_transport_scheme"
  show "wp (case x_state w of
         DO_HANDSHAKE \<Rightarrow> do_handshake apps vt
       | WRAPPED \<Rightarrow> do_read apps vt
       | FLUSHING \<Rightarrow> do_flush apps vt (start_shutdown apps vt)
       | SHUTDOWN \<Rightarrow> do_shutdown apps vt (start_shutdown apps vt)
       | UNWRAPPED \<Rightarrow> ret ()) (\<lambda>_ v. later w v) (\<lambda>e v. later w v \<and> exn_cls e \<noteq> OutOfFuel) w"
    using ends_inD [OF handshake_ends TrueI] ends_inD [OF read_ends TrueI]
      ends_inD [OF do_flush_ends [OF shutdown_nested], of w]
      ends_inD [OF do_shutdown_ends [OF shutdown_nested], of w]
    by (cases "x_state w") (simp_all add: ending_def wps la.order_refl)
qed

lemma handle_error_ends: "exn_cls e \<noteq> OutOfFuel \<Longrightarrow> ends (ssl_handle_error apps vt msg e)"
  unfolding ssl_handle_error_def
  by (intro la.ends_if la.ends_reraise la.ends_cond handshake_complete_ends shutdown_complete_ends ssl_fatal_error_ends)

lemma process_eof_ends: "ends (process_eof apps vt)"
  unfolding process_eof_def
  by (intro la.ends_bnd [OF la.ends_gets])
     (auto intro!: la.ends_rules handshake_complete_ends shutdown_complete_ends set_state_ends split: ssl_state.split)

lemma retry_ssl_read_ends: "ends (retry_ssl_read apps vt)"
  unfolding retry_ssl_read_def by (intro la.ends_rules updated_ends handle_error_ends)

lemma timeouts_end: "ends (check_handshake_timeout apps vt)" "ends (check_shutdown_timeout vt)"
  unfolding check_handshake_timeout_def check_shutdown_timeout_def
  by (intro la.ends_rules handle_error_ends abort_with_ends; simp)+

lemma read_round_ends: "ends (socket_read_step apps nread)"
proof -
  have "ends (case r of
                None \<Rightarrow> leave_with ()
              | Some bs \<Rightarrow>
                  if bs = [] then andthen (process_eof apps vt) (leave_with ())
                  else
                    andthen
                      (block [
                        incoming_bio_produce bs,
                        incoming_bio_updated apps vt])
                      (if length bs < buf_len then leave_with ()
                       else continue_with (nread + length bs)))" for r :: "bytes option" and buf_len
    by (auto intro!: la.ends_rules loop_ends process_eof_ends updated_ends split: option.split)
  then show ?thesis
    unfolding socket_read_step_def
    by (intro la.ends_if la.ends_cond la.ends_leave la.ends_bnd loop_ends)
qed

lemma read_round_counts:
  "wp (socket_read_step apps nread)
     (\<lambda>x _. case x of Inl n \<Rightarrow> nread < n \<and> nread < MAX_READ_BYTES_PER_CYCLE_HINT | Inr r \<Rightarrow> True) (\<lambda>_ _. True) w"
proof (cases "nread < MAX_READ_BYTES_PER_CYCLE_HINT \<and> \<not> t_read_paused w")
  case False
  then show ?thesis unfolding socket_read_step_def by (auto simp: wps)
next
  case True
  have round: "wp (case r of
                None \<Rightarrow> leave_with ()
              | Some bs \<Rightarrow>
                  if bs = [] then andthen (process_eof apps vt) (leave_with ())
                  else
                    andthen
                      (block [
                        incoming_bio_produce bs,
                        incoming_bio_updated apps vt])
                      (if length bs < buf_len then leave_with ()
                       else continue_with (nread + length bs)))
      (\<lambda>x _. case x of Inl n \<Rightarrow> nread < n \<and> nread < MAX_READ_BYTES_PER_CYCLE_HINT | Inr r \<Rightarrow> True) (\<lambda>_ _. True) v"
    for r :: "bytes option" and buf_len v
    using True by (cases r) (auto simp: wps intro!: wp_any)
  show ?thesis
    unfolding socket_read_step_def wp_if wp_cond wp_bnd
    using True by (simp only: if_False not_True_eq_False) (rule wp_any, rule wp_any, rule wp_weaken [OF round], auto split: sum.splits)
qed

lemma read_ready_ends: "ends (socket_read_ready apps)"
proof -
  have "wp (loop (MAX_READ_BYTES_PER_CYCLE_HINT + 1) (socket_read_step apps) 0)
      (\<lambda>_ v. later w v) (\<lambda>e v. later w v \<and> exn_cls e \<noteq> OutOfFuel) w" for w :: "'a ssl_transport_scheme"
  proof (rule la.ends_loop [where \<mu> = "\<lambda>n _. MAX_READ_BYTES_PER_CYCLE_HINT - n" and J = "\<lambda>_. True"])
    fix n and v :: "'a ssl_transport_scheme"
    show "wp (socket_read_step apps n)
        (\<lambda>x u. later v u \<and> (case x of Inl m \<Rightarrow> True \<and>
            MAX_READ_BYTES_PER_CYCLE_HINT - m < MAX_READ_BYTES_PER_CYCLE_HINT - n | Inr r \<Rightarrow> True))
        (\<lambda>e u. later v u \<and> exn_cls e \<noteq> OutOfFuel) v"
      by (rule wp_weaken [OF wp_conj [OF ends_inD [OF read_round_ends TrueI] read_round_counts]])
         (auto split: sum.splits)
  qed simp_all
  then have "ends (loop (MAX_READ_BYTES_PER_CYCLE_HINT + 1) (socket_read_step apps) 0)" by (rule ends_inI)
  then show ?thesis
    unfolding socket_read_ready_def
    by (intro la.ends_unless la.ends_try_except la.ends_cond updated_ends handle_error_ends)
qed

lemma write_ready_ends: "ends (socket_write_ready apps)"
proof -
  have "ends (bnd (gets x_state) (\<lambda>s.
                case s of
                  DO_HANDSHAKE \<Rightarrow> do_handshake apps vt
                | WRAPPED \<Rightarrow> cond (\<lambda>w. x_size w \<noteq> 0) (flush_write_backlog vt) (do_read apps vt)
                | FLUSHING \<Rightarrow> do_flush apps vt (start_shutdown apps vt)
                | SHUTDOWN \<Rightarrow> do_shutdown apps vt (start_shutdown apps vt)
                | UNWRAPPED \<Rightarrow> ret ()))"
  proof (rule ends_inI, unfold wp_bnd wp_gets)
    fix w :: "'a ssl_transport_scheme"
    show "wp (case x_state w of
                  DO_HANDSHAKE \<Rightarrow> do_handshake apps vt
                | WRAPPED \<Rightarrow> cond (\<lambda>w. x_size w \<noteq> 0) (flush_write_backlog vt) (do_read apps vt)
                | FLUSHING \<Rightarrow> do_flush apps vt (start_shutdown apps vt)
                | SHUTDOWN \<Rightarrow> do_shutdown apps vt (start_shutdown apps vt)
                | UNWRAPPED \<Rightarrow> ret ()) (\<lambda>_ v. later w v) (\<lambda>e v. later w v \<and> exn_cls e \<noteq> OutOfFuel) w"
      using ends_inD [OF handshake_ends TrueI] ends_inD [OF read_ends TrueI] ends_inD [OF flush_backlog_ends TrueI]
        ends_inD [OF do_flush_ends [OF shutdown_nested], of w]
        ends_inD [OF do_shutdown_ends [OF shutdown_nested], of w]
      by (cases "x_state w") (simp_all add: ending_def wps la.order_refl)
  qed
  then show ?thesis
    unfolding socket_write_ready_def Let_def flush_outgoing_bio_def socket_table
    by (intro la.ends_unless la.ends_block_cons la.ends_block_nil la.ends_try_except la.ends_andthen la.ends_ret
        loop_ends handle_error_ends)
qed

lemma finalize_ends: "ends (socket_finalize_close apps exc)"
  unfolding socket_finalize_close_def
  by (intro la.ends_rules lost_ends loop_ends ends_same) simp_all

lemma soon_ends: "ends (ssl_run_soon apps s)"
  unfolding ssl_run_soon_def
  by (cases s) (simp_all add: retry_ssl_read_ends read_ready_ends finalize_ends la.ends_ret)

section \<open>Calls\<close>

lemma ready_ends: "ends is_protocol_ready"
  unfolding is_protocol_ready_def by (intro la.ends_rules loop_ends ends_same) simp_all

lemma append_ends: "ends (append_to_backlog vt d maybe_pause)"
  unfolding append_to_backlog_def push_backlog_def socket_table
  by (intro la.ends_rules buf_fuel ends_same flow_control_ends) simp_all

lemma write_ends: "ends (ssl_write_nocheck apps vt d)" "ends (ssl_write_c apps vt bs)"
  unfolding ssl_write_nocheck_def ssl_write_c_def flush_outgoing_bio_def socket_table
  by (intro la.ends_bnd la.ends_if la.ends_ret la.ends_try_except la.ends_cond la.ends_lift_exn la.ends_block_cons
      la.ends_block_nil la.ends_andthen ready_ends append_ends loop_ends buf_fuel handle_error_ends; assumption)+

lemma lines_end: "ends (write_lines vt ds queued)"
proof (induction ds arbitrary: queued)
  case (Cons d ds)
  have "ends (case t of None \<Rightarrow> write_lines vt ds False | Some t \<Rightarrow> andthen (push_backlog t) (write_lines vt ds True))" for t
    unfolding push_backlog_def
    by (auto intro!: la.ends_rules Cons.IH ends_same simp: buf_fuel split: option.split)
  then show ?case
    unfolding write_lines.simps
    by (intro la.ends_if la.ends_andthen la.ends_bnd la.ends_lift_exn append_ends Cons.IH loop_ends buf_fuel)
qed (simp add: la.ends_ret)

lemma writelines_ends: "ends (ssl_writelines_nocheck apps vt ds)"
  unfolding ssl_writelines_nocheck_def flush_outgoing_bio_def socket_table
  by (intro la.ends_bnd la.ends_if la.ends_ret la.ends_try_except la.ends_cond la.ends_block_cons la.ends_for_each
      la.ends_block_nil la.ends_andthen ready_ends append_ends loop_ends lines_end flow_control_ends handle_error_ends)

lemma sendfile_ends:
  assumes "pf_fileno file \<noteq> Inl OutOfFuel"
  shows "ends (ssl_sendfile apps vt file offset cnt)"
proof -
  have request: "make_sendfile_request fs i file offset cnt \<noteq> Inl OutOfFuel" for fs i
    using assms by (auto simp: make_sendfile_request_def Let_def split: pyint_arg.splits sum.splits option.splits)
  have queue: "ends (queue_ssl_sendfile vt r)" for r
    unfolding queue_ssl_sendfile_def socket_table create_future_def
    by (intro la.ends_andthen la.ends_block_cons la.ends_block_nil la.ends_bnd la.ends_ret ends_same flow_control_ends)
       (simp_all add: ends_in_def wp_def later_def answers_def ending_def)
  have send: "ends (andthen (upd (\<lambda>w. w\<lparr>x_next_request := x_next_request w + 1\<rparr>))
                 (try_except
                   (bnd
                     (cond (\<lambda>w. x_size w = 0) (v_try_sendfile vt (\<lambda>_. ret ()) r) (ret (False, r)))
                     (\<lambda>(sent, r'). if sent then ret None else queue_ssl_sendfile vt r'))
                   (\<lambda>e. andthen (ssl_handle_error apps vt ''Fatal error on TLS transport'' e)
                          (reraise e))))" for r
    unfolding socket_table
    by (auto intro!: la.ends_rules ends_same calmly_ends [OF try_sendfile_calm] ca.ends_ret queue handle_error_ends)
  show ?thesis
    unfolding ssl_sendfile_def
    by (intro la.ends_andthen la.ends_block_cons la.ends_block_nil la.ends_unless la.ends_raise check_thread_ends
        la.ends_bnd [OF ready_ends] la.ends_if la.ends_read la.ends_bnd [OF la.ends_lift_exn] send request) simp_all
qed

lemma close_ends: "ends (ssl_close apps vt)" "ends (ssl_abort vt)"
  unfolding ssl_close_def ssl_abort_def
  by (intro la.ends_rules check_thread_ends start_shutdown_ends handle_error_ends abort_with_ends; assumption)+

lemma reading_ends: "ends (socket_pause_reading :: ('a ssl_transport_scheme, unit) prog)"
  "ends (socket_resume_reading :: ('a ssl_transport_scheme, unit) prog)"
  unfolding socket_pause_reading_def socket_resume_reading_def socket_is_reading_def
  by (intro la.ends_rules check_thread_ends ends_same loop_ends; simp)+

lemma call_ends:
  assumes "real_call c"
  shows "ends (tls_run_call apps c)"
proof (cases c)
  case (CallSendfile f offset cnt)
  then show ?thesis
    using assms sendfile_ends by (simp add: tls_run_call_def Let_def real_call_def la.ends_andthen la.ends_ret)
qed (auto simp: tls_run_call_def Let_def transport_write_def transport_writelines_def base_write_eof_def
      set_protocol_def set_protocol_nocheck_def buf_fuel
    intro!: la.ends_rules check_thread_ends write_ends writelines_ends close_ends reading_ends buffer_size_ends
      set_limits_ends ends_same)

end

section \<open>Applications that call again\<close>

definition real_script :: "script \<Rightarrow> bool" where
  "real_script sc =
     (\<forall>tr. case sc tr of (cs, e) \<Rightarrow>
        list_all (\<lambda>x. real_call (fst x)) cs \<and> (case e of None \<Rightarrow> True | Some x \<Rightarrow> exn_cls x \<noteq> OutOfFuel))"

definition real_behaviour :: "behaviour \<Rightarrow> bool" where
  "real_behaviour b =
     list_all real_script
       [b_connection_made b, b_connection_lost b, b_data_received b, b_eof_received b, b_get_buffer b,
        b_buffer_updated b, b_pause_writing b, b_resume_writing b]"

context fueled_apps
begin

lemma script_ends:
  assumes "real_script sc"
  shows "ends (tls_run_script apps sc)"
proof -
  have "ends (case sc tr of (cs, e) \<Rightarrow>
       andthen
         (for_each (filter (\<lambda>(c, _). byte_call c) cs) (\<lambda>(c, survives).
            if survives then try_except (tls_run_call apps c) (\<lambda>_. ret ()) else tls_run_call apps c))
         (case e of None \<Rightarrow> ret () | Some x \<Rightarrow> reraise x))" for tr
  proof -
    obtain cs e where sc: "sc tr = (cs, e)" by (cases "sc tr")
    with assms have "list_all (\<lambda>x. real_call (fst x)) cs"
      and e: "case e of None \<Rightarrow> True | Some x \<Rightarrow> exn_cls x \<noteq> OutOfFuel"
      unfolding real_script_def by (metis (mono_tags, lifting) case_prod_conv)+
    then have "real_call c" if "(c, survives) \<in> set cs" for c survives
      using that by (metis fst_conv list_all_iff)
    with e show ?thesis
      unfolding sc by (auto intro!: la.ends_rules call_ends split: option.splits)
  qed
  then show ?thesis unfolding tls_run_script_def by (rule la.ends_read)
qed

end

lemma scripted_ends:
  assumes "\<And>p. real_behaviour (B p)"
  shows "app_ends (tls_scripted d B p :: 'a ssl_transport_scheme app)"
proof (induction d arbitrary: p)
  case 0
  show ?case by (simp add: app_ends_def inert_app_def idle_app_def la.ends_ret)
next
  case (Suc d)
  then have "fueled_apps (tls_scripted d B :: nat \<Rightarrow> 'a ssl_transport_scheme app)" by (rule fueled_apps.intro)
  from fueled_apps.script_ends [OF this] assms [of p] show ?case
    by (simp add: app_ends_def tls_scripted_app_def real_behaviour_def la.ends_andthen la.ends_gets)
qed

end
