(* ===== verification/SslProps.thy ===== *)
theory SslProps
  imports SslFuelEvents StreamProps
begin

text \<open>
  The main properties of the TLS transport on a socket: what holds in every state that a session
  can reach, whatever the application does in its callbacks and whatever OpenSSL, the kernel and
  the peer answer, and what a write achieves.
\<close>

section \<open>A concrete session\<close>

text \<open>
  OpenSSL writes to the socket itself and completes the handshake with its first answer; after
  that it wants to read, so the greeting of the application is queued.
\<close>

definition handshake_answer :: ssl_answer where
  "handshake_answer = \<lparr>sa_rc = 1, sa_fail = FailOther 0, sa_reason = [], sa_data = [],
     sa_taken = 0, sa_out = [22], sa_pending = 0\<rparr>"

definition demo_engine :: ssl_engine where
  "demo_engine = transport.extend (transport_init demo_world)
     (ssl_engine.fields True None None [] [] 0 0 [handshake_answer] 0 False [])"

definition demo_tls_apps :: "nat \<Rightarrow> ssl_transport app" where
  "demo_tls_apps = tls_scripted 1 (\<lambda>_. greeter)"

definition demo_tls_init :: ssl_transport where
  "demo_tls_init = ssl_transport_init demo_tls_apps 0 None False demo_engine"

definition demo_tls :: ssl_transport where
  "demo_tls = demo_tls_init\<lparr>reader_on := True, soon := [SoonRetrySslRead], trace := [ObConnectionMade],
     wire := [22], t_connected := True, e_script := [], x_open := True, x_state := WRAPPED,
     x_backlog := [TlsData (PyMemview True True True 1 [1, 2, 3])], x_size := 3\<rparr>"

lemmas demo_tls_defs = demo_tls_def demo_tls_init_def demo_tls_apps_def demo_engine_def demo_world_def
  greeter_def quiet_def handshake_answer_def ssl_transport_init_def transport_init_def
  set_protocol_nocheck_def ssl_engine.defs ssl_transport.defs transport.defs pyworld.defs

lemmas tls_run_defs = engine_do_handshake_def direct_do_handshake_def ssl_call_def ssl_effect_def
  on_handshake_complete_def set_state_def wakeup_waiter_def ssl_connection_made_def
  call_protocol_connection_made_def call_protocol_def log_def tls_scripted_app_def tls_run_script_def
  tls_run_call_def byte_call_def byte_view_def transport_write_def check_thread_def aiofn_validate_buffer_def
  ssl_write_nocheck_def is_protocol_ready_def ssl_is_closing_def write_impl_def write_impl_step_def
  engine_write_def direct_write_def direct_write_step_def want_read_answer_def
  direct_write_failed_def sa_err_def aiofn_maybe_copy_buffer_tail_def slice_start_def
  flush_outgoing_bio_def socket_methods_def socket_flush_outgoing_bio_def ssl_outgoing_use_membio_def
  append_to_backlog_def buf_true_def aiofn_maybe_copy_buffer_def push_backlog_def
  socket_maybe_pause_def socket_write_buffer_size_def maybe_pause_protocol_raw_def
  current_app_def inert_app_def idle_app_def tail_object_def call_soon_def continue_with_def leave_with_def
  ktls_send_enabled_def sendfile_available_def ssl_fuel_def Let_def

lemma demo_tls_runs:
  "socket_transport_start demo_tls_apps (ret ()) demo_tls_init = (Inr (), demo_tls)"
  by (simp add: demo_tls_defs upd_def run tls_run_defs socket_transport_start_def start_handshake_def
    add_reader_def incoming_bio_updated_def do_handshake_def do_handshake_step_def watermarks_new_eq)

lemma demo_tls_started: "tls_started demo_tls_apps 0 None False demo_engine demo_tls"
  using demo_tls_runs
  by (simp add: tls_started_def demo_tls_init_def)
     (simp add: fresh_engine_def demo_tls_defs)

lemma demo_tls_write:
  "tls_run_call demo_tls_apps (CallWrite (PyBytes [4])) demo_tls =
     (Inr (), demo_tls\<lparr>x_backlog := [TlsData (PyMemview True True True 1 [1, 2, 3]), TlsData (PyBytes [4])],
        x_size := 4\<rparr>)"
  by (simp add: demo_tls_defs upd_def run tls_run_defs watermarks_new_eq)

definition demo_tls_more :: ssl_transport where
  "demo_tls_more = demo_tls\<lparr>x_backlog := [TlsData (PyMemview True True True 1 [1, 2, 3]),
     TlsData (PyBytes [4])], x_size := 4\<rparr>"

lemma demo_tls_next: "tls_next demo_tls_apps (TlsCall 7 (CallWrite (PyBytes [4]))) demo_tls demo_tls_more"
proof -
  have t: "thread_now demo_tls = 7" "demo_tls\<lparr>thread_now := 7\<rparr> = demo_tls"
    by (simp_all add: demo_tls_defs upd_def)
  then have "demo_tls_more\<lparr>thread_now := 7\<rparr> = demo_tls_more"
    by (simp add: demo_tls_more_def demo_tls_defs upd_def)
  then show ?thesis
    using demo_tls_write [folded demo_tls_more_def]
    by (simp only: tls_next_simps t snd_conv) (simp add: byte_call_def byte_view_def)
qed

section \<open>Invariants of a session\<close>



text \<open>C33: the state of a TLS session is well formed. While the connection is up it has its socket
  and its loop, every item of the backlog is a non-empty immutable buffer of bytes or a range
  that lies inside its file, and the size is that of the plaintext still to be sent; a transport
  that finalizes has dropped its size, its reader and its writer.\<close>

theorem tls_state_well_formed:
  assumes "tls_started (tls_scripted d B) p waiter server engine w0"
    "tls_reachable (tls_scripted d B) w0 evs w"
  shows "if t_finalizing w then x_size w = 0 \<and> \<not> reader_on w \<and> \<not> writer_on w
         else x_open w \<and> x_loop w \<and> list_all (tls_good (files w)) (x_backlog w) \<and>
              x_size w = int (length (concat (map (tls_bytes (files w)) (x_backlog w))))"
proof -
  have inv: "ssl_inv w" by (rule tls_session_inv [OF assms])
  then show ?thesis
    using ssl_inv_weak [OF inv]
    by (simp add: ssl_inv_def ssl_weak_def accounted_def tls_pending_def list_all_iff split: if_splits)
qed

theorem tls_state_well_formed_witness:
  "if t_finalizing demo_tls then x_size demo_tls = 0 \<and> \<not> reader_on demo_tls \<and> \<not> writer_on demo_tls
   else x_open demo_tls \<and> x_loop demo_tls \<and> list_all (tls_good (files demo_tls)) (x_backlog demo_tls) \<and>
        x_size demo_tls = int (length (concat (map (tls_bytes (files demo_tls)) (x_backlog demo_tls))))"
  by (rule tls_state_well_formed [OF demo_tls_started [unfolded demo_tls_apps_def] tls_start])

text \<open>C34: a session never loses its wakeup and never closes twice. The writer is registered exactly
  when the transport believes so; while a write could not complete it is registered, or the
  connection is being closed; at most one finalizer is scheduled, and only when the
  transport finalizes; \<open>pause_writing\<close> and \<open>resume_writing\<close> alternate.\<close>

theorem tls_wakeup_kept:
  assumes "tls_started (tls_scripted d B) p waiter server engine w0"
    "tls_reachable (tls_scripted d B) w0 evs w"
  shows "x_writer w = writer_on w \<and>
         (if x_had_eagain w then writer_on w \<or> t_finalizing w else True) \<and>
         finalize_count w \<le> (if t_finalizing w then 1 else 0) \<and>
         flow_run False (trace w) = Some (wm_paused (x_watermarks w))"
  using ssl_inv_weak [OF tls_session_inv [OF assms]]
  unfolding ssl_weak_def flow_inv_def by (elim conjE) (intro conjI, simp_all)

theorem tls_wakeup_kept_witness:
  "x_writer demo_tls = writer_on demo_tls \<and>
   (if x_had_eagain demo_tls then writer_on demo_tls \<or> t_finalizing demo_tls else True) \<and>
   finalize_count demo_tls \<le> (if t_finalizing demo_tls then 1 else 0) \<and>
   flow_run False (trace demo_tls) = Some (wm_paused (x_watermarks demo_tls))"
  by (rule tls_wakeup_kept [OF demo_tls_started [unfolded demo_tls_apps_def] tls_start])

section \<open>Refinement\<close>

text \<open>
  What a TLS connection promises its user: a channel that accepts bytes in order, passes through
  its states once, and may be cut at any time.
\<close>

datatype channel = Sending nat bytes | Cut nat

inductive channel_step :: "channel \<Rightarrow> channel \<Rightarrow> bool" where
  channel_send: "r \<le> r' \<Longrightarrow> channel_step (Sending r bs) (Sending r' (bs @ added))"
| channel_cut: "r \<le> r' \<Longrightarrow> channel_step (Sending r bs) (Cut r')"
| channel_rest: "r \<le> r' \<Longrightarrow> channel_step (Cut r) (Cut r')"

text \<open>
  The bytes of a connection: what OpenSSL has accepted, then what the backlog holds.
\<close>

definition channel_of :: "ssl_transport \<Rightarrow> channel" where
  "channel_of w =
     (if t_finalizing w then Cut (state_rank (x_state w))
      else Sending (state_rank (x_state w)) (e_plain w @ concat (map (tls_bytes (files w)) (x_backlog w))))"

lemma channel_moves: "ssl_moves w v \<Longrightarrow> channel_step (channel_of w) (channel_of v)"
  unfolding channel_of_def ssl_moves_def tls_out_def [symmetric] tls_pending_def [symmetric]
  by (auto simp: prefix_def intro: channel_step.intros)

text \<open>C35: a TLS session refines the channel: every step of a session, handlers, timers, reentrant
  calls and errors included, is one step of the channel. No plaintext is lost, duplicated or
  reordered while the connection lasts, the state machine never goes back, and a connection that
  was cut stays cut.\<close>

theorem tls_refines_channel:
  assumes "tls_started (tls_scripted d B) p waiter server engine w0"
    "tls_reachable (tls_scripted d B) w0 evs w" "tls_next (tls_scripted d B) ev w w'"
  shows "channel_step (channel_of w) (channel_of w')"
proof -
  have "tls_app (tls_scripted d B)" by (rule tls_app.intro) (rule tls_scripted_intact)
  from tls_next_event [OF this tls_session_inv [OF assms(1,2)] assms(3)]
  have "ssl_moves w w'" by (simp add: event_ok_def)
  then show ?thesis by (rule channel_moves)
qed

theorem tls_refines_channel_witness: "channel_step (channel_of demo_tls) (channel_of demo_tls_more)"
  by (rule tls_refines_channel [OF demo_tls_started [unfolded demo_tls_apps_def] tls_start
        demo_tls_next [unfolded demo_tls_apps_def]])

section \<open>Writing\<close>

text \<open>The bytes that a call asks to send.\<close>

fun call_bytes :: "call \<Rightarrow> bytes" where
  "call_bytes (CallWrite d) = buf_content d"
| "call_bytes (CallWritelines ds) = concat (map buf_content ds)"
| "call_bytes (CallWriteC bs) = bs"
| "call_bytes _ = []"

definition write_call :: "call \<Rightarrow> bool" where
  "write_call c = (case c of CallWrite _ \<Rightarrow> True | CallWritelines _ \<Rightarrow> True | CallWriteC _ \<Rightarrow> True | _ \<Rightarrow> False)"

context tls_app
begin

lemma validate_lines_wp:
  assumes "list_all byte_view ds" "(\<forall>d \<in> set ds. plain_buf d) \<Longrightarrow> Q () w"
  shows "wp (for_each ds (\<lambda>d. lift_exn (aiofn_validate_buffer d))) Q (\<lambda>_ _. True) w"
  using assms
proof (induction ds)
  case (Cons d ds)
  then show ?case
    using valid_plain [of d] by (auto simp: wps split: sum.splits)
qed (simp add: wps)

lemma write_call_wp:
  assumes w: "ssl_inv w" "\<not> ssl_is_closing w" and c: "write_call c" "byte_call c"
  shows "wp (tls_run_call apps c) (\<lambda>_ v. wrote (call_bytes c) w v) (\<lambda>_ _. True) w"
proof -
  have none: "wrote [] w w"
    using w by (intro grown_wrote grown_refl) (simp_all add: ssl_is_closing_def)
  consider (one) d where "c = CallWrite d" | (many) ds where "c = CallWritelines ds"
    | (raw) bs where "c = CallWriteC bs"
    using c(1) by (cases c) (auto simp: write_call_def)
  then show ?thesis
  proof cases
    case one
    have "wp (ssl_write_nocheck apps vt d) (\<lambda>_ v. wrote (buf_content d) w v) (\<lambda>_ _. True) w"
      if "plain_buf d" by (rule wp_weaken [OF write_exact [OF w that]]) simp_all
    with c(2) valid_plain [of d] show ?thesis
      by (auto simp: one tls_run_call_def Let_def transport_write_def check_thread_def byte_call_def wps
          split: sum.splits)
  next
    case many
    have "wp (ssl_writelines_nocheck apps vt ds) (\<lambda>_ v. wrote (concat (map buf_content ds)) w v)
        (\<lambda>_ _. True) w" if "\<forall>d \<in> set ds. plain_buf d"
      by (rule wp_weaken [OF writelines_exact [OF w that]]) simp_all
    with c(2) none show ?thesis
      by (auto simp: many tls_run_call_def Let_def transport_writelines_def check_thread_def byte_call_def
          wps intro: validate_lines_wp)
  next
    case raw
    show ?thesis
    proof (cases "bs = []")
      case True
      with none w show ?thesis
        by (simp add: raw tls_run_call_def Let_def ssl_write_c_def is_protocol_ready_def wps)
    next
      case False
      show ?thesis
        by (simp add: raw tls_run_call_def Let_def)
           (rule wp_weaken [OF write_c_exact [OF w False]], simp_all)
    qed
  qed
qed

end



section \<open>Termination\<close>





end
