(* ===== verification/Net.thy ===== *)
theory Net
  imports Complex_Main World
begin

text \<open>
  The world of the connection API (the api modules): coroutines that make sockets, call the
  event loop and the operating system, and construct transports. A coroutine is a program on
  \<open>networld\<close>; an \<open>await\<close> is the call that is awaited. What may fail is asked from the
  environment: \<open>n_fails w n c\<close> is the exception that the call \<open>c\<close> raises when it is the
  \<open>n\<close>-th one of the world, so one function covers every order of successes and failures. The
  call log \<open>n_calls\<close> is oldest first.

  A socket object is its index in \<open>n_socks\<close>, a transport its index in \<open>n_transports\<close>. The
  transports themselves are the subject of other theories; here one is the record of how it was
  constructed and whether it was closed. Debug-only logging is left out.
\<close>

section \<open>Values\<close>

datatype pyval = VNone | VStr string | VBytes bytes | VInt int | VOther

fun truthy :: "pyval \<Rightarrow> bool" where
  "truthy VNone = False"
| "truthy (VStr s) = (s \<noteq> [])"
| "truthy (VBytes bs) = (bs \<noteq> [])"
| "truthy (VInt n) = (n \<noteq> 0)"
| "truthy VOther = True"

text \<open>An address is a path or a tuple; \<open>ANone\<close> is the object \<open>None\<close>.\<close>

datatype netaddr = ANone | APath string | ATuple "pyval list"

record addrinfo =
  ai_family :: int
  ai_type :: int
  ai_proto :: int
  ai_canonname :: string
  ai_addr :: netaddr

definition AF_UNSPEC :: int where "AF_UNSPEC = 0"
definition AF_UNIX_NO :: int where "AF_UNIX_NO = 1"
definition AF_INET_NO :: int where "AF_INET_NO = 2"
definition AF_INET6_NO :: int where "AF_INET6_NO = 10"
definition SOCK_STREAM :: int where "SOCK_STREAM = 1"
definition SOCK_DGRAM :: int where "SOCK_DGRAM = 2"
definition IPPROTO_TCP :: int where "IPPROTO_TCP = 6"
definition IPPROTO_UDP :: int where "IPPROTO_UDP = 17"

lemmas socket_constants = AF_UNSPEC_def AF_UNIX_NO_def AF_INET_NO_def AF_INET6_NO_def
  SOCK_STREAM_def SOCK_DGRAM_def IPPROTO_TCP_def IPPROTO_UDP_def

definition EADDRINUSE :: int where "EADDRINUSE = 98"
definition EADDRNOTAVAIL :: int where "EADDRNOTAVAIL = 99"
definition ETIMEDOUT :: int where "ETIMEDOUT = 110"
definition ENOENT :: int where "ENOENT = 2"
definition ENO_NONE :: int where
  \<comment> \<open>an \<open>OSError\<close> made from a message only: its \<open>errno\<close> is \<open>None\<close>\<close>
  "ENO_NONE = 0"

record pysock =
  so_family :: int
  so_type :: int
  so_proto :: int
  so_blocking :: bool
  so_open :: bool
  so_ssl :: bool

datatype sockopt = SO_REUSEADDR | SO_REUSEPORT | SO_KEEPALIVE | SO_BROADCAST | IPV6_V6ONLY

datatype tkind =
    KSelectorSocket | KSslSocket | KSslTransport | KWrapped | KLoop | KDatagram | KReadPipe | KWritePipe

record query =
  q_host :: pyval
  q_port :: pyval
  q_family :: int
  q_type :: int
  q_proto :: int
  q_flags :: int

datatype netcall =
    NSocket int int int
  | NSetblocking nat bool
  | NSetsockopt nat sockopt
  | NBind nat netaddr
  | NListen nat int
  | NSockConnect nat netaddr
  | NSockClose nat
  | NAccept nat
  | NGetsockname nat
  | NGetaddrinfo query
  | NStat string
  | NRemove string
  | NSslContext
  | NOriginal string
  | NConstruct tkind nat
  | NAwaitWaiter nat
  | NTransportClose nat
  | NTransportAbort nat
  | NPauseReading nat
  | NSetProtocol nat
  | NCreateTask nat

section \<open>The world\<close>

text \<open>
  The four validated TLS settings and the other arguments of a TLS transport. A protocol is one
  of the application's, the protocol side of a TLS transport, or a wrapper of the
  application's. \<open>pt_sock\<close> is the socket or pipe that a transport owns, \<open>None\<close> for a transport
  on top of another one.
\<close>

record ssl_settings =
  set_handshake :: rat
  set_shutdown :: rat
  set_incoming :: int
  set_outgoing :: int

record tls_params =
  tls_settings :: ssl_settings
  tls_hostname :: pyval
  tls_server_side :: bool

datatype protocol_ref = PUser nat | PTls nat | PWrap nat

fun user_protocol :: "protocol_ref \<Rightarrow> nat" where
  "user_protocol (PUser p) = p"
| "user_protocol (PWrap p) = p"
| "user_protocol (PTls t) = t"

record ptransport =
  pt_kind :: tkind
  pt_sock :: "nat option"
  pt_protocol :: protocol_ref
  pt_tls :: "tls_params option"
  pt_server :: bool
  pt_closed :: bool

record networld =
  n_fails :: "nat \<Rightarrow> netcall \<Rightarrow> exn option"
  n_calls :: "netcall list"
  n_resolver :: "nat \<Rightarrow> query \<Rightarrow> exn + addrinfo list"
  n_pton :: "int \<Rightarrow> string \<Rightarrow> exn option"
  n_idna :: "bytes \<Rightarrow> exn + string"
  n_repr :: "netaddr \<Rightarrow> string"
  n_os_nt :: bool
  n_proactor :: bool
  n_has_ipv6 :: bool
  n_has_reuseport :: bool
  n_has_openssl :: bool
  n_socks :: "pysock list"
  n_transports :: "ptransport list"
  n_attempts :: "exn list list"

definition log_call :: "netcall \<Rightarrow> 'a networld_scheme \<Rightarrow> 'a networld_scheme" where
  "log_call c w = w\<lparr>n_calls := n_calls w @ [c]\<rparr>"

definition net_call :: "netcall \<Rightarrow> ('a networld_scheme, unit) prog" where
  "net_call c w =
     (case n_fails w (length (n_calls w)) c of
        None \<Rightarrow> (Inr (), log_call c w)
      | Some e \<Rightarrow> (Inl e, log_call c w))"

section \<open>Sockets\<close>

definition sock :: "'a networld_scheme \<Rightarrow> nat \<Rightarrow> pysock" where
  "sock w i = n_socks w ! i"

definition sock_update :: "nat \<Rightarrow> (pysock \<Rightarrow> pysock) \<Rightarrow> 'a networld_scheme \<Rightarrow> 'a networld_scheme" where
  "sock_update i f w = w\<lparr>n_socks := (n_socks w)[i := f (n_socks w ! i)]\<rparr>"

definition add_socket :: "pysock \<Rightarrow> ('a networld_scheme, nat) prog" where
  "add_socket s w = (Inr (length (n_socks w)), w\<lparr>n_socks := n_socks w @ [s]\<rparr>)"

text \<open>\<open>socket.socket(family, type, proto)\<close>\<close>

definition sock_new :: "int \<Rightarrow> int \<Rightarrow> int \<Rightarrow> ('a networld_scheme, nat) prog" where
  "sock_new family type proto =
     andthen (net_call (NSocket family type proto))
       (add_socket \<lparr>so_family = family, so_type = type, so_proto = proto, so_blocking = True,
                    so_open = True, so_ssl = False\<rparr>)"

definition sock_setblocking :: "nat \<Rightarrow> bool \<Rightarrow> ('a networld_scheme, unit) prog" where
  "sock_setblocking i b =
     andthen (net_call (NSetblocking i b)) (upd (sock_update i (so_blocking_update (\<lambda>_. b))))"

text \<open>The object counts as closed even when the system call reports an error.\<close>

definition sock_close :: "nat \<Rightarrow> ('a networld_scheme, unit) prog" where
  "sock_close i =
     andthen (upd (sock_update i (so_open_update (\<lambda>_. False)))) (net_call (NSockClose i))"

text \<open>Calls that only the operating system sees.\<close>

definition sock_bind :: "nat \<Rightarrow> netaddr \<Rightarrow> ('a networld_scheme, unit) prog" where
  "sock_bind i a = net_call (NBind i a)"

definition sock_setsockopt :: "nat \<Rightarrow> sockopt \<Rightarrow> ('a networld_scheme, unit) prog" where
  "sock_setsockopt i opt = net_call (NSetsockopt i opt)"

definition sock_listen :: "nat \<Rightarrow> int \<Rightarrow> ('a networld_scheme, unit) prog" where
  "sock_listen i backlog = net_call (NListen i backlog)"

definition loop_sock_connect :: "nat \<Rightarrow> netaddr \<Rightarrow> ('a networld_scheme, unit) prog" where
  "loop_sock_connect i a = net_call (NSockConnect i a)"

definition loop_getaddrinfo :: "query \<Rightarrow> ('a networld_scheme, addrinfo list) prog" where
  "loop_getaddrinfo q =
     andthen (net_call (NGetaddrinfo q))
       (bnd (gets (\<lambda>w. n_resolver w (length (n_calls w)) q)) lift_result)"

definition add_transport :: "ptransport \<Rightarrow> ('a networld_scheme, nat) prog" where
  "add_transport t w = (Inr (length (n_transports w)), w\<lparr>n_transports := n_transports w @ [t]\<rparr>)"

text \<open>A constructor may raise; an object it makes is a new transport.\<close>

definition construct :: "ptransport \<Rightarrow> ('a networld_scheme, nat) prog" where
  "construct t =
     andthen (net_call (NConstruct (pt_kind t) (case pt_sock t of None \<Rightarrow> 0 | Some i \<Rightarrow> i)))
       (add_transport t)"

definition plain_transport :: "tkind \<Rightarrow> nat option \<Rightarrow> protocol_ref \<Rightarrow> bool \<Rightarrow> ptransport" where
  "plain_transport kind s p server =
     \<lparr>pt_kind = kind, pt_sock = s, pt_protocol = p, pt_tls = None, pt_server = server,
      pt_closed = False\<rparr>"

definition tls_transport ::
  "tkind \<Rightarrow> nat option \<Rightarrow> protocol_ref \<Rightarrow> tls_params \<Rightarrow> bool \<Rightarrow> ptransport" where
  "tls_transport kind s p tls server = (plain_transport kind s p server)\<lparr>pt_tls := Some tls\<rparr>"

definition mark_closed :: "nat \<Rightarrow> 'a networld_scheme \<Rightarrow> 'a networld_scheme" where
  "mark_closed t w =
     w\<lparr>n_transports := (n_transports w)[t := (n_transports w ! t)\<lparr>pt_closed := True\<rparr>]\<rparr>"

definition close_transport :: "nat \<Rightarrow> ('a networld_scheme, unit) prog" where
  "close_transport t = andthen (net_call (NTransportClose t)) (upd (mark_closed t))"

definition abort_transport :: "nat \<Rightarrow> ('a networld_scheme, unit) prog" where
  "abort_transport t = andthen (net_call (NTransportAbort t)) (upd (mark_closed t))"

definition set_server :: "nat \<Rightarrow> 'a networld_scheme \<Rightarrow> 'a networld_scheme" where
  "set_server t w =
     w\<lparr>n_transports := (n_transports w)[t := (n_transports w ! t)\<lparr>pt_server := True\<rparr>]\<rparr>"

section \<open>Weakest preconditions\<close>

text \<open>
  The rules of the operations, so that a coroutine is executed symbolically like the handlers
  of the transports.
\<close>

lemma wp_net_call [wps]:
  "wp (net_call c) Q E w =
     (case n_fails w (length (n_calls w)) c of
        None \<Rightarrow> Q () (log_call c w) | Some e \<Rightarrow> E e (log_call c w))"
  by (simp add: wp_def net_call_def split: option.splits)

lemma wp_add_socket [wps]:
  "wp (add_socket s) Q E w = Q (length (n_socks w)) (w\<lparr>n_socks := n_socks w @ [s]\<rparr>)"
  by (simp add: wp_def add_socket_def)

lemma wp_add_transport [wps]:
  "wp (add_transport t) Q E w =
     Q (length (n_transports w)) (w\<lparr>n_transports := n_transports w @ [t]\<rparr>)"
  by (simp add: wp_def add_transport_def)

lemma wp_lift_result [wps]:
  "wp (lift_result r) Q E w = (case r of Inl e \<Rightarrow> E e w | Inr a \<Rightarrow> Q a w)"
  by (simp add: wp_def split: sum.splits)

lemma log_call_simps [simp]:
  "n_fails (log_call c w) = n_fails w"
  "n_calls (log_call c w) = n_calls w @ [c]"
  "n_socks (log_call c w) = n_socks w"
  "n_transports (log_call c w) = n_transports w"
  "n_attempts (log_call c w) = n_attempts w"
  "n_proactor (log_call c w) = n_proactor w"
  "n_has_openssl (log_call c w) = n_has_openssl w"
  by (simp_all add: log_call_def)

lemma sock_update_simps [simp]:
  "n_fails (sock_update i f w) = n_fails w"
  "n_calls (sock_update i f w) = n_calls w"
  "n_transports (sock_update i f w) = n_transports w"
  "n_attempts (sock_update i f w) = n_attempts w"
  "n_proactor (sock_update i f w) = n_proactor w"
  "length (n_socks (sock_update i f w)) = length (n_socks w)"
  by (simp_all add: sock_update_def)

lemma mark_closed_simps [simp]:
  "n_socks (mark_closed t w) = n_socks w"
  "length (n_transports (mark_closed t w)) = length (n_transports w)"
  "pt_sock (n_transports (mark_closed t w) ! i) = pt_sock (n_transports w ! i)"
  by (auto simp: mark_closed_def nth_list_update intro: arg_cong)
    (cases "i = t"; cases "t < length (n_transports w)"; simp add: nth_list_update list_update_beyond)

section \<open>Open sockets\<close>

definition open_socks :: "'a networld_scheme \<Rightarrow> nat set" where
  "open_socks w = {i. i < length (n_socks w) \<and> so_open (n_socks w ! i)}"

lemma open_socks_log [simp]: "open_socks (log_call c w) = open_socks w"
  by (simp add: open_socks_def)

lemma open_socks_add [simp]:
  "open_socks (w\<lparr>n_socks := n_socks w @ [s]\<rparr>) =
     (if so_open s then insert (length (n_socks w)) (open_socks w) else open_socks w)"
  by (auto simp: open_socks_def nth_append less_Suc_eq)

lemma new_sock_not_open [simp]: "length (n_socks w) \<notin> open_socks w"
  by (simp add: open_socks_def)

lemma open_socks_blocking [simp]:
  "open_socks (sock_update i (so_blocking_update f) w) = open_socks w"
  by (cases "i < length (n_socks w)")
    (auto simp: open_socks_def sock_update_def nth_list_update list_update_beyond split: if_splits)

lemma open_socks_closed [simp]:
  "open_socks (sock_update i (so_open_update (\<lambda>_. False)) w) = open_socks w - {i}"
  by (cases "i < length (n_socks w)")
    (auto simp: open_socks_def sock_update_def nth_list_update list_update_beyond split: if_splits)

lemma open_socks_other [simp]:
  "open_socks (w\<lparr>n_transports := ts\<rparr>) = open_socks w"
  "open_socks (w\<lparr>n_attempts := xs\<rparr>) = open_socks w"
  "open_socks (mark_closed t w) = open_socks w"
  "open_socks (set_server t w) = open_socks w"
  by (simp_all add: open_socks_def mark_closed_def set_server_def)

end
