(* ===== verification/Resolve.thy ===== *)
theory Resolve
  imports Net "HOL-Library.Multiset"
begin

text \<open>
  The argument checks and the address resolution of the connection API (api_utils.py,
  constants.py) and the interleaving of addresses (api_create_connection.py). A timeout is a
  rational number of seconds.
\<close>

section \<open>Arguments\<close>

datatype ssl_arg = SslNone | SslBool bool | SslContext bool

text \<open>
  \<open>SslContext force\<close> is an \<open>SSLContext\<close> object; \<open>force\<close> is its attribute
  \<open>_aiofastnet_force_fallback_ssl\<close>.
\<close>

fun ssl_on :: "ssl_arg \<Rightarrow> bool" where
  "ssl_on SslNone = False"
| "ssl_on (SslBool b) = b"
| "ssl_on (SslContext _) = True"

datatype timeout_name = SslHandshakeTimeout | SslShutdownTimeout

fun SSL_TIMEOUT_DEFAULTS :: "timeout_name \<Rightarrow> rat" where
  "SSL_TIMEOUT_DEFAULTS SslHandshakeTimeout = 60"
| "SSL_TIMEOUT_DEFAULTS SslShutdownTimeout = 30"

definition SSL_BIO_SIZE_DEFAULT :: int where "SSL_BIO_SIZE_DEFAULT = 16 * (16 * 1024 + 64)"

definition validate_ssl_timeout ::
  "timeout_name \<Rightarrow> rat option \<Rightarrow> ssl_arg \<Rightarrow> exn_class + rat" where
  "validate_ssl_timeout name value ssl =
     (if value \<noteq> None \<and> \<not> ssl_on ssl then Inl ValueErr
      else case value of
        None \<Rightarrow> Inr (SSL_TIMEOUT_DEFAULTS name)
      | Some v \<Rightarrow> if v \<le> 0 then Inl ValueErr else Inr v)"

definition validate_bio_size :: "int option \<Rightarrow> ssl_arg \<Rightarrow> exn_class + int" where
  "validate_bio_size value ssl =
     (if value \<noteq> None \<and> \<not> ssl_on ssl then Inl ValueErr
      else case value of
        None \<Rightarrow> Inr SSL_BIO_SIZE_DEFAULT
      | Some v \<Rightarrow> if v < 16384 then Inl ValueErr else Inr v)"

text \<open>The four optional settings; every entry point checks them in this order.\<close>

record ssl_options =
  o_handshake :: "rat option"
  o_shutdown :: "rat option"
  o_incoming :: "int option"
  o_outgoing :: "int option"

definition validate_ssl_options :: "ssl_options \<Rightarrow> ssl_arg \<Rightarrow> ('w, ssl_settings) prog" where
  "validate_ssl_options os ssl =
     bnd (lift_exn (validate_ssl_timeout SslHandshakeTimeout (o_handshake os) ssl)) (\<lambda>h.
     bnd (lift_exn (validate_ssl_timeout SslShutdownTimeout (o_shutdown os) ssl)) (\<lambda>s.
     bnd (lift_exn (validate_bio_size (o_incoming os) ssl)) (\<lambda>i.
     bnd (lift_exn (validate_bio_size (o_outgoing os) ssl)) (\<lambda>out.
       ret \<lparr>set_handshake = h, set_shutdown = s, set_incoming = i, set_outgoing = out\<rparr>))))"

definition check_non_ssl_socket :: "nat \<Rightarrow> ('a networld_scheme, unit) prog" where
  "check_non_ssl_socket i = only_if (\<lambda>w. so_ssl (sock w i)) (raise TypeErr)"

definition check_nonblocking_socket :: "nat \<Rightarrow> ('a networld_scheme, unit) prog" where
  "check_nonblocking_socket i = only_if (\<lambda>w. so_blocking (sock w i)) (raise ValueErr)"

definition set_reuseport :: "nat \<Rightarrow> ('a networld_scheme, unit) prog" where
  "set_reuseport i =
     cond (\<lambda>w. \<not> n_has_reuseport w) (raise ValueErr)
       (try_except (sock_setsockopt i SO_REUSEPORT)
         (\<lambda>e. if is_oserror e then raise ValueErr else reraise e))"

section \<open>Addresses that need no lookup\<close>

text \<open>\<open>int(port)\<close>: white space around, a sign, and digits with single underscores between.\<close>

definition char_code :: "char \<Rightarrow> nat" where "char_code c = of_char c"

definition is_digit :: "char \<Rightarrow> bool" where
  "is_digit c = (48 \<le> char_code c \<and> char_code c \<le> 57)"

definition is_space :: "char \<Rightarrow> bool" where
  "is_space c = (char_code c = 32 \<or> (9 \<le> char_code c \<and> char_code c \<le> 13))"

fun int_digits :: "string \<Rightarrow> int \<Rightarrow> int option" where
  "int_digits [] acc = Some acc"
| "int_digits (c # cs) acc =
     (if is_digit c then int_digits cs (10 * acc + (int (char_code c) - 48))
      else if c = CHR ''_'' then
        (case cs of d # _ \<Rightarrow> if is_digit d then int_digits cs acc else None | [] \<Rightarrow> None)
      else None)"

definition int_unsigned :: "string \<Rightarrow> int option" where
  "int_unsigned s =
     (case s of c # _ \<Rightarrow> if is_digit c then int_digits s 0 else None | [] \<Rightarrow> None)"

definition strip_space :: "string \<Rightarrow> string" where
  "strip_space s = rev (dropWhile is_space (rev (dropWhile is_space s)))"

definition int_of_string :: "string \<Rightarrow> int option" where
  "int_of_string s =
     (case strip_space s of
        CHR ''-'' # cs \<Rightarrow> map_option uminus (int_unsigned cs)
      | CHR ''+'' # cs \<Rightarrow> int_unsigned cs
      | cs \<Rightarrow> int_unsigned cs)"

fun parse_port :: "pyval \<Rightarrow> int option" where
  "parse_port VNone = Some 0"
| "parse_port (VBytes bs) = (if bs = [] then Some 0 else int_of_string (os_fsdecode bs))"
| "parse_port (VStr s) = (if s = [] then Some 0 else int_of_string s)"
| "parse_port (VInt n) = Some n"
| "parse_port VOther = None"

fun host_text :: "(bytes \<Rightarrow> exn + string) \<Rightarrow> pyval \<Rightarrow> exn + string" where
  "host_text idna (VStr s) = Inr s"
| "host_text idna (VBytes bs) = idna bs"
| "host_text idna _ = Inl (exn_of TypeErr)"

fun try_families ::
  "(int \<Rightarrow> string \<Rightarrow> exn option) \<Rightarrow> bool \<Rightarrow> int \<Rightarrow> int \<Rightarrow> string \<Rightarrow> int \<Rightarrow> pyval \<Rightarrow> pyval \<Rightarrow> int list \<Rightarrow>
     exn + addrinfo option" where
  "try_families pton has6 type proto host port flow scope [] = Inr None"
| "try_families pton has6 type proto host port flow scope (af # afs) =
     (case pton af host of
        None \<Rightarrow>
          Inr (Some \<lparr>ai_family = af, ai_type = type, ai_proto = proto, ai_canonname = [],
                     ai_addr = ATuple (if has6 \<and> af = AF_INET6_NO
                                       then [VStr host, VInt port, flow, scope]
                                       else [VStr host, VInt port])\<rparr>)
      | Some e \<Rightarrow>
          if is_oserror e then try_families pton has6 type proto host port flow scope afs
          else Inl e)"

definition ipaddr_info ::
  "(int \<Rightarrow> string \<Rightarrow> exn option) \<Rightarrow> (bytes \<Rightarrow> exn + string) \<Rightarrow> bool \<Rightarrow>
     pyval \<Rightarrow> pyval \<Rightarrow> int \<Rightarrow> int \<Rightarrow> int \<Rightarrow> pyval \<Rightarrow> pyval \<Rightarrow> exn + addrinfo option" where
  "ipaddr_info pton idna has6 host port family type proto flow scope =
     (if proto \<notin> {0, IPPROTO_TCP, IPPROTO_UDP} \<or> host = VNone then Inr None
      else if type \<noteq> SOCK_STREAM \<and> type \<noteq> SOCK_DGRAM then Inr None
      else
        (let proto' = (if type = SOCK_STREAM then IPPROTO_TCP else IPPROTO_UDP) in
         case parse_port port of
           None \<Rightarrow> Inr None
         | Some p \<Rightarrow>
             (let afs = (if family = AF_UNSPEC
                         then AF_INET_NO # (if has6 then [AF_INET6_NO] else [])
                         else [family]) in
              case host_text idna host of
                Inl e \<Rightarrow> Inl e
              | Inr h \<Rightarrow>
                  if CHR ''%'' \<in> set h then Inr None
                  else try_families pton has6 type proto' h p flow scope afs)))"

text \<open>
  The address is a tuple; flow information and scope are its optional third and fourth
  elements.
\<close>

definition ensure_resolved ::
  "pyval list \<Rightarrow> int \<Rightarrow> int \<Rightarrow> int \<Rightarrow> int \<Rightarrow> ('a networld_scheme, addrinfo list) prog" where
  "ensure_resolved address family type proto flags =
     (case address of
        host # port # rest \<Rightarrow>
          if length rest > 2 then raise TypeErr
          else
            bnd (gets (\<lambda>w. ipaddr_info (n_pton w) (n_idna w) (n_has_ipv6 w) host port family type proto
                             (case rest of f # _ \<Rightarrow> f | [] \<Rightarrow> VInt 0)
                             (case rest of _ # s # _ \<Rightarrow> s | _ \<Rightarrow> VInt 0)))
              (\<lambda>r. bnd (lift_result r) (\<lambda>info.
                 case info of
                   Some i \<Rightarrow> ret [i]
                 | None \<Rightarrow>
                     loop_getaddrinfo \<lparr>q_host = host, q_port = port, q_family = family,
                                       q_type = type, q_proto = proto, q_flags = flags\<rparr>))
      | _ \<Rightarrow> raise ValueErr)"

section \<open>Interleaving addresses by family\<close>

text \<open>
  The groups are kept in the order of the first address of each family, as in an
  \<open>OrderedDict\<close>. \<open>transpose\<close> is \<open>zip_longest\<close> without the fill values.
\<close>

fun insert_family :: "addrinfo \<Rightarrow> (int \<times> addrinfo list) list \<Rightarrow> (int \<times> addrinfo list) list" where
  "insert_family a [] = [(ai_family a, [a])]"
| "insert_family a ((f, l) # gs) =
     (if ai_family a = f then (f, l @ [a]) # gs else (f, l) # insert_family a gs)"

definition group_families :: "addrinfo list \<Rightarrow> (int \<times> addrinfo list) list" where
  "group_families infos = fold insert_family infos []"

definition interleave_addrinfos :: "addrinfo list \<Rightarrow> int \<Rightarrow> addrinfo list" where
  "interleave_addrinfos infos first =
     (let lists = map snd (group_families infos) in
      if first > 1 then
        (let k = nat (first - 1) in
         take k (hd lists) @ concat (transpose (drop k (hd lists) # tl lists)))
      else concat (transpose lists))"

subsection \<open>Groups\<close>

definition well_grouped :: "(int \<times> addrinfo list) list \<Rightarrow> bool" where
  "well_grouped gs =
     (distinct (map fst gs) \<and> (\<forall>g \<in> set gs. snd g \<noteq> [] \<and> (\<forall>a \<in> set (snd g). ai_family a = fst g)))"

lemma insert_family_keys:
  "set (map fst (insert_family a gs)) = insert (ai_family a) (set (map fst gs))"
  by (induction a gs rule: insert_family.induct) auto

lemma insert_family_grouped: "well_grouped gs \<Longrightarrow> well_grouped (insert_family a gs)"
proof (induction a gs rule: insert_family.induct)
  case (2 a f l gs)
  then show ?case
    using insert_family_keys [of a gs] by (auto simp: well_grouped_def)
qed (simp add: well_grouped_def)

lemma fold_grouped: "well_grouped gs \<Longrightarrow> well_grouped (fold insert_family infos gs)"
  by (induction infos arbitrary: gs) (auto intro: insert_family_grouped)

lemma group_families_grouped: "well_grouped (group_families infos)"
  unfolding group_families_def by (rule fold_grouped) (simp add: well_grouped_def)

lemma insert_family_members:
  assumes "well_grouped gs"
  shows "filter (\<lambda>b. ai_family b = f) (concat (map snd (insert_family a gs))) =
         filter (\<lambda>b. ai_family b = f) (concat (map snd gs)) @ (if ai_family a = f then [a] else [])"
  using assms
proof (induction a gs rule: insert_family.induct)
  case (2 a g l gs)
  show ?case
  proof (cases "ai_family a = g")
    case True
    have "filter (\<lambda>b. ai_family b = g) (concat (map snd gs)) = []"
      using 2(2) by (auto simp: well_grouped_def filter_empty_conv)
    with True show ?thesis by auto
  next
    case False
    with 2 show ?thesis by (simp add: well_grouped_def)
  qed
qed simp

lemma fold_members:
  "well_grouped gs \<Longrightarrow>
   filter (\<lambda>b. ai_family b = f) (concat (map snd (fold insert_family infos gs))) =
   filter (\<lambda>b. ai_family b = f) (concat (map snd gs)) @ filter (\<lambda>b. ai_family b = f) infos"
  by (induction infos arbitrary: gs) (auto simp: insert_family_members insert_family_grouped)

lemma group_families_members:
  "filter (\<lambda>b. ai_family b = f) (concat (map snd (group_families infos))) =
   filter (\<lambda>b. ai_family b = f) infos"
  by (simp add: group_families_def fold_members well_grouped_def)

lemma fold_insert_head:
  "\<exists>l' gs'. fold insert_family infos ((f, x # l) # gs) = (f, x # l') # gs'"
proof (induction infos arbitrary: l gs)
  case (Cons a infos)
  then show ?case by (cases "ai_family a = f") auto
qed auto

lemma group_families_head:
  "\<exists>l gs. group_families (a # infos) = (ai_family a, a # l) # gs"
  using fold_insert_head [of infos "ai_family a" a "[]" "[]"] by (simp add: group_families_def)

subsection \<open>Interleaving keeps the order inside each family\<close>

text \<open>At most one of the lists has elements that satisfy \<open>P\<close>.\<close>

definition in_one :: "('x \<Rightarrow> bool) \<Rightarrow> 'x list list \<Rightarrow> bool" where
  "in_one P xss = (length (filter (\<lambda>xs. \<exists>x \<in> set xs. P x) xss) \<le> 1)"

lemma nowhere_heads:
  assumes "filter (\<lambda>xs. \<exists>x \<in> set xs. P x) xss = []"
  shows "filter P (concat (map (case_list [] (\<lambda>h t. [h])) xss)) = []"
    "concat (map (filter P) (concat (map (case_list [] (\<lambda>h t. [t])) xss))) = []"
    "concat (map (filter P) xss) = []"
    "filter (\<lambda>xs. \<exists>x \<in> set xs. P x) (concat (map (case_list [] (\<lambda>h t. [t])) xss)) = []"
  using assms by (auto simp: filter_empty_conv split: list.splits)

lemma in_one_heads:
  assumes "in_one P xss"
  shows "filter P (concat (map (case_list [] (\<lambda>h t. [h])) xss)) @
           concat (map (filter P) (concat (map (case_list [] (\<lambda>h t. [t])) xss))) =
         concat (map (filter P) xss)"
  using assms
proof (induction xss)
  case (Cons xs xss)
  show ?case
  proof (cases "\<exists>x \<in> set xs. P x")
    case True
    with Cons.prems have "filter (\<lambda>xs. \<exists>x \<in> set xs. P x) xss = []"
      by (simp add: in_one_def)
    then show ?thesis by (cases xs) (simp_all add: nowhere_heads)
  next
    case False
    with Cons show ?thesis by (cases xs) (auto simp: in_one_def)
  qed
qed simp

lemma in_one_tails: "in_one P xss \<Longrightarrow> in_one P (concat (map (case_list [] (\<lambda>h t. [t])) xss))"
proof (induction xss)
  case (Cons xs xss)
  show ?case
  proof (cases "\<exists>x \<in> set xs. P x")
    case True
    with Cons.prems have "filter (\<lambda>xs. \<exists>x \<in> set xs. P x) xss = []"
      by (simp add: in_one_def)
    from nowhere_heads(4) [OF this] show ?thesis by (cases xs) (auto simp: in_one_def)
  next
    case False
    with Cons show ?thesis by (cases xs) (auto simp: in_one_def)
  qed
qed simp

lemma filter_concat_transpose:
  "in_one P xss \<Longrightarrow> filter P (concat (transpose xss)) = concat (map (filter P) xss)"
proof (induction xss rule: transpose.induct)
  case 1
  then show ?case by simp
next
  case (2 xss)
  then show ?case by (simp add: in_one_def)
next
  case (3 x xs xss)
  let ?heads = "concat (map (case_list [] (\<lambda>h t. [h])) xss)"
  let ?tails = "concat (map (case_list [] (\<lambda>h t. [t])) xss)"
  show ?case
  proof (cases "P x \<or> (\<exists>y \<in> set xs. P y)")
    case True
    with 3(2) have no: "filter (\<lambda>xs. \<exists>x \<in> set xs. P x) xss = []"
      by (simp add: in_one_def split: if_splits)
    have "in_one P (xs # ?tails)"
      using nowhere_heads(4) [OF no] by (simp add: in_one_def)
    from 3(1) [OF this] nowhere_heads(1-3) [OF no] show ?thesis by simp
  next
    case False
    with 3(2) have one: "in_one P xss" by (simp add: in_one_def)
    have "in_one P (xs # ?tails)"
      using in_one_tails [OF one] False by (simp add: in_one_def)
    from 3(1) [OF this] in_one_heads [OF one] False show ?thesis by (simp add: filter_False)
  qed
qed

lemma groups_in_one:
  assumes "well_grouped gs"
  shows "in_one (\<lambda>a. ai_family a = f) (map snd gs)"
  using assms
proof (induction gs)
  case (Cons g gs)
  have ih: "in_one (\<lambda>a. ai_family a = f) (map snd gs)"
    using Cons by (simp add: well_grouped_def)
  show ?case
  proof (cases "fst g = f")
    case True
    have "\<forall>g' \<in> set gs. \<forall>x \<in> set (snd g'). ai_family x \<noteq> f"
      using Cons.prems True by (auto simp: well_grouped_def image_iff)
    then have "filter (\<lambda>xs. \<exists>x \<in> set xs. ai_family x = f) (map snd gs) = []"
      by (auto simp: filter_empty_conv)
    then show ?thesis by (simp add: in_one_def)
  next
    case False
    then have "\<not> (\<exists>x \<in> set (snd g). ai_family x = f)"
      using Cons.prems by (simp add: well_grouped_def)
    then show ?thesis using ih by (simp add: in_one_def)
  qed
qed (simp add: in_one_def)

lemma in_one_drop_first: "in_one P (xs # xss) \<Longrightarrow> in_one P (drop k xs # xss)"
  by (auto simp: in_one_def dest: in_set_dropD split: if_splits)

lemma interleave_filter:
  assumes "infos \<noteq> []"
  shows "filter (\<lambda>a. ai_family a = f) (interleave_addrinfos infos first) =
         filter (\<lambda>a. ai_family a = f) infos"
proof -
  let ?P = "\<lambda>a. ai_family a = f"
  let ?lists = "map snd (group_families infos)"
  have one: "in_one ?P ?lists" by (rule groups_in_one [OF group_families_grouped])
  have all: "concat (map (filter ?P) ?lists) = filter ?P infos"
    using group_families_members [of f infos] by (simp only: filter_concat)
  obtain a as where "infos = a # as" using assms by (cases infos) auto
  then obtain l ls where l: "?lists = l # ls"
    using group_families_head [of a as] by auto
  have "filter ?P (take k l) @ concat (map (filter ?P) (drop k l # ls)) = filter ?P infos" for k
    using all l by (simp flip: append_assoc filter_append)
  moreover have "in_one ?P (drop k l # ls)" for k
    using one l by (simp add: in_one_drop_first)
  ultimately show ?thesis
    using one all l by (simp add: interleave_addrinfos_def Let_def filter_concat_transpose)
qed

lemma interleave_head:
  assumes "infos \<noteq> []"
  shows "hd (interleave_addrinfos infos first) = hd infos"
proof -
  obtain a as where a: "infos = a # as" using assms by (cases infos) auto
  obtain l gs where "group_families infos = (ai_family a, a # l) # gs"
    using group_families_head a by blast
  with a show ?thesis
    by (cases "nat (first - 1)") (auto simp: interleave_addrinfos_def Let_def)
qed

lemma mset_by_key:
  assumes "\<And>f. filter (\<lambda>a. key a = f) xs = filter (\<lambda>a. key a = f) ys"
  shows "mset xs = mset ys"
proof (rule multiset_eqI)
  fix a
  have "count (mset zs) a = count (mset (filter (\<lambda>b. key b = key a) zs)) a" for zs
    by (induction zs) auto
  with assms show "count (mset xs) a = count (mset ys) a" by metis
qed

text \<open>C20: interleaving the resolved addresses by family, for every requested count of the first
  family, keeps all of them, keeps the order of the addresses of one family and still tries
  the resolver's first choice first.
\<close>

theorem interleave_keeps_preferences:
  assumes "infos \<noteq> []"
  shows "mset (interleave_addrinfos infos first) = mset infos \<and>
    (\<forall>f. filter (\<lambda>a. ai_family a = f) (interleave_addrinfos infos first) =
          filter (\<lambda>a. ai_family a = f) infos) \<and>
    hd (interleave_addrinfos infos first) = hd infos"
  using assms
  by (simp add: interleave_filter interleave_head
      mset_by_key [of ai_family "interleave_addrinfos infos first" infos])

definition demo_info :: "int \<Rightarrow> string \<Rightarrow> addrinfo" where
  "demo_info family host =
     \<lparr>ai_family = family, ai_type = SOCK_STREAM, ai_proto = IPPROTO_TCP, ai_canonname = [],
      ai_addr = ATuple [VStr host, VInt 80]\<rparr>"

definition demo_infos :: "addrinfo list" where
  "demo_infos = [demo_info 10 ''a'', demo_info 10 ''b'', demo_info 2 ''c'', demo_info 10 ''d'',
                 demo_info 2 ''e'']"

lemma interleave_keeps_preferences_witness:
  "interleave_addrinfos demo_infos 1 =
     [demo_info 10 ''a'', demo_info 2 ''c'', demo_info 10 ''b'', demo_info 2 ''e'',
      demo_info 10 ''d''] \<and>
   mset (interleave_addrinfos demo_infos 2) = mset demo_infos \<and>
   hd (interleave_addrinfos demo_infos 2) = demo_info 10 ''a''"
proof -
  have "demo_infos \<noteq> []" by (simp add: demo_infos_def)
  from interleave_keeps_preferences [OF this, of 2] show ?thesis
    by (simp add: demo_infos_def demo_info_def interleave_addrinfos_def group_families_def Let_def)
qed

end
