(* ===== verification/Connect.thy ===== *)
theory Connect
  imports Resolve
begin

text \<open>
  Making a connection: the transport on a connected socket (api_utils.py,
  \<open>_create_connection_transport\<close>), TCP and UNIX clients (api_create_connection.py,
  api_create_unix_connection.py) and accepted sockets (api_connect_accepted_socket.py).

  The application's \<open>protocol_factory\<close> is a program and may do anything to the world. In the
  race of happy eyeballs the attempts run concurrently; each has one \<open>await\<close>, so an attempt is
  the part before it and the part after it, and the event loop's timing is a schedule.
\<close>

section \<open>The transport of a connected socket\<close>

definition ssl_needs_fallback_engine :: "ssl_arg \<Rightarrow> 'a networld_scheme \<Rightarrow> bool" where
  "ssl_needs_fallback_engine ssl w = (\<not> n_has_openssl w \<or> ssl = SslContext True)"

definition wait_and_close_transport_on_exc :: "nat \<Rightarrow> ('a networld_scheme, unit) prog" where
  "wait_and_close_transport_on_exc t =
     try_except (net_call (NAwaitWaiter t)) (\<lambda>e. andthen (close_transport t) (reraise e))"

text \<open>
  The event loop's own \<open>create_connection\<close> on a connected socket: it calls the factory,
  constructs its transport and waits for it.
\<close>

definition original_create_connection ::
  "('a networld_scheme, protocol_ref) prog \<Rightarrow> nat \<Rightarrow> ('a networld_scheme, nat \<times> protocol_ref) prog" where
  "original_create_connection factory s =
     andthen (net_call (NOriginal ''create_connection''))
       (bnd factory (\<lambda>p.
         bnd (construct (plain_transport KLoop (Some s) p False)) (\<lambda>t.
           andthen (wait_and_close_transport_on_exc t) (ret (t, p)))))"

definition fallback_connection_transport ::
  "('a networld_scheme, nat) prog \<Rightarrow> nat \<Rightarrow> ssl_arg \<Rightarrow> tls_params \<Rightarrow> bool \<Rightarrow>
     ('a networld_scheme, nat \<times> nat) prog" where
  "fallback_connection_transport protocol_factory s ssl tls server =
     (if ssl_on ssl then
        bnd protocol_factory (\<lambda>p.
          bnd (construct (tls_transport KSslTransport None (PUser p) tls False)) (\<lambda>t.
            bnd (original_create_connection (ret (PTls t)) s) (\<lambda>_.
              if server then ret (t, p)
              else andthen (wait_and_close_transport_on_exc t) (ret (t, p)))))
      else
        bnd (original_create_connection (bnd protocol_factory (\<lambda>p. ret (PWrap p))) s)
          (\<lambda>(loop_transport, p).
            if server then
              andthen (upd (set_server loop_transport)) (ret (loop_transport, user_protocol p))
            else
              bnd (add_transport (plain_transport KWrapped None (PUser (user_protocol p)) False))
                (\<lambda>t. ret (t, user_protocol p))))"

definition native_transport ::
  "nat \<Rightarrow> ssl_arg \<Rightarrow> tls_params \<Rightarrow> bool \<Rightarrow> nat \<Rightarrow> ('a networld_scheme, nat) prog" where
  "native_transport s ssl tls server p =
     (if ssl_on ssl then
        andthen (case ssl of SslBool _ \<Rightarrow> net_call NSslContext | _ \<Rightarrow> ret ())
          (cond (ssl_needs_fallback_engine ssl)
            (bnd (construct (tls_transport KSslTransport None (PUser p) tls server)) (\<lambda>t.
              bnd (construct (plain_transport KSelectorSocket (Some s) (PTls t) False))
                (\<lambda>_. ret t)))
            (construct (tls_transport KSslSocket (Some s) (PUser p) tls server)))
      else construct (plain_transport KSelectorSocket (Some s) (PUser p) server))"

definition create_connection_transport ::
  "('a networld_scheme, nat) prog \<Rightarrow> nat \<Rightarrow> ssl_arg \<Rightarrow> tls_params \<Rightarrow> bool \<Rightarrow>
     ('a networld_scheme, nat \<times> nat) prog" where
  "create_connection_transport protocol_factory s ssl tls server =
     andthen (sock_setblocking s False)
       (cond n_proactor
         (fallback_connection_transport protocol_factory s ssl tls server)
         (bnd protocol_factory (\<lambda>p.
           bnd (native_transport s ssl tls server p) (\<lambda>t.
             if server then ret (t, p)
             else andthen (wait_and_close_transport_on_exc t) (ret (t, p))))))"

section \<open>One attempt to connect\<close>

text \<open>
  The lists of exceptions: one per attempt, in the order of the attempts. \<open>os_error\<close> is
  \<open>OSError(errno, message)\<close> with the text of its \<open>str()\<close>.
\<close>

fun digits_of :: "nat \<Rightarrow> string" where
  "digits_of n = (if n < 10 then [char_of (48 + n)] else digits_of (n div 10) @ [char_of (48 + n mod 10)])"

declare digits_of.simps [simp del]

definition str_of_int :: "int \<Rightarrow> string" where
  "str_of_int n = (if n < 0 then ''-'' @ digits_of (nat (- n)) else digits_of (nat n))"

definition os_error :: "int \<Rightarrow> string \<Rightarrow> exn" where
  "os_error errno msg = exn_msg (OSErr errno) (''[Errno '' @ str_of_int errno @ ''] '' @ msg)"

definition lower_char :: "char \<Rightarrow> char" where
  "lower_char c = (if 65 \<le> char_code c \<and> char_code c \<le> 90 then char_of (char_code c + 32) else c)"

definition lower :: "string \<Rightarrow> string" where
  "lower s = map lower_char s"

fun errno_of_class :: "exn_class \<Rightarrow> int" where
  "errno_of_class (OSErr n) = n"
| "errno_of_class _ = ENO_NONE"

definition bind_error :: "'a networld_scheme \<Rightarrow> netaddr \<Rightarrow> exn \<Rightarrow> exn" where
  "bind_error w laddr e =
     os_error (errno_of_class (exn_cls e))
       (''error while attempting to bind on address '' @ n_repr w laddr @ '': '' @ lower (exn_str e))"

definition new_attempt :: "('a networld_scheme, nat) prog" where
  "new_attempt w = (Inr (length (n_attempts w)), w\<lparr>n_attempts := n_attempts w @ [[]]\<rparr>)"

definition record_exn :: "nat \<Rightarrow> exn \<Rightarrow> ('a networld_scheme, unit) prog" where
  "record_exn k e = upd (\<lambda>w. w\<lparr>n_attempts := (n_attempts w)[k := n_attempts w ! k @ [e]]\<rparr>)"

text \<open>\<open>raise my_exceptions.pop()\<close>\<close>

definition raise_last :: "nat \<Rightarrow> ('a networld_scheme, 'b) prog" where
  "raise_last k =
     bnd (gets (\<lambda>w. last (n_attempts w ! k))) (\<lambda>e.
       andthen (upd (\<lambda>w. w\<lparr>n_attempts := (n_attempts w)[k := butlast (n_attempts w ! k)]\<rparr>))
         (reraise e))"

text \<open>The loop over the local addresses; the result says whether a \<open>bind\<close> succeeded.\<close>

fun bind_local :: "nat \<Rightarrow> nat \<Rightarrow> int \<Rightarrow> addrinfo list \<Rightarrow> ('a networld_scheme, bool) prog" where
  "bind_local k s family [] = ret False"
| "bind_local k s family (l # ls) =
     (if ai_family l \<noteq> family then bind_local k s family ls
      else
        try_else (sock_bind s (ai_addr l))
          (\<lambda>e. if is_oserror e then
                  bnd (gets (\<lambda>w. bind_error w (ai_addr l) e)) (\<lambda>e'.
                    andthen (record_exn k e') (bind_local k s family ls))
                else reraise e)
          (\<lambda>_. ret True))"

definition bind_to_local ::
  "nat \<Rightarrow> nat \<Rightarrow> int \<Rightarrow> addrinfo list option \<Rightarrow> ('a networld_scheme, unit) prog" where
  "bind_to_local k s family locals =
     (case locals of
        None \<Rightarrow> ret ()
      | Some ls \<Rightarrow>
          bnd (bind_local k s family ls) (\<lambda>bound.
            if bound then ret ()
            else cond (\<lambda>w. n_attempts w ! k \<noteq> []) (raise_last k)
                   (reraise (exn_msg (OSErr ENO_NONE)
                      (''no matching local address with family='' @ str_of_int family @ '' found'')))))"

text \<open>What the two \<open>except\<close> clauses do once the socket exists.\<close>

definition attempt_failed :: "nat \<Rightarrow> nat \<Rightarrow> exn \<Rightarrow> ('a networld_scheme, 'b) prog" where
  "attempt_failed k s e =
     andthen (if is_oserror e then record_exn k e else ret ())
       (andthen
         (try_except (sock_close s) (\<lambda>e'. if is_oserror e' then ret () else reraise e'))
         (reraise e))"

definition connect_open ::
  "addrinfo \<Rightarrow> addrinfo list option \<Rightarrow> ('a networld_scheme, nat \<times> nat) prog" where
  "connect_open ai locals =
     bnd new_attempt (\<lambda>k.
       bnd (try_except (sock_new (ai_family ai) (ai_type ai) (ai_proto ai))
              (\<lambda>e. andthen (if is_oserror e then record_exn k e else ret ()) (reraise e))) (\<lambda>s.
         try_except
           (andthen (sock_setblocking s False)
             (andthen (bind_to_local k s (ai_family ai) locals) (ret (k, s))))
           (attempt_failed k s)))"

definition connect_finish :: "netaddr \<Rightarrow> nat \<times> nat \<Rightarrow> ('a networld_scheme, nat) prog" where
  "connect_finish address ks =
     (case ks of (k, s) \<Rightarrow>
        try_except (andthen (loop_sock_connect s address) (ret s)) (attempt_failed k s))"

definition connect_sock ::
  "addrinfo \<Rightarrow> addrinfo list option \<Rightarrow> ('a networld_scheme, nat) prog" where
  "connect_sock ai locals = bnd (connect_open ai locals) (connect_finish (ai_addr ai))"

section \<open>The attempts of a connection\<close>

fun connect_first ::
  "addrinfo list \<Rightarrow> addrinfo list option \<Rightarrow> ('a networld_scheme, nat option) prog" where
  "connect_first [] locals = ret None"
| "connect_first (ai # ais) locals =
     try_else (connect_sock ai locals)
       (\<lambda>e. if is_oserror e then connect_first ais locals else reraise e)
       (\<lambda>s. ret (Some s))"

text \<open>
  \<open>staggered_race\<close>: an event of the schedule starts the next attempt (its delay has passed or
  an earlier attempt has failed) or wakes a running one. The first that connects wins and the
  others are cancelled; exceptions of an attempt are swallowed, except that the interpreter's
  exit stops everything. A schedule that ends while attempts run is the cancellation of the
  whole coroutine.
\<close>

datatype race_event = RaceStart | RaceWake nat

type_synonym attempt = "(nat \<times> nat) \<times> netaddr"

definition cancel_attempt :: "attempt \<Rightarrow> ('a networld_scheme, unit) prog" where
  "cancel_attempt a =
     try_except (attempt_failed (fst (fst a)) (snd (fst a)) (exn_of CancelledError)) (\<lambda>_. ret ())"

fun staggered_race ::
  "race_event list \<Rightarrow> addrinfo list \<Rightarrow> addrinfo list option \<Rightarrow> attempt list \<Rightarrow>
     ('a networld_scheme, nat option) prog" where
  "staggered_race [] infos locals running =
     (if infos = [] \<and> running = [] then ret None
      else andthen (for_each running cancel_attempt) (raise CancelledError))"
| "staggered_race (RaceStart # es) infos locals running =
     (case infos of
        [] \<Rightarrow> staggered_race es [] locals running
      | ai # ais \<Rightarrow>
          try_else (connect_open ai locals)
            (\<lambda>e. if is_exit e then reraise e else staggered_race es ais locals running)
            (\<lambda>ks. staggered_race es ais locals (running @ [(ks, ai_addr ai)])))"
| "staggered_race (RaceWake i # es) infos locals running =
     (if i < length running then
        (let rest = take i running @ drop (Suc i) running in
         try_else (connect_finish (snd (running ! i)) (fst (running ! i)))
           (\<lambda>e. if is_exit e then reraise e else staggered_race es infos locals rest)
           (\<lambda>s. andthen (for_each rest cancel_attempt) (ret (Some s))))
      else staggered_race es infos locals running)"

text \<open>The exception of a connection none of whose attempts succeeded.\<close>

fun join_texts :: "string list \<Rightarrow> string" where
  "join_texts [] = []"
| "join_texts [s] = s"
| "join_texts (s # t # ss) = s @ '', '' @ join_texts (t # ss)"

definition connect_error :: "bool \<Rightarrow> exn list \<Rightarrow> exn" where
  "connect_error all_errors exceptions =
     (if all_errors then
        (if exceptions = [] then exn_of ValueErr
         else exn_msg (ExceptionGroupErr exceptions) ''create_connection failed'')
      else case exceptions of
        [] \<Rightarrow> exn_msg (OSErr ETIMEDOUT) ''create_connection failed''
      | [e] \<Rightarrow> e
      | e # es \<Rightarrow>
          if \<forall>x \<in> set (e # es). exn_str x = exn_str e then e
          else exn_msg (OSErr ENO_NONE)
                 (''Multiple exceptions: '' @ join_texts (map exn_str (e # es))))"

section \<open>Entry points\<close>

record connection_args =
  ca_host :: pyval
  ca_port :: pyval
  ca_ssl :: ssl_arg
  ca_family :: int
  ca_proto :: int
  ca_flags :: int
  ca_sock :: "nat option"
  ca_local_addr :: "pyval list option"
  ca_server_hostname :: "pyval"
  ca_options :: ssl_options
  ca_happy_eyeballs :: "race_event list option"
  ca_interleave :: "int option"
  ca_all_errors :: bool

text \<open>
  \<open>ca_happy_eyeballs\<close> is \<open>None\<close> when no delay is given, otherwise the schedule that the delay
  and the network lead to.
\<close>

definition resolve_nonempty ::
  "pyval list \<Rightarrow> int \<Rightarrow> int \<Rightarrow> int \<Rightarrow> int \<Rightarrow> ('a networld_scheme, addrinfo list) prog" where
  "resolve_nonempty address family type proto flags =
     bnd (ensure_resolved address family type proto flags) (\<lambda>infos.
       if infos = [] then
         reraise (exn_msg (OSErr ENO_NONE) ''getaddrinfo() returned empty list'')
       else ret infos)"

definition connect_race ::
  "race_event list option \<Rightarrow> addrinfo list \<Rightarrow> addrinfo list option \<Rightarrow>
     ('a networld_scheme, nat option) prog" where
  "connect_race happy infos locals =
     (case happy of
        None \<Rightarrow> connect_first infos locals
      | Some schedule \<Rightarrow> staggered_race schedule infos locals [])"

definition connect_by_name :: "connection_args \<Rightarrow> ('a networld_scheme, nat) prog" where
  "connect_by_name a =
     bnd (resolve_nonempty [ca_host a, ca_port a] (ca_family a) SOCK_STREAM (ca_proto a) (ca_flags a))
       (\<lambda>infos.
     bnd (case ca_local_addr a of
            None \<Rightarrow> ret None
          | Some l \<Rightarrow>
              bnd (resolve_nonempty l (ca_family a) SOCK_STREAM (ca_proto a) (ca_flags a))
                (\<lambda>ls. ret (Some ls)))
       (\<lambda>locals.
         let interleave = (if ca_happy_eyeballs a \<noteq> None \<and> ca_interleave a = None then Some 1
                           else ca_interleave a);
             infos = (case interleave of
                        None \<Rightarrow> infos
                      | Some n \<Rightarrow> if n = 0 then infos else interleave_addrinfos infos n)
         in andthen (upd (\<lambda>w. w\<lparr>n_attempts := []\<rparr>))
              (bnd (connect_race (ca_happy_eyeballs a) infos locals) (\<lambda>r.
                case r of
                  Some s \<Rightarrow> ret s
                | None \<Rightarrow> bnd (gets n_attempts) (\<lambda>xs.
                    reraise (connect_error (ca_all_errors a) (concat xs)))))))"

definition connection_hostname :: "connection_args \<Rightarrow> exn_class + pyval" where
  "connection_hostname a =
     (if ca_server_hostname a \<noteq> VNone \<and> \<not> ssl_on (ca_ssl a) then Inl ValueErr
      else if ca_server_hostname a = VNone \<and> ssl_on (ca_ssl a) then
        (if \<not> truthy (ca_host a) then Inl ValueErr else Inr (ca_host a))
      else Inr (ca_server_hostname a))"

definition create_connection ::
  "('a networld_scheme, nat) prog \<Rightarrow> connection_args \<Rightarrow> ('a networld_scheme, nat \<times> nat) prog" where
  "create_connection protocol_factory a =
     bnd (lift_exn (connection_hostname a)) (\<lambda>hostname.
     bnd (validate_ssl_options (ca_options a) (ca_ssl a)) (\<lambda>settings.
     andthen (case ca_sock a of None \<Rightarrow> ret () | Some s \<Rightarrow> check_non_ssl_socket s)
     (let owns_sock = (ca_host a \<noteq> VNone \<or> ca_port a \<noteq> VNone);
          tls = \<lparr>tls_settings = settings, tls_hostname = hostname, tls_server_side = False\<rparr> in
      bnd
        (if owns_sock then
           (if ca_sock a \<noteq> None then raise ValueErr else connect_by_name a)
         else case ca_sock a of
           None \<Rightarrow> raise ValueErr
         | Some s \<Rightarrow> cond (\<lambda>w. so_type (sock w s) \<noteq> SOCK_STREAM) (raise ValueErr) (ret s))
        (\<lambda>s. try_except
               (create_connection_transport protocol_factory s (ca_ssl a) tls False)
               (\<lambda>e. andthen (if owns_sock then sock_close s else ret ()) (reraise e))))))"

record unix_connection_args =
  ua_path :: "string option"
  ua_ssl :: ssl_arg
  ua_sock :: "nat option"
  ua_server_hostname :: pyval
  ua_options :: ssl_options

fun is_str :: "pyval \<Rightarrow> bool" where
  "is_str (VStr _) = True"
| "is_str _ = False"

definition create_unix_connection ::
  "('a networld_scheme, nat) prog \<Rightarrow> unix_connection_args \<Rightarrow>
     ('a networld_scheme, nat \<times> nat) prog" where
  "create_unix_connection protocol_factory a =
     cond n_os_nt (raise NotImplementedErr)
       (if \<not> (ua_server_hostname a = VNone \<or> is_str (ua_server_hostname a)) then raise AssertErr
        else if ssl_on (ua_ssl a) \<and> ua_server_hostname a = VNone then raise ValueErr
        else if \<not> ssl_on (ua_ssl a) \<and> ua_server_hostname a \<noteq> VNone then raise ValueErr
        else
          bnd (validate_ssl_options (ua_options a) (ua_ssl a)) (\<lambda>settings.
          bnd
            (case ua_path a of
               Some path \<Rightarrow>
                 (if ua_sock a \<noteq> None then raise ValueErr
                  else
                    bnd (sock_new AF_UNIX_NO SOCK_STREAM 0) (\<lambda>s.
                      andthen
                        (try_except
                          (block [sock_setblocking s False, loop_sock_connect s (APath path)])
                          (\<lambda>e. andthen (sock_close s) (reraise e)))
                        (ret s)))
             | None \<Rightarrow>
                 (case ua_sock a of
                    None \<Rightarrow> raise ValueErr
                  | Some s \<Rightarrow>
                      cond (\<lambda>w. so_family (sock w s) \<noteq> AF_UNIX_NO \<or> so_type (sock w s) \<noteq> SOCK_STREAM)
                        (raise ValueErr)
                        (andthen (sock_setblocking s False) (ret s))))
            (\<lambda>s. create_connection_transport protocol_factory s (ua_ssl a)
                   \<lparr>tls_settings = settings, tls_hostname = ua_server_hostname a,
                    tls_server_side = False\<rparr> False)))"

definition connect_accepted_socket ::
  "('a networld_scheme, nat) prog \<Rightarrow> nat \<Rightarrow> ssl_arg \<Rightarrow> ssl_options \<Rightarrow>
     ('a networld_scheme, nat \<times> nat) prog" where
  "connect_accepted_socket protocol_factory s ssl os =
     cond (\<lambda>w. so_type (sock w s) \<noteq> SOCK_STREAM) (raise ValueErr)
       (bnd (validate_ssl_options os ssl) (\<lambda>settings.
         andthen (check_non_ssl_socket s)
           (create_connection_transport protocol_factory s ssl
              \<lparr>tls_settings = settings, tls_hostname = VStr [], tls_server_side = True\<rparr> False)))"

end
