(* ===== verification/Server.thy ===== *)
theory Server
  imports Connect
begin

text \<open>
  The server object (api_utils.py, class \<open>Server\<close>) and the functions that make one
  (api_create_server.py, api_create_unix_server.py). One server is part of the world, with the
  event loop's side of it: the listening sockets that have a reader, the tasks that
  \<open>asyncio.create_task\<close> has queued for accepted connections, the timers of \<open>call_later\<close>, the
  futures, and the calls of the exception handler. A client is the index of its transport.
\<close>

section \<open>State\<close>

record serverworld = networld +
  sv_sockets :: "nat list option"
  sv_clients :: "nat list"
  sv_waiters :: "nat list option"
  sv_backlog :: int
  sv_ssl :: ssl_arg
  sv_settings :: ssl_settings
  sv_serving :: bool
  sv_forever :: "nat option"
  sv_futures :: "future list"
  sv_readers :: "nat list"
  sv_timers :: "nat list"
  sv_tasks :: "nat list"
  sv_handler :: "(string \<times> exn) list"

definition server_init ::
  "nat list \<Rightarrow> ssl_arg \<Rightarrow> int \<Rightarrow> ssl_settings \<Rightarrow> ('a serverworld_scheme, unit) prog" where
  "server_init sockets ssl backlog settings =
     upd (\<lambda>w. w\<lparr>sv_sockets := Some sockets, sv_clients := [], sv_waiters := Some [],
                sv_backlog := backlog, sv_ssl := ssl, sv_settings := settings,
                sv_serving := False, sv_forever := None\<rparr>)"

section \<open>Futures and the event loop\<close>

definition new_future :: "('a serverworld_scheme, nat) prog" where
  "new_future w = (Inr (length (sv_futures w)), w\<lparr>sv_futures := sv_futures w @ [FutPending]\<rparr>)"

definition future_done :: "nat \<Rightarrow> 'a serverworld_scheme \<Rightarrow> bool" where
  "future_done i w = (i < length (sv_futures w) \<and> sv_futures w ! i \<noteq> FutPending)"

definition settle_future :: "future \<Rightarrow> nat \<Rightarrow> ('a serverworld_scheme, unit) prog" where
  \<comment> \<open>\<open>if not fut.done(): fut.set_result(None)\<close>, or \<open>fut.cancel()\<close>\<close>
  "settle_future r i =
     unless (future_done i) (upd (\<lambda>w. w\<lparr>sv_futures := (sv_futures w)[i := r]\<rparr>))"

definition loop_add_reader :: "nat \<Rightarrow> ('a serverworld_scheme, unit) prog" where
  \<comment> \<open>a closed socket has the descriptor -1\<close>
  "loop_add_reader s =
     cond (\<lambda>w. \<not> so_open (sock w s)) (raise ValueErr)
       (upd (\<lambda>w. w\<lparr>sv_readers := List.insert s (sv_readers w)\<rparr>))"

definition loop_remove_reader :: "nat \<Rightarrow> ('a serverworld_scheme, unit) prog" where
  "loop_remove_reader s = upd (\<lambda>w. w\<lparr>sv_readers := removeAll s (sv_readers w)\<rparr>)"

section \<open>The server object\<close>

definition server_attach :: "nat \<Rightarrow> ('a serverworld_scheme, unit) prog" where
  "server_attach t =
     cond (\<lambda>w. sv_sockets w = None) (raise AssertErr)
       (upd (\<lambda>w. w\<lparr>sv_clients := List.insert t (sv_clients w)\<rparr>))"

definition server_wakeup :: "('a serverworld_scheme, unit) prog" where
  "server_wakeup =
     bnd (gets sv_waiters) (\<lambda>ws.
       case ws of
         None \<Rightarrow> ret ()
       | Some waiters \<Rightarrow>
           andthen (upd (\<lambda>w. w\<lparr>sv_waiters := None\<rparr>))
             (for_each waiters (settle_future FutResult)))"

definition server_detach :: "nat \<Rightarrow> ('a serverworld_scheme, unit) prog" where
  "server_detach t =
     block [
       upd (\<lambda>w. w\<lparr>sv_clients := removeAll t (sv_clients w)\<rparr>),
       only_if (\<lambda>w. sv_clients w = [] \<and> sv_sockets w = None) server_wakeup]"

definition start_serving_one_listener :: "nat \<Rightarrow> ('a serverworld_scheme, unit) prog" where
  "start_serving_one_listener s = loop_add_reader s"

definition start_serving :: "('a serverworld_scheme, unit) prog" where
  "start_serving =
     unless sv_serving
       (block [
         upd (\<lambda>w. w\<lparr>sv_serving := True\<rparr>),
         bnd (gets sv_sockets) (\<lambda>ss.
           case ss of
             None \<Rightarrow> raise TypeErr
           | Some sockets \<Rightarrow>
               for_each sockets (\<lambda>s.
                 block [
                   bnd (gets sv_backlog) (\<lambda>b. sock_listen s b),
                   start_serving_one_listener s]))])"

text \<open>\<open>BlockingIOError\<close> and \<open>InterruptedError\<close>\<close>

definition would_block :: "exn \<Rightarrow> bool" where
  "would_block e = (exn_cls e \<in> {OSErr EAGAIN, OSErr EWOULDBLOCK, OSErr EALREADY, OSErr EINPROGRESS,
                                 OSErr EINTR})"

definition out_of_resources :: "exn \<Rightarrow> bool" where
  "out_of_resources e = (exn_cls e \<in> {OSErr EMFILE, OSErr ENFILE, OSErr ENOBUFS, OSErr ENOMEM})"

text \<open>\<open>listening_sock.accept()\<close>; the new socket has the family, type and protocol of the listener.\<close>

definition sock_accept_call :: "nat \<Rightarrow> ('a networld_scheme, nat) prog" where
  "sock_accept_call s =
     andthen (net_call (NAccept s))
       (bnd (gets (\<lambda>w. sock w s)) (\<lambda>l. add_socket (l\<lparr>so_blocking := True, so_open := True, so_ssl := False\<rparr>)))"

text \<open>
  The handler calls \<open>listening_sock.remove_reader\<close>, an attribute that a socket does not have;
  the event loop has it.
\<close>

definition socket_remove_reader :: "nat \<Rightarrow> ('a serverworld_scheme, unit) prog" where
  "socket_remove_reader s = raise AttributeErr"

definition accept_out_of_resources :: "nat \<Rightarrow> exn \<Rightarrow> ('a serverworld_scheme, unit) prog" where
  "accept_out_of_resources s e =
     block [
       upd (\<lambda>w. w\<lparr>sv_handler := sv_handler w @ [(''socket.accept() out of system resource'', e)]\<rparr>),
       socket_remove_reader s,
       upd (\<lambda>w. w\<lparr>sv_timers := sv_timers w @ [s]\<rparr>)]"

fun accept_loop :: "nat \<Rightarrow> nat \<Rightarrow> ('a serverworld_scheme, unit) prog" where
  "accept_loop 0 s = ret ()"
| "accept_loop (Suc n) s =
     try_else
       (bnd (sock_accept_call s) (\<lambda>conn. andthen (sock_setblocking conn False) (ret conn)))
       (\<lambda>e. if exn_cls e = OSErr ECONNABORTED then accept_loop n s
            else if would_block e then ret ()
            else if is_oserror e \<and> out_of_resources e then
              andthen (accept_out_of_resources s e) (accept_loop n s)
            else reraise e)
       (\<lambda>conn. andthen (upd (\<lambda>w. w\<lparr>sv_tasks := sv_tasks w @ [conn]\<rparr>)) (accept_loop n s))"

definition accept_connection :: "nat \<Rightarrow> ('a serverworld_scheme, unit) prog" where
  "accept_connection s = bnd (gets (\<lambda>w. nat (sv_backlog w + 1))) (\<lambda>n. accept_loop n s)"

definition accept_connection2 ::
  "('a serverworld_scheme, nat) prog \<Rightarrow> nat \<Rightarrow> ('a serverworld_scheme, unit) prog" where
  "accept_connection2 protocol_factory conn =
     cond (\<lambda>w. sv_sockets w = None) (sock_close conn)
       (try_else
         (bnd (gets (\<lambda>w. (sv_ssl w, sv_settings w))) (\<lambda>(ssl, settings).
           create_connection_transport protocol_factory conn ssl
             \<lparr>tls_settings = settings, tls_hostname = VNone, tls_server_side = True\<rparr> True))
         (\<lambda>e. if is_exit e then reraise e else sock_close conn)
         (\<lambda>(t, _). cond (\<lambda>w. sv_sockets w = None) (abort_transport t) (server_attach t)))"

definition is_serving :: "'a serverworld_scheme \<Rightarrow> bool" where
  "is_serving w = sv_serving w"

definition server_sockets :: "'a serverworld_scheme \<Rightarrow> nat list" where
  "server_sockets w = (case sv_sockets w of None \<Rightarrow> [] | Some ss \<Rightarrow> ss)"

definition server_close :: "('a serverworld_scheme, unit) prog" where
  "server_close =
     bnd (gets sv_sockets) (\<lambda>ss.
       case ss of
         None \<Rightarrow> ret ()
       | Some sockets \<Rightarrow>
           block [
             upd (\<lambda>w. w\<lparr>sv_sockets := None\<rparr>),
             for_each sockets (\<lambda>s. block [loop_remove_reader s, sock_close s]),
             upd (\<lambda>w. w\<lparr>sv_serving := False\<rparr>),
             bnd (gets sv_forever) (\<lambda>f.
               case f of
                 None \<Rightarrow> ret ()
               | Some i \<Rightarrow>
                   unless (future_done i)
                     (block [settle_future FutCancelled i, upd (\<lambda>w. w\<lparr>sv_forever := None\<rparr>)])),
             only_if (\<lambda>w. sv_clients w = []) server_wakeup])"

definition close_clients :: "('a serverworld_scheme, unit) prog" where
  "close_clients = bnd (gets sv_clients) (\<lambda>ts. for_each ts close_transport)"

definition abort_clients :: "('a serverworld_scheme, unit) prog" where
  "abort_clients = bnd (gets sv_clients) (\<lambda>ts. for_each ts abort_transport)"

text \<open>
  A coroutine that waits returns the future that it waits for, \<open>None\<close> when it has nothing to
  wait for. \<open>serve_forever\<close> is resumed by the cancellation of its future: it closes the server
  and waits for the clients, then ends by raising the cancellation again.
\<close>

definition wait_closed :: "('a serverworld_scheme, nat option) prog" where
  "wait_closed =
     cond (\<lambda>w. sv_waiters w = None) (ret None)
       (bnd new_future (\<lambda>i.
         andthen (upd (\<lambda>w. w\<lparr>sv_waiters := map_option (\<lambda>ws. ws @ [i]) (sv_waiters w)\<rparr>))
           (ret (Some i))))"

definition serve_forever :: "('a serverworld_scheme, nat) prog" where
  "serve_forever =
     cond (\<lambda>w. sv_forever w \<noteq> None) (raise RuntimeErr)
       (cond (\<lambda>w. sv_sockets w = None) (raise RuntimeErr)
         (andthen start_serving
           (bnd new_future (\<lambda>i.
             andthen (upd (\<lambda>w. w\<lparr>sv_forever := Some i\<rparr>)) (ret i)))))"

definition serve_forever_end :: "('a serverworld_scheme, 'b) prog" where
  "serve_forever_end = andthen (upd (\<lambda>w. w\<lparr>sv_forever := None\<rparr>)) (raise CancelledError)"

definition serve_forever_cancelled :: "('a serverworld_scheme, nat option) prog" where
  "serve_forever_cancelled =
     try_except (andthen server_close wait_closed)
       (\<lambda>e. andthen (upd (\<lambda>w. w\<lparr>sv_forever := None\<rparr>)) (reraise e))"

section \<open>The life of a server\<close>

text \<open>
  What the program and the event loop do to a server, one event at a time. \<open>EvReady\<close> is the
  reader callback of a listening socket, \<open>EvTask\<close> runs the oldest task of an accepted
  connection, \<open>EvDetach\<close> is the end of a client's transport, \<open>EvServeCancelled\<close> cancels the
  task in \<open>serve_forever\<close> and \<open>EvServeEnd\<close> resumes it after the clients are gone.
\<close>

datatype server_event =
    EvStart | EvReady nat | EvTask | EvClose | EvDetach nat | EvCloseClients | EvAbortClients
  | EvWaitClosed | EvServe | EvServeCancelled | EvServeEnd

fun server_do ::
  "('a serverworld_scheme, nat) prog \<Rightarrow> server_event \<Rightarrow> ('a serverworld_scheme, unit) prog" where
  "server_do factory EvStart = start_serving"
| "server_do factory (EvReady s) = only_if (\<lambda>w. s \<in> set (sv_readers w)) (accept_connection s)"
| "server_do factory EvTask =
     bnd (gets sv_tasks) (\<lambda>ts.
       case ts of
         [] \<Rightarrow> ret ()
       | conn # cs \<Rightarrow>
           andthen (upd (\<lambda>w. w\<lparr>sv_tasks := cs\<rparr>)) (accept_connection2 factory conn))"
| "server_do factory EvClose = server_close"
| "server_do factory (EvDetach t) = server_detach t"
| "server_do factory EvCloseClients = close_clients"
| "server_do factory EvAbortClients = abort_clients"
| "server_do factory EvWaitClosed = bnd wait_closed (\<lambda>_. ret ())"
| "server_do factory EvServe = bnd serve_forever (\<lambda>_. ret ())"
| "server_do factory EvServeCancelled =
     bnd (gets sv_forever) (\<lambda>f.
       case f of
         None \<Rightarrow> ret ()
       | Some i \<Rightarrow>
           andthen (settle_future FutCancelled i)
             (bnd serve_forever_cancelled (\<lambda>r.
               case r of None \<Rightarrow> serve_forever_end | Some _ \<Rightarrow> ret ())))"
| "server_do factory EvServeEnd =
     only_if (\<lambda>w. case sv_forever w of None \<Rightarrow> False | Some i \<Rightarrow> future_done i w) serve_forever_end"

fun server_run ::
  "('a serverworld_scheme, nat) prog \<Rightarrow> server_event list \<Rightarrow> 'a serverworld_scheme \<Rightarrow>
     'a serverworld_scheme" where
  "server_run factory [] w = w"
| "server_run factory (ev # evs) w = server_run factory evs (snd (server_do factory ev w))"

section \<open>Making a server\<close>

datatype host_arg = HostOne pyval | HostMany "pyval list"

fun hosts_of :: "host_arg \<Rightarrow> pyval list" where
  "hosts_of (HostOne (VStr s)) = (if s = [] then [VNone] else [VStr s])"
| "hosts_of (HostOne (VBytes bs)) = map (\<lambda>b. VInt (uint b)) bs"
| "hosts_of (HostOne h) = [h]"
| "hosts_of (HostMany hs) = hs"

record server_args =
  sa_host :: host_arg
  sa_port :: pyval
  sa_family :: int
  sa_flags :: int
  sa_sock :: "nat option"
  sa_backlog :: int
  sa_ssl :: ssl_arg
  sa_reuse_address :: "bool option"
  sa_reuse_port :: bool
  sa_keep_alive :: bool
  sa_options :: ssl_options
  sa_start :: bool
  sa_set_order :: "addrinfo list \<Rightarrow> addrinfo list"

text \<open>
  \<open>sa_set_order\<close> is the order in which Python iterates over the set of the resolved addresses.
  The result of \<open>create_server\<close> is the server object of the world, or with a proactor loop the
  server of the event loop, which makes its protocols with the given factory.
\<close>

datatype 'w made_server = OwnServer | LoopServer "'w \<Rightarrow> (exn + protocol_ref) \<times> 'w"

definition create_server_getaddrinfo ::
  "pyval \<Rightarrow> pyval \<Rightarrow> int \<Rightarrow> int \<Rightarrow> ('a networld_scheme, addrinfo list) prog" where
  "create_server_getaddrinfo host port family flags =
     bnd (ensure_resolved [host, port] family SOCK_STREAM 0 flags) (\<lambda>infos.
       if infos = [] then raise (OSErr ENO_NONE) else ret infos)"

fun resolve_hosts ::
  "pyval list \<Rightarrow> pyval \<Rightarrow> int \<Rightarrow> int \<Rightarrow> ('a networld_scheme, addrinfo list) prog" where
  "resolve_hosts [] port family flags = ret []"
| "resolve_hosts (h # hs) port family flags =
     bnd (create_server_getaddrinfo h port family flags) (\<lambda>is.
       bnd (resolve_hosts hs port family flags) (\<lambda>js. ret (is @ js)))"

definition set_listener_options :: "server_args \<Rightarrow> bool \<Rightarrow> int \<Rightarrow> nat \<Rightarrow> ('a networld_scheme, unit) prog" where
  "set_listener_options a reuse_address af s =
     block [
       if reuse_address then sock_setsockopt s SO_REUSEADDR else ret (),
       if sa_reuse_port a \<and> af \<in> {AF_INET_NO, AF_INET6_NO} then set_reuseport s else ret (),
       if sa_keep_alive a then sock_setsockopt s SO_KEEPALIVE else ret (),
       only_if (\<lambda>w. n_has_ipv6 w \<and> af = AF_INET6_NO) (sock_setsockopt s IPV6_V6ONLY)]"

text \<open>The \<open>finally\<close> clause, when the loop has not completed.\<close>

definition close_listeners :: "nat list \<Rightarrow> exn \<Rightarrow> ('a networld_scheme, 'b) prog" where
  "close_listeners sockets e = andthen (for_each sockets sock_close) (reraise e)"

definition listener_bind_error :: "'a networld_scheme \<Rightarrow> netaddr \<Rightarrow> exn \<Rightarrow> exn" where
  "listener_bind_error w sa e =
     os_error (errno_of_class (exn_cls e))
       (''error while attempting to bind on address '' @ n_repr w sa @ '': '' @ lower (exn_str e))"

fun open_listeners ::
  "server_args \<Rightarrow> bool \<Rightarrow> addrinfo list \<Rightarrow> nat list \<Rightarrow> ('a networld_scheme, nat list) prog" where
  "open_listeners a reuse [] sockets =
     (if sockets = [] then raise (OSErr ENO_NONE) else ret sockets)"
| "open_listeners a reuse (ai # ais) sockets =
     try_else (sock_new (ai_family ai) (ai_type ai) (ai_proto ai))
       (\<lambda>e. if is_oserror e then open_listeners a reuse ais sockets
            else close_listeners sockets e)
       (\<lambda>s. try_else (set_listener_options a reuse (ai_family ai) s)
              (close_listeners (sockets @ [s]))
              (\<lambda>_. try_else (sock_bind s (ai_addr ai))
                 (\<lambda>e. if exn_cls e = OSErr EADDRNOTAVAIL then
                        try_else (sock_close s) (close_listeners sockets)
                          (\<lambda>_. open_listeners a reuse ais sockets)
                      else if is_oserror e then
                        bnd (gets (\<lambda>w. listener_bind_error w (ai_addr ai) e))
                          (close_listeners (sockets @ [s]))
                      else close_listeners (sockets @ [s]) e)
                 (\<lambda>_. open_listeners a reuse ais (sockets @ [s]))))"

definition server_sockets_for :: "server_args \<Rightarrow> ('a networld_scheme, nat list) prog" where
  "server_sockets_for a =
     (if sa_host a \<noteq> HostOne VNone \<or> sa_port a \<noteq> VNone then
        (if sa_sock a \<noteq> None then raise ValueErr
         else
           bnd (gets (\<lambda>w. case sa_reuse_address a of None \<Rightarrow> \<not> n_os_nt w | Some b \<Rightarrow> b)) (\<lambda>reuse.
             bnd (resolve_hosts (hosts_of (sa_host a)) (sa_port a) (sa_family a) (sa_flags a))
               (\<lambda>infos. open_listeners a reuse (sa_set_order a (remdups infos)) [])))
      else case sa_sock a of
        None \<Rightarrow> raise ValueErr
      | Some s \<Rightarrow> cond (\<lambda>w. so_type (sock w s) \<noteq> SOCK_STREAM) (raise ValueErr) (ret [s]))"

definition create_server_fallback ::
  "('a networld_scheme, nat) prog \<Rightarrow> ssl_arg \<Rightarrow> ssl_settings \<Rightarrow>
     ('a networld_scheme, 'a networld_scheme made_server) prog" where
  "create_server_fallback protocol_factory ssl settings =
     (let ssl_protocol_factory =
            bnd protocol_factory (\<lambda>p.
              bnd (construct (tls_transport KSslTransport None (PUser p)
                     \<lparr>tls_settings = settings, tls_hostname = VNone, tls_server_side = True\<rparr> False))
                (\<lambda>t. ret (PTls t)));
          wrapped_protocol_factory = bnd protocol_factory (\<lambda>p. ret (PWrap p))
      in andthen (net_call (NOriginal ''create_server''))
           (ret (LoopServer (if ssl_on ssl then ssl_protocol_factory else wrapped_protocol_factory))))"

fun is_ssl_bool :: "ssl_arg \<Rightarrow> bool" where
  "is_ssl_bool (SslBool _) = True"
| "is_ssl_bool _ = False"

definition create_server ::
  "('a serverworld_scheme, nat) prog \<Rightarrow> server_args \<Rightarrow>
     ('a serverworld_scheme, 'a serverworld_scheme made_server) prog" where
  "create_server protocol_factory a =
     (if is_ssl_bool (sa_ssl a) then raise TypeErr
      else
        bnd (validate_ssl_options (sa_options a) (sa_ssl a)) (\<lambda>settings.
          cond n_proactor (create_server_fallback protocol_factory (sa_ssl a) settings)
            (andthen (case sa_sock a of None \<Rightarrow> ret () | Some s \<Rightarrow> check_non_ssl_socket s)
              (bnd (server_sockets_for a) (\<lambda>sockets.
                andthen
                  (block [
                    for_each sockets (\<lambda>s. sock_setblocking s False),
                    server_init sockets (sa_ssl a) (sa_backlog a) settings,
                    if sa_start a then start_serving else ret ()])
                  (ret OwnServer))))))"

section \<open>UNIX servers\<close>

text \<open>The file system: paths with an inode number and whether the file is a socket.\<close>

record unixserverworld = serverworld +
  us_cleanup_path :: "string option"
  us_cleanup_inode :: "nat option"
  us_files :: "string \<Rightarrow> (nat \<times> bool) option"
  us_sockname :: "nat \<Rightarrow> string"
  us_next_inode :: nat

definition file_stat :: "string \<Rightarrow> ('a unixserverworld_scheme, nat \<times> bool) prog" where
  "file_stat path =
     andthen (net_call (NStat path))
       (bnd (gets (\<lambda>w. us_files w path)) (\<lambda>f.
         case f of None \<Rightarrow> raise (OSErr ENOENT) | Some st \<Rightarrow> ret st))"

definition file_remove :: "string \<Rightarrow> ('a unixserverworld_scheme, unit) prog" where
  "file_remove path =
     andthen (net_call (NRemove path))
       (cond (\<lambda>w. us_files w path = None) (raise (OSErr ENOENT))
         (upd (\<lambda>w. w\<lparr>us_files := (us_files w)(path := None)\<rparr>)))"

definition file_not_found :: "exn \<Rightarrow> bool" where
  "file_not_found e = (exn_cls e = OSErr ENOENT)"

definition unix_server_close :: "('a unixserverworld_scheme, unit) prog" where
  "unix_server_close =
     bnd (gets (\<lambda>w. (us_cleanup_path w, us_cleanup_inode w))) (\<lambda>(path, inode).
       block [
         upd (\<lambda>w. w\<lparr>us_cleanup_path := None, us_cleanup_inode := None\<rparr>),
         server_close,
         (case path of
            None \<Rightarrow> ret ()
          | Some p \<Rightarrow>
              try_else (file_stat p)
                (\<lambda>e. if file_not_found e then ret () else reraise e)
                (\<lambda>(ino, is_sock).
                  if is_sock \<and> inode = Some ino then file_remove p else ret ()))])"

definition is_abstract :: "string \<Rightarrow> bool" where
  "is_abstract path = (path \<noteq> [] \<and> hd path = CHR 0x00)"

text \<open>
  Removing a stale socket: errors other than a missing file are only logged. An empty path
  makes \<open>path[0]\<close> raise \<open>IndexError\<close>.
\<close>

definition remove_stale_socket :: "string \<Rightarrow> ('a unixserverworld_scheme, unit) prog" where
  "remove_stale_socket path =
     (if path = [] then raise IndexErr
      else if is_abstract path then ret ()
      else
        try_except
          (bnd (file_stat path) (\<lambda>(_, is_sock). if is_sock then file_remove path else ret ()))
          (\<lambda>e. if is_oserror e then ret () else reraise e))"

text \<open>A successful bind creates the file of a path that is not abstract.\<close>

definition bind_path :: "nat \<Rightarrow> string \<Rightarrow> ('a unixserverworld_scheme, unit) prog" where
  "bind_path s path =
     andthen (sock_bind s (APath path))
       (upd (\<lambda>w. w\<lparr>us_sockname := (us_sockname w)(s := path),
                   us_files := (if is_abstract path then us_files w
                                else (us_files w)(path \<mapsto> (us_next_inode w, True))),
                   us_next_inode := us_next_inode w + 1\<rparr>))"

record unix_server_args =
  xa_path :: "string option"
  xa_sock :: "nat option"
  xa_backlog :: int
  xa_ssl :: ssl_arg
  xa_options :: ssl_options
  xa_start :: bool
  xa_cleanup :: bool

definition unix_server_socket :: "unix_server_args \<Rightarrow> ('a unixserverworld_scheme, nat) prog" where
  "unix_server_socket a =
     (case xa_path a of
        Some path \<Rightarrow>
          (if xa_sock a \<noteq> None then raise ValueErr
           else
             bnd (sock_new AF_UNIX_NO SOCK_STREAM 0) (\<lambda>s.
               andthen
                 (block [
                   remove_stale_socket path,
                   try_except (bind_path s path)
                     (\<lambda>e. andthen (sock_close s)
                        (if exn_cls e = OSErr EADDRINUSE then
                           bnd (gets (\<lambda>w. n_repr w (APath path))) (\<lambda>r.
                             reraise (os_error EADDRINUSE (''Address '' @ r @ '' is already in use'')))
                         else reraise e))])
                 (ret s)))
      | None \<Rightarrow>
          (case xa_sock a of
             None \<Rightarrow> raise ValueErr
           | Some s \<Rightarrow>
               cond (\<lambda>w. so_family (sock w s) \<noteq> AF_UNIX_NO \<or> so_type (sock w s) \<noteq> SOCK_STREAM)
                 (raise ValueErr) (ret s)))"

definition cleanup_target ::
  "nat \<Rightarrow> ('a unixserverworld_scheme, string option \<times> nat option) prog" where
  "cleanup_target s =
     andthen (net_call (NGetsockname s))
       (bnd (gets (\<lambda>w. us_sockname w s)) (\<lambda>name.
         if name = [] then raise IndexErr
         else if is_abstract name then ret (None, None)
         else
           try_else (file_stat name)
             (\<lambda>e. if file_not_found e then ret (Some name, None) else reraise e)
             (\<lambda>(ino, _). ret (Some name, Some ino))))"

definition create_unix_server ::
  "unix_server_args \<Rightarrow> ('a unixserverworld_scheme, 'a unixserverworld_scheme made_server) prog" where
  "create_unix_server a =
     cond n_os_nt (raise NotImplementedErr)
       (if is_ssl_bool (xa_ssl a) then raise TypeErr
        else
          bnd (validate_ssl_options (xa_options a) (xa_ssl a)) (\<lambda>settings.
          bnd (unix_server_socket a) (\<lambda>s.
          bnd (if xa_cleanup a then cleanup_target s else ret (None, None)) (\<lambda>(path, inode).
            andthen
              (block [
                sock_setblocking s False,
                server_init [s] (xa_ssl a) (xa_backlog a) settings,
                upd (\<lambda>w. w\<lparr>us_cleanup_path := path, us_cleanup_inode := inode\<rparr>),
                if xa_start a then start_serving else ret ()])
              (ret OwnServer)))))"

end
