(* ===== verification/SockApi.thy ===== *)
theory SockApi
  imports Server Buffers
begin

text \<open>
  The socket coroutines of the event loop (api_sock.py). Each tries the system call at once and,
  when it would block, waits for readiness: it creates a future, registers a reader or writer
  whose callback tries again, and a done callback that unregisters it. A coroutine returns
  \<open>Some\<close> its value, or \<open>None\<close> when it is suspended on the future.

  \<open>sk_answers\<close> is what the kernel will answer, in order; when it is empty the calls would
  block. A send accepts at most what it is given. \<open>sk_wire\<close> is what the kernel has accepted and
  \<open>sk_sent\<close> the variable \<open>sent\<close> of \<open>sock_sendall\<close>. \<open>sk_busy\<close> says that the loop has a
  transport on the descriptor, \<open>sk_checks\<close> that it has the method that finds out.
\<close>

section \<open>State\<close>

datatype sockval =
    SvNone | SvInt int | SvBytes bytes | SvFrom bytes netaddr | SvIntFrom int netaddr
  | SvConn nat netaddr

datatype sockcall =
    ScConnect netaddr | ScSoError | ScAccept | ScRecv int | ScRecvInto | ScRecvfrom int
  | ScRecvfromInto | ScSendto bytes netaddr

datatype opstate = OpPending | OpResult sockval | OpException exn | OpCancelled

record sockworld = networld +
  sk_answers :: "(exn_class + sockval) list"
  sk_wire :: bytes
  sk_future :: "opstate option"
  sk_reader :: bool
  sk_writer :: bool
  sk_checks :: bool
  sk_busy :: bool
  sk_sent :: nat

definition sys_call :: "sockcall \<Rightarrow> ('a sockworld_scheme, sockval) prog" where
  "sys_call c w =
     (case sk_answers w of
        [] \<Rightarrow> (Inl (exn_of (OSErr EAGAIN)), w)
      | r # rs \<Rightarrow>
          (case r of Inl e \<Rightarrow> (Inl (exn_of e), w\<lparr>sk_answers := rs\<rparr>)
                   | Inr v \<Rightarrow> (Inr v, w\<lparr>sk_answers := rs\<rparr>)))"

fun answer_int :: "sockval \<Rightarrow> int" where
  "answer_int (SvInt n) = n"
| "answer_int _ = 0"

definition sys_send :: "bytes \<Rightarrow> ('a sockworld_scheme, nat) prog" where
  "sys_send bs w =
     (case sk_answers w of
        [] \<Rightarrow> (Inl (exn_of (OSErr EAGAIN)), w)
      | Inl e # rs \<Rightarrow> (Inl (exn_of e), w\<lparr>sk_answers := rs\<rparr>)
      | Inr v # rs \<Rightarrow>
          (let n = min (nat (answer_int v)) (length bs)
           in (Inr n, w\<lparr>sk_answers := rs, sk_wire := sk_wire w @ take n bs\<rparr>)))"

section \<open>Waiting for readiness\<close>

definition ensure_fd_no_transport :: "('a sockworld_scheme, unit) prog" where
  "ensure_fd_no_transport = only_if (\<lambda>w. sk_checks w \<and> sk_busy w) (raise RuntimeErr)"

definition op_done :: "'a sockworld_scheme \<Rightarrow> bool" where
  "op_done w = (sk_future w \<noteq> None \<and> sk_future w \<noteq> Some OpPending)"

definition op_set :: "opstate \<Rightarrow> ('a sockworld_scheme, unit) prog" where
  "op_set r = cond op_done (raise InvalidStateErr) (upd (\<lambda>w. w\<lparr>sk_future := Some r\<rparr>))"

definition op_cancel :: "('a sockworld_scheme, unit) prog" where
  "op_cancel = unless op_done (upd (\<lambda>w. w\<lparr>sk_future := Some OpCancelled\<rparr>))"

definition wrap_sock_ready_handler ::
  "('a sockworld_scheme, unit) prog \<Rightarrow> ('a sockworld_scheme, unit) prog" where
  "wrap_sock_ready_handler fn =
     unless op_done
       (try_except fn
         (\<lambda>e. if would_block e then ret ()
              else cond op_done (raise AssertErr) (op_set (OpException e))))"

definition wait_reader :: "('a sockworld_scheme, sockval option) prog" where
  "wait_reader =
     andthen
       (block [
         ensure_fd_no_transport,
         upd (\<lambda>w. w\<lparr>sk_future := Some OpPending\<rparr>),
         upd (\<lambda>w. w\<lparr>sk_reader := True\<rparr>)])
       (ret None)"

definition wait_writer :: "('a sockworld_scheme, sockval option) prog" where
  "wait_writer =
     andthen
       (block [
         ensure_fd_no_transport,
         upd (\<lambda>w. w\<lparr>sk_future := Some OpPending\<rparr>),
         upd (\<lambda>w. w\<lparr>sk_writer := True\<rparr>)])
       (ret None)"

text \<open>The done callbacks, which the event loop runs after the future is done.\<close>

definition reader_done :: "('a sockworld_scheme, unit) prog" where
  "reader_done = only_if op_done (upd (\<lambda>w. w\<lparr>sk_reader := False\<rparr>))"

definition writer_done :: "('a sockworld_scheme, unit) prog" where
  "writer_done = only_if op_done (upd (\<lambda>w. w\<lparr>sk_writer := False\<rparr>))"

definition try_now ::
  "('a sockworld_scheme, sockval) prog \<Rightarrow> ('a sockworld_scheme, sockval option) prog \<Rightarrow>
     ('a sockworld_scheme, sockval option) prog" where
  "try_now m wait =
     try_else m (\<lambda>e. if would_block e then wait else reraise e) (\<lambda>v. ret (Some v))"

definition checked_op ::
  "string \<Rightarrow> nat \<Rightarrow> ('a sockworld_scheme, sockval option) prog \<Rightarrow>
     ('a sockworld_scheme, sockval option) prog" where
  \<comment> \<open>the head that all operations but \<open>sock_connect\<close> share\<close>
  "checked_op name s m =
     cond n_proactor (andthen (net_call (NOriginal name)) (ret (Some SvNone)))
       (andthen (block [check_non_ssl_socket s, check_nonblocking_socket s]) m)"

definition finish_op :: "('a sockworld_scheme, sockval) prog \<Rightarrow> ('a sockworld_scheme, unit) prog" where
  "finish_op m = wrap_sock_ready_handler (bnd m (\<lambda>v. op_set (OpResult v)))"

section \<open>Receiving and sending once\<close>

definition do_accept :: "('a sockworld_scheme, sockval) prog" where
  "do_accept =
     bnd (sys_call ScAccept) (\<lambda>v.
       case v of
         SvConn c a \<Rightarrow> andthen (sock_setblocking c False) (ret v)
       | _ \<Rightarrow> ret v)"

definition sock_accept :: "nat \<Rightarrow> ('a sockworld_scheme, sockval option) prog" where
  "sock_accept s = checked_op ''sock_accept'' s (try_now do_accept wait_reader)"

definition sock_accept_ready :: "('a sockworld_scheme, unit) prog" where
  "sock_accept_ready = finish_op do_accept"

definition sock_recv :: "nat \<Rightarrow> int \<Rightarrow> ('a sockworld_scheme, sockval option) prog" where
  "sock_recv s n = checked_op ''sock_recv'' s (try_now (sys_call (ScRecv n)) wait_reader)"

definition sock_recv_ready :: "int \<Rightarrow> ('a sockworld_scheme, unit) prog" where
  "sock_recv_ready n = finish_op (sys_call (ScRecv n))"

definition sock_recv_into :: "nat \<Rightarrow> ('a sockworld_scheme, sockval option) prog" where
  "sock_recv_into s = checked_op ''sock_recv_into'' s (try_now (sys_call ScRecvInto) wait_reader)"

definition sock_recv_into_ready :: "('a sockworld_scheme, unit) prog" where
  "sock_recv_into_ready = finish_op (sys_call ScRecvInto)"

definition sock_recvfrom :: "nat \<Rightarrow> int \<Rightarrow> ('a sockworld_scheme, sockval option) prog" where
  "sock_recvfrom s n =
     checked_op ''sock_recvfrom'' s (try_now (sys_call (ScRecvfrom n)) wait_reader)"

definition sock_recvfrom_ready :: "int \<Rightarrow> ('a sockworld_scheme, unit) prog" where
  "sock_recvfrom_ready n = finish_op (sys_call (ScRecvfrom n))"

definition sock_recvfrom_into :: "nat \<Rightarrow> ('a sockworld_scheme, sockval option) prog" where
  "sock_recvfrom_into s =
     checked_op ''sock_recvfrom_into'' s (try_now (sys_call ScRecvfromInto) wait_reader)"

definition sock_recvfrom_into_ready :: "('a sockworld_scheme, unit) prog" where
  "sock_recvfrom_into_ready = finish_op (sys_call ScRecvfromInto)"

definition sock_sendto ::
  "nat \<Rightarrow> bytes \<Rightarrow> netaddr \<Rightarrow> ('a sockworld_scheme, sockval option) prog" where
  "sock_sendto s data address =
     checked_op ''sock_sendto'' s (try_now (sys_call (ScSendto data address)) wait_writer)"

definition sock_sendto_ready :: "bytes \<Rightarrow> netaddr \<Rightarrow> ('a sockworld_scheme, unit) prog" where
  "sock_sendto_ready data address = finish_op (sys_call (ScSendto data address))"

section \<open>Connecting\<close>

text \<open>
  For an IP socket the address is resolved first; the event loop without readiness then
  delegates. A connection in progress is over when the socket is writable, and \<open>SO_ERROR\<close> says
  how.
\<close>

fun tuple_of :: "netaddr \<Rightarrow> pyval list" where
  "tuple_of (ATuple vs) = vs"
| "tuple_of _ = []"

definition sock_connect :: "nat \<Rightarrow> netaddr \<Rightarrow> ('a sockworld_scheme, sockval option) prog" where
  "sock_connect s address =
     andthen (block [check_non_ssl_socket s, check_nonblocking_socket s])
       (bnd
         (cond (\<lambda>w. so_family (sock w s) \<in> {AF_INET_NO, AF_INET6_NO})
           (bnd (gets (\<lambda>w. sock w s)) (\<lambda>so.
             bnd (ensure_resolved (tuple_of address) (so_family so) (so_type so) (so_proto so) 0)
               (\<lambda>infos. case infos of [] \<Rightarrow> raise IndexErr | i # _ \<Rightarrow> ret (ai_addr i))))
           (ret address))
         (\<lambda>address.
           cond n_proactor (andthen (net_call (NOriginal ''sock_connect'')) (ret (Some SvNone)))
             (try_now (bnd (sys_call (ScConnect address)) (\<lambda>_. ret SvNone)) wait_writer)))"

definition sock_connect_ready :: "('a sockworld_scheme, unit) prog" where
  "sock_connect_ready =
     wrap_sock_ready_handler
       (bnd (sys_call ScSoError) (\<lambda>v.
         if answer_int v \<noteq> 0 then op_set (OpException (exn_of (OSErr (answer_int v))))
         else op_set (OpResult SvNone)))"

section \<open>Sending everything\<close>

definition buf_bytes :: "pybuf \<Rightarrow> exn_class + bytes" where
  "buf_bytes data = (case data of PyNone \<Rightarrow> Inl TypeErr | _ \<Rightarrow> aiofn_unpack_simple_buffer False data)"

definition sock_sendall :: "nat \<Rightarrow> pybuf \<Rightarrow> ('a sockworld_scheme, sockval option) prog" where
  "sock_sendall s data =
     checked_op ''sock_sendall'' s
       (bnd
         (try_else (bnd (lift_exn (buf_bytes data)) sys_send)
           (\<lambda>e. if would_block e then ret 0 else reraise e) ret)
         (\<lambda>sent.
           bnd (lift_exn (py_len data)) (\<lambda>len.
             if int sent = len then ret (Some SvNone)
             else
               bnd (lift_exn (buf_bytes data)) (\<lambda>view.
                 andthen
                   (block [
                     upd (\<lambda>w. w\<lparr>sk_future := Some OpPending, sk_sent := sent\<rparr>),
                     ensure_fd_no_transport,
                     upd (\<lambda>w. w\<lparr>sk_writer := True\<rparr>)])
                   (ret None)))))"

definition sock_sendall_ready :: "bytes \<Rightarrow> ('a sockworld_scheme, unit) prog" where
  "sock_sendall_ready view =
     wrap_sock_ready_handler
       (bnd (gets sk_sent) (\<lambda>sent.
         bnd (sys_send (drop sent view)) (\<lambda>n.
           block [
             upd (\<lambda>w. w\<lparr>sk_sent := sent + n\<rparr>),
             only_if (\<lambda>w. sk_sent w = length view) (op_set (OpResult SvNone))])))"

fun sendall_rounds :: "nat \<Rightarrow> bytes \<Rightarrow> 'a sockworld_scheme \<Rightarrow> 'a sockworld_scheme" where
  "sendall_rounds 0 view w = w"
| "sendall_rounds (Suc n) view w = sendall_rounds n view (snd (sock_sendall_ready view w))"

end
