(* ===== verification/ConnectProps.thy ===== *)
theory ConnectProps
  imports Connect
begin

text \<open>
  What the connection API does with sockets and errors: no path of \<open>create_connection\<close> leaves a
  socket open that nobody owns, failures report what was collected, and the UNIX variant does
  not have the first property.
\<close>

section \<open>Which sockets are open\<close>

definition same_open :: "'a networld_scheme \<Rightarrow> 'a networld_scheme \<Rightarrow> bool" where
  "same_open w w' = (open_socks w' = open_socks w)"

interpretation so: step_order same_open
  by unfold_locales (auto simp: same_open_def)

lemmas net_ops = sock_new_def sock_setblocking_def sock_close_def sock_bind_def sock_setsockopt_def
  sock_listen_def loop_sock_connect_def construct_def close_transport_def abort_transport_def

lemma net_call_in: "steps_in same_open (net_call c)"
  by (rule steps_in_wp) (simp add: wps same_open_def split: option.splits)

lemma upd_same_open: "(\<And>w. open_socks (f w) = open_socks w) \<Longrightarrow> steps_in same_open (upd f)"
  by (simp add: steps_in_def same_open_def)

lemma if_same_open:
  "steps_in same_open m \<Longrightarrow> steps_in same_open n \<Longrightarrow> steps_in same_open (if b then m else n)"
  by simp

lemma record_exn_in: "steps_in same_open (record_exn k e)"
  unfolding record_exn_def by (rule upd_same_open) simp

lemma raise_last_in: "steps_in same_open (raise_last k)"
  unfolding raise_last_def
  by (intro so.bnd_in so.andthen_in so.gets_in so.reraise_in upd_same_open) simp

lemma sock_setblocking_in: "steps_in same_open (sock_setblocking s b)"
  unfolding sock_setblocking_def by (intro so.andthen_in net_call_in upd_same_open) simp

lemma close_transport_in: "steps_in same_open (close_transport t)"
  unfolding close_transport_def by (intro so.andthen_in net_call_in upd_same_open) simp

lemma add_transport_in: "steps_in same_open (add_transport t)"
  by (simp add: steps_in_def add_transport_def same_open_def)

lemma construct_in: "steps_in same_open (construct t)"
  unfolding construct_def by (intro so.andthen_in net_call_in add_transport_in)

lemma bind_local_in: "steps_in same_open (bind_local k s family ls)"
proof (induction ls)
  case Nil
  show ?case unfolding bind_local.simps by (rule so.ret_in)
next
  case (Cons l ls)
  then show ?case
    unfolding bind_local.simps sock_bind_def
    by (intro if_same_open so.order_rules net_call_in record_exn_in)
qed

lemma bind_to_local_in: "steps_in same_open (bind_to_local k s family locals)"
  unfolding bind_to_local_def
  by (cases locals; simp only: option.case)
    (intro if_same_open so.order_rules bind_local_in raise_last_in)+

lemma wait_and_close_in: "steps_in same_open (wait_and_close_transport_on_exc t)"
  unfolding wait_and_close_transport_on_exc_def
  by (intro so.order_rules net_call_in close_transport_in)

lemma loop_getaddrinfo_in: "steps_in same_open (loop_getaddrinfo q)"
  unfolding loop_getaddrinfo_def by (intro so.order_rules net_call_in)

lemma ensure_resolved_in: "steps_in same_open (ensure_resolved a f t p fl)"
proof -
  have "steps_in same_open (case i of Some i \<Rightarrow> ret [i] | None \<Rightarrow> loop_getaddrinfo q)" for i q
    by (cases i; simp only: option.case) (rule loop_getaddrinfo_in so.ret_in)+
  then show ?thesis
    unfolding ensure_resolved_def
    by (cases a; cases "tl a"; simp only: list.case list.sel)
      (intro if_same_open so.order_rules; assumption)+
qed

lemma resolve_nonempty_in: "steps_in same_open (resolve_nonempty a f t p fl)"
  unfolding resolve_nonempty_def by (intro if_same_open so.order_rules ensure_resolved_in)

lemma validate_ssl_options_in: "steps_in same_open (validate_ssl_options os ssl)"
  unfolding validate_ssl_options_def by (intro so.order_rules)

lemma check_non_ssl_socket_in: "steps_in same_open (check_non_ssl_socket s)"
  unfolding check_non_ssl_socket_def by (intro so.order_rules)

lemmas open_rules = so.order_rules net_call_in record_exn_in raise_last_in sock_setblocking_in
  close_transport_in add_transport_in construct_in bind_to_local_in wait_and_close_in
  ensure_resolved_in resolve_nonempty_in validate_ssl_options_in check_non_ssl_socket_in

text \<open>A program that keeps the open sockets, as a rule for the weakest precondition.\<close>

lemma wp_same_open:
  assumes "steps_in same_open m"
    and "\<And>a v. open_socks v = open_socks w \<Longrightarrow> Q a v"
    and "\<And>e v. open_socks v = open_socks w \<Longrightarrow> E e v"
  shows "wp m Q E w"
  using assms by (auto intro!: wp_steps_in simp: same_open_def)

section \<open>One attempt\<close>

lemma sock_new_wp:
  "wp (sock_new f t p) (\<lambda>s v. open_socks v = insert s (open_socks w) \<and> s \<notin> open_socks w)
     (\<lambda>e v. open_socks v = open_socks w) w"
proof -
  have "length (n_socks w) \<notin> open_socks w" by simp
  moreover have "open_socks (log_call c w\<lparr>n_socks := n_socks w @ [s]\<rparr>) =
      (if so_open s then insert (length (n_socks w)) (open_socks w) else open_socks w)" for c s
    using open_socks_add [of "log_call c w" s] by simp
  ultimately show ?thesis
    by (simp add: sock_new_def wps split: option.splits)
qed

lemma attempt_failed_wp:
  "wp (attempt_failed k s e) (\<lambda>_ _. False) (\<lambda>_ v. open_socks v = open_socks w - {s}) w"
  by (auto simp: attempt_failed_def record_exn_def sock_close_def wps split: option.splits)

lemma attempt_failed_restores:
  assumes "open_socks v = insert s X" and "s \<notin> X"
  shows "wp (attempt_failed k s e) Q (\<lambda>_ u. open_socks u = X) v"
  using assms by (auto intro!: wp_weaken [OF attempt_failed_wp])

lemma new_attempt_wp: "Q (length (n_attempts w)) (w\<lparr>n_attempts := n_attempts w @ [[]]\<rparr>) \<Longrightarrow>
    wp new_attempt Q E w"
  by (simp add: wp_def new_attempt_def)

lemma record_and_reraise_wp:
  assumes "open_socks v = X"
  shows "wp (andthen (if is_oserror e then record_exn k e else ret ()) (reraise e)) Q
           (\<lambda>_ u. open_socks u = X) v"
  unfolding wp_andthen wp_reraise
  by (rule wp_same_open) (auto intro!: if_same_open record_exn_in so.ret_in simp: assms)

lemma connect_open_wp:
  "wp (connect_open ai locals)
     (\<lambda>ks v. open_socks v = insert (snd ks) (open_socks w) \<and> snd ks \<notin> open_socks w)
     (\<lambda>e v. open_socks v = open_socks w) w"
proof -
  let ?Q = "\<lambda>ks u. open_socks u = insert (snd ks) (open_socks w) \<and> snd ks \<notin> open_socks w"
  let ?E = "\<lambda>e u. open_socks u = open_socks w"
  have body: "wp (try_except (andthen (sock_setblocking s False)
             (andthen (bind_to_local k s (ai_family ai) locals) (ret (k, s)))) (attempt_failed k s))
       ?Q ?E v"
    if v: "open_socks v = insert s (open_socks w)" and s: "s \<notin> open_socks w" for k s v
    unfolding wp_andthen wp_ret wp_try_except
    by (rule wp_same_open [OF sock_setblocking_in])
      (auto intro!: wp_same_open [OF bind_to_local_in] attempt_failed_restores simp: v s)
  show ?thesis
    unfolding connect_open_def wp_bnd wp_try_except [of "sock_new _ _ _"]
  proof (rule new_attempt_wp, rule wp_weaken [OF sock_new_wp], goal_cases)
    case (1 s v)
    then show ?case by (intro body) simp_all
  next
    case (2 e v)
    then show ?case by (intro record_and_reraise_wp) simp
  qed
qed

lemma connect_finish_wp:
  assumes "open_socks w = insert (snd ks) X" and "snd ks \<notin> X"
  shows "wp (connect_finish a ks)
     (\<lambda>s v. s = snd ks \<and> open_socks v = insert (snd ks) X) (\<lambda>e v. open_socks v = X) w"
proof (cases ks)
  case (Pair k s)
  have "wp (attempt_failed k s e) Q (\<lambda>_ u. open_socks u = X) (log_call c w)"
    for e c and Q :: "nat \<Rightarrow> 'a networld_scheme \<Rightarrow> bool"
    using assms Pair by (intro attempt_failed_restores) simp_all
  with assms Pair show ?thesis
    by (simp add: connect_finish_def loop_sock_connect_def wps split: option.splits)
qed

lemma connect_sock_wp:
  "wp (connect_sock ai locals)
     (\<lambda>s v. open_socks v = insert s (open_socks w) \<and> s \<notin> open_socks w)
     (\<lambda>e v. open_socks v = open_socks w) w"
  unfolding connect_sock_def wp_bnd
proof (rule wp_weaken [OF connect_open_wp], goal_cases)
  case (1 ks v)
  then show ?case
    by (intro wp_weaken [OF connect_finish_wp [where X = "open_socks w"]]) auto
qed simp

section \<open>All attempts\<close>

definition chosen :: "nat set \<Rightarrow> nat option \<Rightarrow> 'a networld_scheme \<Rightarrow> bool" where
  "chosen X r v =
     (case r of None \<Rightarrow> open_socks v = X | Some s \<Rightarrow> open_socks v = insert s X \<and> s \<notin> X)"

lemma connect_first_wp:
  "open_socks w = X \<Longrightarrow> wp (connect_first infos locals) (chosen X) (\<lambda>e v. open_socks v = X) w"
proof (induction infos arbitrary: w)
  case Nil
  then show ?case by (simp add: wp_def chosen_def)
next
  case (Cons ai infos)
  show ?case
    unfolding connect_first.simps wp_try_else wp_if wp_ret wp_reraise
    by (rule wp_weaken [OF connect_sock_wp]) (auto simp: chosen_def Cons)
qed

definition race_inv :: "nat set \<Rightarrow> attempt list \<Rightarrow> 'a networld_scheme \<Rightarrow> bool" where
  "race_inv X running v =
     (open_socks v = X \<union> set (map (snd \<circ> fst) running) \<and>
      X \<inter> set (map (snd \<circ> fst) running) = {} \<and> distinct (map (snd \<circ> fst) running))"

lemma cancel_attempt_wp:
  "open_socks w = insert (snd (fst a)) X \<Longrightarrow> snd (fst a) \<notin> X \<Longrightarrow>
   wp (cancel_attempt a) (\<lambda>_ v. open_socks v = X) (\<lambda>_ _. False) w"
  unfolding cancel_attempt_def wp_try_except wp_ret
  by (rule attempt_failed_restores) auto

lemma cancel_all_wp:
  "race_inv X running w \<Longrightarrow>
   wp (for_each running cancel_attempt) (\<lambda>_ v. open_socks v = X) (\<lambda>_ _. False) w"
proof (induction running arbitrary: w)
  case Nil
  then show ?case by (simp add: race_inv_def wp_def)
next
  case (Cons a running)
  let ?rest = "X \<union> set (map (snd \<circ> fst) running)"
  have "open_socks w = insert (snd (fst a)) ?rest" "snd (fst a) \<notin> ?rest"
    using Cons.prems by (auto simp: race_inv_def)
  from cancel_attempt_wp [OF this] show ?case
    unfolding for_each.simps wp_andthen
    using Cons by (auto simp: race_inv_def intro!: wp_weaken Cons.IH elim!: wp_weaken)
qed

lemma race_inv_start:
  assumes "race_inv X running w" and "open_socks v = insert (snd ks) (open_socks w)"
    and "snd ks \<notin> open_socks w"
  shows "race_inv X (running @ [(ks, a)]) v"
  using assms by (auto simp: race_inv_def)

lemma race_inv_take_out:
  assumes "race_inv X running w" and "i < length running"
  shows "open_socks w =
           insert (snd (fst (running ! i)))
             (X \<union> set (map (snd \<circ> fst) (take i running @ drop (Suc i) running)))"
    and "snd (fst (running ! i)) \<notin>
           X \<union> set (map (snd \<circ> fst) (take i running @ drop (Suc i) running))"
    and "race_inv X (take i running @ drop (Suc i) running)
           v \<longleftrightarrow>
         open_socks v = X \<union> set (map (snd \<circ> fst) (take i running @ drop (Suc i) running))"
    and "race_inv (insert (snd (fst (running ! i))) X) (take i running @ drop (Suc i) running) v \<longleftrightarrow>
         open_socks v = insert (snd (fst (running ! i)))
             (X \<union> set (map (snd \<circ> fst) (take i running @ drop (Suc i) running)))"
proof -
  let ?f = "snd \<circ> fst" and ?rest = "take i running @ drop (Suc i) running"
  have split: "running = take i running @ running ! i # drop (Suc i) running"
    by (rule id_take_nth_drop [OF assms(2)])
  then have set: "set (map ?f running) = insert (?f (running ! i)) (set (map ?f ?rest))"
    by (metis list.simps(9) map_append insert_is_Un set_append list.simps(15) Un_insert_right)
  have "distinct (map ?f (take i running @ running ! i # drop (Suc i) running))"
    using assms(1) split by (simp add: race_inv_def)
  then have dist: "distinct (map ?f ?rest)" "?f (running ! i) \<notin> set (map ?f ?rest)"
    by auto
  have disj: "X \<inter> set (map ?f running) = {}" and opn: "open_socks w = X \<union> set (map ?f running)"
    using assms(1) by (auto simp: race_inv_def)
  show "open_socks w = insert (snd (fst (running ! i))) (X \<union> set (map ?f ?rest))"
    using opn set by auto
  show "snd (fst (running ! i)) \<notin> X \<union> set (map ?f ?rest)"
    using dist disj set by auto
  show "race_inv X ?rest v \<longleftrightarrow> open_socks v = X \<union> set (map ?f ?rest)"
    using dist disj set by (auto simp: race_inv_def)
  show "race_inv (insert (snd (fst (running ! i))) X) ?rest v \<longleftrightarrow>
        open_socks v = insert (snd (fst (running ! i))) (X \<union> set (map ?f ?rest))"
    using dist disj set by (auto simp: race_inv_def)
qed

lemma staggered_race_wp:
  "race_inv X running w \<Longrightarrow>
   wp (staggered_race es infos locals running) (chosen X) (\<lambda>e v. is_exit e \<or> open_socks v = X) w"
proof (induction es infos locals running arbitrary: w rule: staggered_race.induct)
  case (1 infos locals running)
  show ?case
    unfolding staggered_race.simps wp_if wp_ret wp_andthen wp_raise
    using 1 by (auto simp: chosen_def race_inv_def [of X "[]"] intro!: wp_weaken [OF cancel_all_wp])
next
  case (2 es infos locals running)
  show ?case
  proof (cases infos)
    case Nil
    with 2 show ?thesis by simp
  next
    case (Cons ai ais)
    have start: "race_inv X (running @ [(ks, ai_addr ai)]) v"
      if "open_socks v = insert (snd ks) (open_socks w) \<and> snd ks \<notin> open_socks w" for ks v
      using race_inv_start [OF 2(4)] that by blast
    have fail: "race_inv X running v" if "open_socks v = open_socks w" for v
      using 2(4) that by (simp add: race_inv_def)
    show ?thesis
      unfolding staggered_race.simps Cons list.case wp_try_else wp_if wp_reraise
    proof (rule wp_weaken [OF connect_open_wp], goal_cases)
      case (1 ks v)
      then show ?case using 2(3) [OF Cons] start by blast
    next
      case (2 e v)
      then show ?case using "2.IH"(2) [OF Cons] fail by auto
    qed
  qed
next
  case (3 i es infos locals running)
  show ?case
  proof (cases "i < length running")
    case False
    with 3 show ?thesis by simp
  next
    case True
    let ?rest = "take i running @ drop (Suc i) running"
    let ?Y = "X \<union> set (map (snd \<circ> fst) ?rest)"
    let ?ks = "fst (running ! i)"
    note out = race_inv_take_out [OF 3(3) True] and ih = 3(1) [OF True refl]
    show ?thesis
      unfolding staggered_race.simps if_P [OF True] Let_def wp_try_else wp_if wp_reraise wp_andthen wp_ret
    proof (rule wp_weaken [OF connect_finish_wp [where X = ?Y]], goal_cases)
      case 1
      show ?case by (rule out(1))
    next
      case 2
      show ?case by (rule out(2))
    next
      case (3 s v)
      then have "race_inv (insert (snd ?ks) X) ?rest v" using out(4) [of v] by simp
      from cancel_all_wp [OF this] show ?case
        using 3 out(2) by (auto simp: chosen_def elim!: wp_weaken)
    next
      case (4 e v)
      then show ?case using ih out(3) [of v] by auto
    qed
  qed
qed

section \<open>The transport takes the socket over\<close>

definition owned :: "nat \<Rightarrow> 'a networld_scheme \<Rightarrow> bool" where
  "owned s w = (\<exists>t \<in> set (n_transports w). pt_sock t = Some s)"

lemma owned_log [simp]: "owned s (log_call c w) = owned s w"
  by (simp add: owned_def)

lemma owned_add [simp]:
  "owned s (w\<lparr>n_transports := n_transports w @ [t]\<rparr>) = (pt_sock t = Some s \<or> owned s w)"
  by (auto simp: owned_def)

lemma owned_nth: "owned s w = (\<exists>i < length (n_transports w). pt_sock (n_transports w ! i) = Some s)"
  by (simp only: owned_def) (metis in_set_conv_nth)

lemma pt_sock_update:
  "pt_sock (xs[i := (xs ! i)\<lparr>pt_server := b\<rparr>] ! j) = pt_sock (xs ! j)"
  by (cases "i = j"; cases "i < length xs") (simp_all add: list_update_beyond)

lemma owned_set_server [simp]: "owned s (set_server t w) = owned s w"
  by (simp add: owned_nth set_server_def pt_sock_update)

text \<open>
  A program that, when it returns, has given \<open>s\<close> an owner, and one that keeps it owned.
\<close>

definition gives :: "nat \<Rightarrow> ('a networld_scheme, 'b) prog \<Rightarrow> bool" where
  "gives s m = (\<forall>w. wp m (\<lambda>_. owned s) (\<lambda>_ _. True) w)"

definition holds :: "nat \<Rightarrow> ('a networld_scheme, 'b) prog \<Rightarrow> bool" where
  "holds s m = (\<forall>w. owned s w \<longrightarrow> wp m (\<lambda>_. owned s) (\<lambda>_ _. True) w)"

lemma gives_then: "(\<And>a. gives s (f a)) \<Longrightarrow> gives s (bnd m f)"
  unfolding gives_def wp_bnd by (intro allI, rule wp_weaken [OF wp_true]) simp_all

lemma gives_first: "gives s m \<Longrightarrow> (\<And>a. holds s (f a)) \<Longrightarrow> gives s (bnd m f)"
  unfolding gives_def holds_def wp_bnd by (blast intro: wp_weaken)

lemma gives_andthen: "gives s n \<Longrightarrow> gives s (andthen m n)"
  unfolding andthen_def by (rule gives_then)

lemma gives_if: "gives s m \<Longrightarrow> gives s n \<Longrightarrow> gives s (if b then m else n)"
  by simp

lemma gives_cond: "gives s m \<Longrightarrow> gives s n \<Longrightarrow> gives s (cond c m n)"
  by (simp add: gives_def wp_cond)

lemma holds_ret: "holds s (ret x)"
  by (simp add: holds_def wps)

lemma holds_andthen: "holds s m \<Longrightarrow> holds s n \<Longrightarrow> holds s (andthen m n)"
  unfolding holds_def wp_andthen by (blast intro: wp_weaken)

lemma holds_bnd: "holds s m \<Longrightarrow> (\<And>a. holds s (f a)) \<Longrightarrow> holds s (bnd m f)"
  unfolding holds_def wp_bnd by (blast intro: wp_weaken)

lemma holds_if: "holds s m \<Longrightarrow> holds s n \<Longrightarrow> holds s (if b then m else n)"
  by simp

lemma holds_upd: "(\<And>w. owned s w \<Longrightarrow> owned s (f w)) \<Longrightarrow> holds s (upd f)"
  by (simp add: holds_def wps)

lemma gives_construct: "pt_sock t = Some s \<Longrightarrow> gives s (construct t)"
  using owned_add [of s "log_call c w" t for c w]
  by (auto simp: gives_def construct_def wps split: option.splits)

lemma holds_add_transport: "holds s (add_transport t)"
  by (simp add: holds_def wps)

lemma holds_wait: "holds s (wait_and_close_transport_on_exc t)"
  by (simp add: holds_def wait_and_close_transport_on_exc_def close_transport_def wps
      split: option.splits)

lemma pt_sock_made [simp]:
  "pt_sock (plain_transport k s p b) = s"
  "pt_sock (tls_transport k s p tls b) = s"
  by (simp_all add: plain_transport_def tls_transport_def)

lemmas holds_rules = holds_ret holds_andthen holds_bnd holds_if holds_add_transport holds_wait

lemma original_gives: "gives s (original_create_connection factory s)"
  unfolding original_create_connection_def
  by (rule gives_andthen, rule gives_then, rule gives_first)
    (auto intro!: gives_construct holds_rules)

lemma fallback_gives: "gives s (fallback_connection_transport factory s ssl tls server)"
proof (cases "ssl_on ssl")
  case True
  show ?thesis
    unfolding fallback_connection_transport_def if_P [OF True]
    by (intro gives_then gives_first [OF original_gives] holds_rules)
next
  case False
  have "holds s (case r of (t, p) \<Rightarrow>
            if server then andthen (upd (set_server t)) (ret (t, user_protocol p))
            else bnd (add_transport (plain_transport KWrapped None (PUser (user_protocol p)) False))
                (\<lambda>t. ret (t, user_protocol p)))" for r
    by (cases r; simp only: prod.case) (intro holds_rules holds_upd; simp)
  then show ?thesis
    unfolding fallback_connection_transport_def if_not_P [OF False]
    by (intro gives_first [OF original_gives])
qed

lemma native_gives: "gives s (native_transport s ssl tls server p)"
  unfolding native_transport_def
  by (intro gives_if gives_andthen gives_cond gives_construct pt_sock_made
      gives_then gives_first [OF gives_construct] holds_rules)

lemma create_connection_transport_gives:
  "gives s (create_connection_transport factory s ssl tls server)"
  unfolding create_connection_transport_def
  by (intro gives_andthen gives_cond fallback_gives gives_then [of _ _ factory]
      gives_first [OF native_gives] holds_rules)

lemma original_in: "steps_in same_open factory \<Longrightarrow> steps_in same_open (original_create_connection factory s)"
  unfolding original_create_connection_def by (intro open_rules)

lemma native_in: "steps_in same_open (native_transport s ssl tls server p)"
proof -
  have "steps_in same_open (case ssl of SslBool _ \<Rightarrow> net_call NSslContext | _ \<Rightarrow> ret ())"
    by (cases ssl; simp only: ssl_arg.case) (rule so.ret_in net_call_in)+
  then show ?thesis unfolding native_transport_def by (intro if_same_open open_rules)
qed

lemma fallback_in:
  "steps_in same_open factory \<Longrightarrow>
   steps_in same_open (fallback_connection_transport factory s ssl tls server)"
proof -
  assume f: "steps_in same_open factory"
  have wrap: "steps_in same_open (original_create_connection (bnd factory (\<lambda>p. ret (PWrap p))) s)"
    by (intro original_in open_rules f)
  have "steps_in same_open (case r of (t, p) \<Rightarrow>
            if server then andthen (upd (set_server t)) (ret (t, user_protocol p))
            else bnd (add_transport (plain_transport KWrapped None (PUser (user_protocol p)) False))
                (\<lambda>t. ret (t, user_protocol p)))" for r
    by (cases r; simp only: prod.case) (intro if_same_open open_rules upd_same_open open_socks_other)
  with wrap show ?thesis
    unfolding fallback_connection_transport_def
    by (intro if_same_open open_rules original_in f)
qed

lemma create_connection_transport_in:
  "steps_in same_open factory \<Longrightarrow>
   steps_in same_open (create_connection_transport factory s ssl tls server)"
  unfolding create_connection_transport_def
  by (intro if_same_open open_rules fallback_in native_in)

lemma create_connection_transport_wp:
  assumes "steps_in same_open factory" and "open_socks w = X"
  shows "wp (create_connection_transport factory s ssl tls server)
    (\<lambda>_ v. open_socks v = X \<and> owned s v) (\<lambda>_ v. open_socks v = X) w"
proof -
  have "wp (create_connection_transport factory s ssl tls server)
    (\<lambda>_ v. open_socks v = X) (\<lambda>_ v. open_socks v = X) w"
    using assms by (auto intro!: wp_same_open create_connection_transport_in)
  from wp_conj [OF this create_connection_transport_gives [unfolded gives_def, rule_format]]
  show ?thesis by simp
qed

section \<open>The whole call\<close>

definition exit_in_race :: "connection_args \<Rightarrow> exn \<Rightarrow> bool" where
  "exit_in_race a e = (ca_happy_eyeballs a \<noteq> None \<and> is_exit e)"

lemma connect_race_wp:
  "open_socks w = X \<Longrightarrow>
   wp (connect_race (ca_happy_eyeballs a) infos locals) (chosen X)
     (\<lambda>e v. exit_in_race a e \<or> open_socks v = X) w"
proof (cases "ca_happy_eyeballs a")
  case None
  assume "open_socks w = X"
  with None show ?thesis
    by (auto simp: connect_race_def intro: wp_weaken [OF connect_first_wp])
next
  case (Some es)
  assume "open_socks w = X"
  then have "race_inv X [] w" by (simp add: race_inv_def)
  from wp_weaken [OF staggered_race_wp [OF this]] Some show ?thesis
    by (auto simp: connect_race_def exit_in_race_def)
qed

lemma connect_by_name_wp:
  assumes "open_socks w = X"
  shows "wp (connect_by_name a) (\<lambda>s v. open_socks v = insert s X \<and> s \<notin> X)
    (\<lambda>e v. exit_in_race a e \<or> open_socks v = X) w"
proof -
  have locals: "steps_in same_open (case ca_local_addr a of
            None \<Rightarrow> ret None
          | Some l \<Rightarrow>
              bnd (resolve_nonempty l (ca_family a) SOCK_STREAM (ca_proto a) (ca_flags a))
                (\<lambda>ls. ret (Some ls)))"
    by (cases "ca_local_addr a"; simp only: option.case) (intro open_rules)+
  have pick: "wp (andthen (upd (\<lambda>w. w\<lparr>n_attempts := []\<rparr>))
              (bnd (connect_race (ca_happy_eyeballs a) infos locals) (\<lambda>r.
                case r of
                  Some s \<Rightarrow> ret s
                | None \<Rightarrow> bnd (gets n_attempts) (\<lambda>xs.
                    reraise (connect_error (ca_all_errors a) (concat xs))))))
       (\<lambda>s v. open_socks v = insert s X \<and> s \<notin> X)
       (\<lambda>e v. exit_in_race a e \<or> open_socks v = X) v"
    if "open_socks v = X" for infos locals v
    unfolding wp_andthen wp_upd wp_bnd using that
    by (intro wp_weaken [OF connect_race_wp])
      (auto simp: chosen_def wps split: option.splits)
  show ?thesis
    unfolding connect_by_name_def wp_bnd Let_def
  proof (rule wp_same_open [OF resolve_nonempty_in], rule wp_same_open [OF locals], goal_cases)
    case (1 infos u locals v)
    then show ?case using assms by (intro pick) simp
  qed (simp_all add: assms)
qed

lemma create_connection_wp:
  fixes a :: connection_args
  assumes f: "steps_in same_open protocol_factory" and X: "open_socks w = X"
  defines "owns \<equiv> ca_host a \<noteq> VNone \<or> ca_port a \<noteq> VNone"
  shows "wp (create_connection protocol_factory a)
    (\<lambda>_ v. if owns then \<exists>s. s \<notin> X \<and> open_socks v = insert s X \<and> owned s v else open_socks v = X)
    (\<lambda>e v. exit_in_race a e \<or> open_socks v = X) w" (is "wp _ ?Q ?E _")
proof -
  have T: "wp (try_except
               (create_connection_transport protocol_factory s (ca_ssl a) tls False)
               (\<lambda>e. andthen (if owns then sock_close s else ret ()) (reraise e))) ?Q ?E v"
    if v: "open_socks v = (if owns then insert s X else X)" and s: "owns \<Longrightarrow> s \<notin> X" for s tls v
  proof -
    have "wp (andthen (if owns then sock_close s else ret ()) (reraise e)) ?Q ?E u"
      if "open_socks u = (if owns then insert s X else X)" for e u
      using that s by (auto simp: sock_close_def wps split: option.splits)
    then show ?thesis
      unfolding wp_try_except
      by (intro wp_weaken [OF create_connection_transport_wp [OF f v]]) (auto simp: s split: if_splits intro: exI [of _ s])
  qed
  have G: "wp (if owns then (if ca_sock a \<noteq> None then raise ValueErr else connect_by_name a)
         else case ca_sock a of
           None \<Rightarrow> raise ValueErr
         | Some s \<Rightarrow> cond (\<lambda>w. so_type (sock w s) \<noteq> SOCK_STREAM) (raise ValueErr) (ret s))
      (\<lambda>s v. open_socks v = (if owns then insert s X else X) \<and> (owns \<longrightarrow> s \<notin> X)) ?E v"
    if "open_socks v = X" for v
    using connect_by_name_wp [OF that, of a]
    by (auto simp: wps that elim!: wp_weaken split: option.splits)
  have C: "steps_in same_open (case ca_sock a of None \<Rightarrow> ret () | Some s \<Rightarrow> check_non_ssl_socket s)"
    by (cases "ca_sock a"; simp only: option.case) (intro open_rules)+
  show ?thesis
    unfolding create_connection_def Let_def owns_def [symmetric] wp_bnd wp_andthen
  proof (rule wp_same_open [OF so.lift_exn_in], rule wp_same_open [OF validate_ssl_options_in],
      rule wp_same_open [OF C], rule wp_weaken [OF G], goal_cases)
    case (2 hostname u settings u' x u'' s v)
    then show ?case by (intro T) simp_all
  qed (simp_all add: X)
qed

text \<open>C21: \<open>create_connection\<close> never leaks a socket, whatever fails and in whatever order the
  attempts of a race end. When it raises, the open sockets are those from before the call;
  when it returns for a host and port, exactly one more socket is open and a transport owns it;
  when it is given a socket, it opens and closes none. Only the interpreter's exit in the
  middle of a race is left out. The application's protocol factory must not open or close
  sockets itself.
\<close>

theorem create_connection_no_leak:
  assumes "steps_in same_open protocol_factory"
  shows "case create_connection protocol_factory a w of
      (Inl e, w') \<Rightarrow> if exit_in_race a e then True else open_socks w' = open_socks w
    | (Inr _, w') \<Rightarrow>
        if ca_host a = VNone \<and> ca_port a = VNone then open_socks w' = open_socks w
        else \<exists>s. s \<notin> open_socks w \<and> open_socks w' = insert s (open_socks w) \<and> owned s w'"
  using create_connection_wp [OF assms refl, of a w]
  by (auto simp: wp_def split: prod.splits sum.splits if_splits)

text \<open>
  A world in which everything succeeds except the calls listed in \<open>bad\<close>, and a client of a
  host whose name has two addresses, the first of which refuses the connection.
\<close>

definition demo_net :: "(netcall \<times> exn) list \<Rightarrow> networld" where
  "demo_net bad =
     \<lparr>n_fails = (\<lambda>_ c. map_of bad c), n_calls = [],
      n_resolver = (\<lambda>_ _. Inr [demo_info 2 ''a'', demo_info 10 ''b'']),
      n_pton = (\<lambda>_ _. Some (exn_of (OSErr 22))), n_idna = (\<lambda>_. Inr []), n_repr = (\<lambda>_. ''addr''),
      n_os_nt = False, n_proactor = False, n_has_ipv6 = True, n_has_reuseport = True,
      n_has_openssl = True, n_socks = [], n_transports = [], n_attempts = []\<rparr>"

definition no_options :: ssl_options where
  "no_options = \<lparr>o_handshake = None, o_shutdown = None, o_incoming = None, o_outgoing = None\<rparr>"

definition demo_args :: connection_args where
  "demo_args =
     \<lparr>ca_host = VStr ''name'', ca_port = VInt 80, ca_ssl = SslNone, ca_family = 0, ca_proto = 0,
      ca_flags = 0, ca_sock = None, ca_local_addr = None, ca_server_hostname = VNone,
      ca_options = no_options, ca_happy_eyeballs = None, ca_interleave = None,
      ca_all_errors = False\<rparr>"

definition demo_refused :: networld where
  "demo_refused =
     demo_net [(NSockConnect 0 (ATuple [VStr ''a'', VInt 80]), exn_msg (OSErr 111) ''refused'')]"

lemmas demo_net_defs = demo_refused_def demo_net_def demo_args_def no_options_def demo_info_def

lemmas connection_defs = create_connection_def connection_hostname_def validate_ssl_options_def
  validate_ssl_timeout_def validate_bio_size_def connect_by_name_def resolve_nonempty_def
  ensure_resolved_def ipaddr_info_def loop_getaddrinfo_def connect_race_def connect_sock_def
  connect_open_def connect_finish_def new_attempt_def bind_to_local_def attempt_failed_def
  record_exn_def create_connection_transport_def native_transport_def
  wait_and_close_transport_on_exc_def

lemmas net_run = net_call_def log_call_def add_socket_def add_transport_def sock_update_def
  mark_closed_def

lemma create_connection_no_leak_witness:
  "\<exists>s. open_socks (snd (create_connection (ret 7) demo_args demo_refused)) = {s} \<and>
       owned s (snd (create_connection (ret 7) demo_args demo_refused)) \<and>
       fst (create_connection (ret 7) demo_args demo_refused) = Inr (0, 7)"
proof -
  have ok: "fst (create_connection (ret 7) demo_args demo_refused) = Inr (0, 7)"
    by (simp add: connection_defs net_ops net_run demo_net_defs run is_digit_def char_code_def
        socket_constants is_oserror_def exn_of_def exn_msg_def plain_transport_def)
  have none: "open_socks demo_refused = {}"
    by (simp add: open_socks_def demo_refused_def demo_net_def)
  have host: "ca_host demo_args \<noteq> VNone" by (simp add: demo_args_def)
  show ?thesis
    using create_connection_no_leak [OF so.ret_in [of 7], of demo_args demo_refused] ok none host
    by (cases "create_connection (ret 7) demo_args demo_refused") simp
qed

section \<open>What a failed connection reports\<close>

text \<open>
  \<open>recorded A w\<close>: the lists of the earlier attempts are \<open>A\<close> and the current attempt has its own
  list, of \<open>OSError\<close>s only. \<open>reported\<close>: and that list is not empty.
\<close>

definition recorded :: "exn list list \<Rightarrow> 'a networld_scheme \<Rightarrow> bool" where
  "recorded A w = (\<exists>xs. n_attempts w = A @ [xs] \<and> (\<forall>x \<in> set xs. is_oserror x))"

definition reported :: "exn list list \<Rightarrow> 'a networld_scheme \<Rightarrow> bool" where
  "reported A w = (\<exists>xs. n_attempts w = A @ [xs] \<and> xs \<noteq> [] \<and> (\<forall>x \<in> set xs. is_oserror x))"

lemma recorded_keep [simp]:
  "recorded A (log_call c w) = recorded A w"
  "recorded A (sock_update i f w) = recorded A w"
  "recorded A (w\<lparr>n_socks := ss\<rparr>) = recorded A w"
  "reported A (log_call c w) = reported A w"
  "reported A (sock_update i f w) = reported A w"
  by (simp_all add: recorded_def reported_def)














section \<open>UNIX sockets\<close>



end
