(* ===== verification/ServerProps.thy ===== *)
theory ServerProps
  imports Server ConnectProps
begin

text \<open>
  What a server guarantees: its waiters are released exactly when it is closed and its clients
  are gone, closing gives every listening socket back, an accepted connection is never lost, and
  where the accept loop and the start of serving do not keep what they promise.
\<close>

section \<open>The invariant\<close>

definition closes_ok :: "'a networld_scheme \<Rightarrow> bool" where
  "closes_ok w = (\<forall>n s. n_fails w n (NSockClose s) = None)"

definition pending_covered :: "nat set \<Rightarrow> 'a serverworld_scheme \<Rightarrow> bool" where
  "pending_covered W w =
     (\<forall>i < length (sv_futures w). sv_futures w ! i = FutPending \<longrightarrow>
        sv_forever w = Some i \<or> i \<in> W \<or> (\<exists>ws. sv_waiters w = Some ws \<and> i \<in> set ws))"

definition forever_valid :: "'a serverworld_scheme \<Rightarrow> bool" where
  "forever_valid w = (\<forall>i. sv_forever w = Some i \<longrightarrow> i < length (sv_futures w))"

definition released_when_done :: "'a serverworld_scheme \<Rightarrow> bool" where
  "released_when_done w = ((sv_waiters w = None) = (sv_sockets w = None \<and> sv_clients w = []))"

definition forever_over :: "'a serverworld_scheme \<Rightarrow> bool" where
  "forever_over w =
     (sv_sockets w = None \<longrightarrow> (\<forall>i. sv_forever w = Some i \<longrightarrow> sv_futures w ! i \<noteq> FutPending))"

definition server_inv :: "'a serverworld_scheme \<Rightarrow> bool" where
  "server_inv w =
     (closes_ok w \<and> pending_covered {} w \<and> forever_valid w \<and> released_when_done w \<and>
      forever_over w \<and> set (sv_readers w) \<subseteq> set (server_sockets w))"

lemmas server_inv_defs = server_inv_def closes_ok_def pending_covered_def forever_valid_def
  released_when_done_def forever_over_def server_sockets_def

lemma server_inv_net [simp]:
  "server_inv (log_call c w) = server_inv w"
  "server_inv (sock_update i f w) = server_inv w"
  "server_inv (w\<lparr>n_socks := ss\<rparr>) = server_inv w"
  "server_inv (w\<lparr>n_transports := ts\<rparr>) = server_inv w"
  "server_inv (mark_closed t w) = server_inv w"
  "server_inv (set_server t w) = server_inv w"
  "server_inv (w\<lparr>sv_tasks := cs\<rparr>) = server_inv w"
  "server_inv (w\<lparr>sv_handler := hs\<rparr>) = server_inv w"
  "server_inv (w\<lparr>sv_timers := tms\<rparr>) = server_inv w"
  "server_inv (w\<lparr>sv_serving := b\<rparr>) = server_inv w"
  by (simp_all add: server_inv_defs log_call_def sock_update_def mark_closed_def set_server_def)

abbreviation keeps_inv :: "('a serverworld_scheme, 'b) prog \<Rightarrow> bool" where
  "keeps_inv m \<equiv> steps_in (keeping server_inv) m"

lemma keeps_upd: "(\<And>w. server_inv w \<Longrightarrow> server_inv (f w)) \<Longrightarrow> keeps_inv (upd f)"
  by (simp add: steps_in_def keeping_def)

lemma keeps_if: "keeps_inv m \<Longrightarrow> keeps_inv n \<Longrightarrow> keeps_inv (if b then m else n)"
  by simp

lemma net_call_keeps: "keeps_inv (net_call c)"
  by (rule steps_in_keeping_wp) (simp add: wps split: option.splits)

lemma add_socket_keeps: "keeps_inv (add_socket s)"
  by (simp add: steps_in_def keeping_def add_socket_def)

lemma add_transport_keeps: "keeps_inv (add_transport t)"
  by (simp add: steps_in_def keeping_def add_transport_def)

lemma setblocking_keeps: "keeps_inv (sock_setblocking s b)"
  unfolding sock_setblocking_def by (intro keep.order_rules net_call_keeps keeps_upd) simp

lemma sock_close_keeps: "keeps_inv (sock_close s)"
  unfolding sock_close_def by (intro keep.order_rules net_call_keeps keeps_upd) simp

lemma construct_keeps: "keeps_inv (construct t)"
  unfolding construct_def by (intro keep.order_rules net_call_keeps add_transport_keeps)

lemma transport_end_keeps: "keeps_inv (close_transport t)" "keeps_inv (abort_transport t)"
  unfolding close_transport_def abort_transport_def
  by (intro keep.order_rules net_call_keeps keeps_upd; simp)+

lemma wait_and_close_keeps: "keeps_inv (wait_and_close_transport_on_exc t)"
  unfolding wait_and_close_transport_on_exc_def
  by (intro keep.order_rules net_call_keeps transport_end_keeps)

lemmas net_keeps = keep.order_rules net_call_keeps add_socket_keeps add_transport_keeps
  setblocking_keeps sock_close_keeps construct_keeps transport_end_keeps wait_and_close_keeps

lemma original_keeps: "keeps_inv factory \<Longrightarrow> keeps_inv (original_create_connection factory s)"
  unfolding original_create_connection_def by (intro net_keeps)

lemma fallback_keeps:
  assumes "keeps_inv factory"
  shows "keeps_inv (fallback_connection_transport factory s ssl tls server)"
proof -
  have "keeps_inv (original_create_connection (bnd factory (\<lambda>p. ret (PWrap p))) s)"
    by (intro original_keeps net_keeps assms)
  moreover have "keeps_inv (case r of (t, p) \<Rightarrow>
            if server then andthen (upd (set_server t)) (ret (t, user_protocol p))
            else bnd (add_transport (plain_transport KWrapped None (PUser (user_protocol p)) False))
                (\<lambda>t. ret (t, user_protocol p)))" for r :: "nat \<times> protocol_ref"
    by (cases r; simp only: prod.case) (intro keeps_if net_keeps keeps_upd; simp)
  ultimately show ?thesis
    unfolding fallback_connection_transport_def
    by (intro keeps_if net_keeps original_keeps assms)
qed

lemma native_keeps: "keeps_inv (native_transport s ssl tls server p)"
proof -
  have "keeps_inv (case ssl of SslBool _ \<Rightarrow> net_call NSslContext | _ \<Rightarrow> ret ())"
    by (cases ssl; simp only: ssl_arg.case) (rule keep.ret_in net_call_keeps)+
  then show ?thesis unfolding native_transport_def by (intro keeps_if net_keeps)
qed

lemma create_connection_transport_keeps:
  "keeps_inv factory \<Longrightarrow> keeps_inv (create_connection_transport factory s ssl tls server)"
  unfolding create_connection_transport_def
  by (intro keeps_if net_keeps fallback_keeps native_keeps)

section \<open>Every operation keeps it\<close>

lemma accept_loop_keeps: "keeps_inv (accept_loop n s)"
proof (induction n)
  case (Suc n)
  have "keeps_inv (accept_out_of_resources s e)" for e
    unfolding accept_out_of_resources_def socket_remove_reader_def
    by (intro net_keeps keeps_upd; simp)
  moreover have "keeps_inv (upd (\<lambda>w. w\<lparr>sv_tasks := sv_tasks w @ [conn]\<rparr>))" for conn
    by (intro keeps_upd) simp
  ultimately show ?case
    unfolding accept_loop.simps sock_accept_call_def
    by (intro keeps_if net_keeps Suc)
qed (simp only: accept_loop.simps keep.ret_in)

lemma open_clients_inv:
  "server_inv w \<Longrightarrow> sv_sockets w = Some ss \<Longrightarrow> server_inv (w\<lparr>sv_clients := ts\<rparr>)"
  by (simp add: server_inv_defs)

lemma attach_keeps: "keeps_inv (server_attach t)"
  by (rule steps_in_keeping_wp) (auto simp: server_attach_def wps intro: open_clients_inv)

lemma accept_connection2_keeps:
  assumes "keeps_inv factory"
  shows "keeps_inv (accept_connection2 factory conn)"
proof -
  have "keeps_inv (case r of (t, _) \<Rightarrow>
      cond (\<lambda>w. sv_sockets w = None) (abort_transport t) (server_attach t))" for r :: "nat \<times> nat"
    by (cases r; simp only: prod.case) (intro net_keeps attach_keeps)
  moreover have "keeps_inv (case r of (ssl, settings) \<Rightarrow>
           create_connection_transport factory conn ssl
             \<lparr>tls_settings = settings, tls_hostname = VNone, tls_server_side = True\<rparr> True)" for r
    by (cases r; simp only: prod.case) (intro create_connection_transport_keeps assms)
  ultimately show ?thesis
    unfolding accept_connection2_def by (intro keeps_if net_keeps)
qed

text \<open>A loop of statements keeps what every round keeps.\<close>

lemma wp_for_each:
  assumes "\<And>x v. x \<in> set xs \<Longrightarrow> I v \<Longrightarrow> wp (f x) (\<lambda>_. I) (\<lambda>_. I) v" and "I w"
  shows "wp (for_each xs f) (\<lambda>_. I) (\<lambda>_. I) w"
  using assms
proof (induction xs arbitrary: w)
  case Nil
  then show ?case by (simp add: wp_def)
next
  case (Cons x xs)
  then show ?case
    unfolding for_each.simps wp_andthen
    by (intro wp_weaken [OF Cons.prems(1) [of x w]] Cons.IH) auto
qed

lemma start_serving_keeps: "keeps_inv start_serving"
proof (rule steps_in_keeping_wp)
  fix w :: "'a serverworld_scheme"
  assume w: "server_inv w"
  have one: "wp (block [bnd (gets sv_backlog) (\<lambda>b. sock_listen s b), start_serving_one_listener s])
      (\<lambda>_ v. server_inv v \<and> sv_sockets v = Some ss) (\<lambda>_ v. server_inv v \<and> sv_sockets v = Some ss) v"
    if "s \<in> set ss" "server_inv v \<and> sv_sockets v = Some ss" for s ss and v :: "'a serverworld_scheme"
  proof -
    have "server_inv (u\<lparr>sv_readers := List.insert s (sv_readers u)\<rparr>)"
      if "server_inv u" "sv_sockets u = Some ss" for u :: "'a serverworld_scheme"
      using that \<open>s \<in> set ss\<close> by (auto simp: server_inv_defs)
    then show ?thesis
      using that(2) by (auto simp: sock_listen_def start_serving_one_listener_def loop_add_reader_def
          log_call_def [of "NListen _ _"] wps split: option.splits) (simp_all add: server_inv_defs)
  qed
  show "wp start_serving (\<lambda>_. server_inv) (\<lambda>_. server_inv) w"
    unfolding start_serving_def
    using w by (auto simp: wps intro!: wp_weaken [OF wp_for_each [OF one]] split: option.splits)
qed

definition same_server :: "'a serverworld_scheme \<Rightarrow> 'a serverworld_scheme \<Rightarrow> bool" where
  "same_server w v =
     (sv_sockets v = sv_sockets w \<and> sv_clients v = sv_clients w \<and> sv_waiters v = sv_waiters w \<and>
      sv_forever v = sv_forever w \<and> sv_futures v = sv_futures w \<and> n_fails v = n_fails w)"

lemma open_socks_server [simp]:
  "open_socks (w\<lparr>sv_readers := rs\<rparr>) = open_socks w"
  "open_socks (w\<lparr>sv_sockets := ss\<rparr>) = open_socks w"
  "open_socks (w\<lparr>sv_serving := b\<rparr>) = open_socks w"
  "open_socks (w\<lparr>sv_forever := f\<rparr>) = open_socks w"
  "open_socks (w\<lparr>sv_futures := fs\<rparr>) = open_socks w"
  "open_socks (w\<lparr>sv_waiters := ws\<rparr>) = open_socks w"
  by (simp_all add: open_socks_def)

lemma close_all_wp:
  assumes "closes_ok w" and "set (sv_readers w) \<subseteq> set ss"
  shows "wp (for_each ss (\<lambda>s. block [loop_remove_reader s, sock_close s]))
    (\<lambda>_ v. same_server w v \<and> sv_readers v = [] \<and> open_socks v = open_socks w - set ss)
    (\<lambda>_ _. False) w"
  using assms
proof (induction ss arbitrary: w)
  case Nil
  then show ?case by (simp add: wp_def same_server_def)
next
  case (Cons s ss)
  let ?v = "log_call (NSockClose s) (sock_update s (so_open_update (\<lambda>_. False))
              (w\<lparr>sv_readers := removeAll s (sv_readers w)\<rparr>))"
  have v: "same_server w ?v" "closes_ok ?v" "set (sv_readers ?v) \<subseteq> set ss"
    using Cons.prems by (auto simp: same_server_def closes_ok_def log_call_def sock_update_def)
  have opn: "open_socks ?v = open_socks w - {s}" by simp
  have body: "wp (block [loop_remove_reader s, sock_close s]) Q E w = Q () ?v" for Q E
    using Cons.prems(1) by (simp add: loop_remove_reader_def sock_close_def wps closes_ok_def)
  show ?case
    unfolding for_each.simps wp_andthen body
    by (rule wp_weaken [OF Cons.IH [OF v(2,3)]]) (use v(1) opn in \<open>auto simp: same_server_def\<close>)
qed

definition settled :: "nat set \<Rightarrow> 'a serverworld_scheme \<Rightarrow> 'a serverworld_scheme \<Rightarrow> bool" where
  "settled S w v =
     (sv_sockets v = sv_sockets w \<and> sv_clients v = sv_clients w \<and> sv_waiters v = sv_waiters w \<and>
      sv_forever v = sv_forever w \<and> sv_readers v = sv_readers w \<and>
      sv_serving v = sv_serving w \<and> n_fails v = n_fails w \<and> n_socks v = n_socks w \<and> length (sv_futures v) = length (sv_futures w) \<and>
      (\<forall>j < length (sv_futures w). sv_futures v ! j = FutPending \<longrightarrow>
         j \<notin> S \<and> sv_futures w ! j = FutPending))"

lemma settled_refl: "settled {} w w"
  by (simp add: settled_def)

lemma settled_trans: "settled S w u \<Longrightarrow> settled T u v \<Longrightarrow> settled (S \<union> T) w v"
  by (simp add: settled_def)

lemma settle_wp:
  assumes "r \<noteq> FutPending"
  shows "wp (settle_future r i) (\<lambda>_. settled {i} w) (\<lambda>_ _. False) w"
proof -
  have "settled {i} w (w\<lparr>sv_futures := (sv_futures w)[i := r]\<rparr>)"
  proof -
    have "j \<noteq> i \<and> sv_futures w ! j = FutPending"
      if "j < length (sv_futures w)" "(sv_futures w)[i := r] ! j = FutPending" for j
      using that assms by (cases "i = j") auto
    then show ?thesis by (simp add: settled_def)
  qed
  moreover have "settled {i} w w" if "future_done i w"
    using that by (auto simp: settled_def future_done_def)
  ultimately show ?thesis
    by (simp add: settle_future_def wps)
qed

lemma settle_all_wp:
  "wp (for_each is (settle_future FutResult)) (\<lambda>_. settled (set is) w) (\<lambda>_ _. False) w"
proof (induction "is" arbitrary: w)
  case Nil
  then show ?case by (simp add: wp_def settled_refl)
next
  case (Cons i "is")
  have "settled (set (i # is)) w v" if "settled {i} w u" "settled (set is) u v" for u v
    using settled_trans [OF that] by simp
  then show ?case
    unfolding for_each.simps wp_andthen
    by (intro wp_weaken [OF settle_wp] wp_weaken [OF Cons.IH]) simp_all
qed

lemma wakeup_wp:
  assumes "closes_ok w" "pending_covered {} w" "forever_valid w" "forever_over w"
    "set (sv_readers w) \<subseteq> set (server_sockets w)" "sv_sockets w = None" "sv_clients w = []"
  shows "wp server_wakeup
    (\<lambda>_ v. server_inv v \<and> sv_sockets v = None \<and> sv_clients v = sv_clients w \<and>
           sv_serving v = sv_serving w \<and> sv_readers v = sv_readers w \<and> open_socks v = open_socks w)
    (\<lambda>_ _. False) w"
proof (cases "sv_waiters w")
  case None
  with assms have "server_inv w" by (simp add: server_inv_def released_when_done_def)
  with None assms(6) show ?thesis by (simp add: server_wakeup_def wps)
next
  case (Some ws)
  have "server_inv v \<and> sv_sockets v = None \<and> sv_clients v = sv_clients w \<and>
      sv_serving v = sv_serving w \<and> sv_readers v = sv_readers w \<and> open_socks v = open_socks w"
    if "settled (set ws) (w\<lparr>sv_waiters := None\<rparr>) v" for v
  proof -
    from that have fields: "n_fails v = n_fails w" "sv_waiters v = None" "sv_sockets v = None"
      "sv_clients v = []" "sv_forever v = sv_forever w" "sv_readers v = sv_readers w"
      "sv_serving v = sv_serving w" "n_socks v = n_socks w" "length (sv_futures v) = length (sv_futures w)"
      using assms(6,7) by (simp_all add: settled_def)
    have pend: "j \<notin> set ws \<and> sv_futures w ! j = FutPending"
      if "j < length (sv_futures w)" "sv_futures v ! j = FutPending" for j
      using that \<open>settled _ _ v\<close> by (simp add: settled_def)
    have "pending_covered {} v"
      using assms(2) Some pend fields unfolding pending_covered_def by fastforce
    moreover have "forever_valid v"
      using assms(3) fields by (simp add: forever_valid_def)
    moreover have "forever_over v"
      using assms(3,4,6) pend fields by (simp add: forever_over_def forever_valid_def) blast
    ultimately show ?thesis
      using assms(1,5,6,7) fields
      by (simp add: server_inv_def closes_ok_def released_when_done_def server_sockets_def
          open_socks_def)
  qed
  then show ?thesis
    unfolding server_wakeup_def wp_bnd wp_gets Some option.case wp_andthen wp_upd
    by (intro wp_weaken [OF settle_all_wp]) simp_all
qed

lemma detach_keeps: "keeps_inv (server_detach t)"
proof (rule steps_in_keeping_wp)
  fix w :: "'a serverworld_scheme"
  assume w: "server_inv w"
  let ?v = "w\<lparr>sv_clients := removeAll t (sv_clients w)\<rparr>"
  have base: "closes_ok ?v" "pending_covered {} ?v" "forever_valid ?v" "forever_over ?v"
    "set (sv_readers ?v) \<subseteq> set (server_sockets ?v)"
    using w by (simp_all add: server_inv_defs)
  have stay: "server_inv ?v" if "\<not> (sv_clients ?v = [] \<and> sv_sockets ?v = None)"
    using w that base by (auto simp: server_inv_def released_when_done_def)
  show "wp (server_detach t) (\<lambda>_. server_inv) (\<lambda>_. server_inv) w"
    unfolding server_detach_def wp_block wp_upd wp_only_if
  proof (cases "sv_clients ?v = [] \<and> sv_sockets ?v = None")
    case True
    then show "if sv_clients ?v = [] \<and> sv_sockets ?v = None
        then wp server_wakeup (\<lambda>_. server_inv) (\<lambda>_. server_inv) ?v else server_inv ?v"
      unfolding if_P [OF True] by (intro wp_weaken [OF wakeup_wp [OF base]]) auto
  next
    case False
    show "if sv_clients ?v = [] \<and> sv_sockets ?v = None
        then wp server_wakeup (\<lambda>_. server_inv) (\<lambda>_. server_inv) ?v else server_inv ?v"
      unfolding if_not_P [OF False] by (rule stay [OF False])
  qed
qed

text \<open>The part of \<open>close\<close> that ends \<open>serve_forever\<close>.\<close>

definition cancel_forever :: "('a serverworld_scheme, unit) prog" where
  "cancel_forever =
     bnd (gets sv_forever) (\<lambda>f.
       case f of
         None \<Rightarrow> ret ()
       | Some i \<Rightarrow>
           unless (future_done i)
             (block [settle_future FutCancelled i, upd (\<lambda>w. w\<lparr>sv_forever := None\<rparr>)]))"

definition closing :: "'a serverworld_scheme \<Rightarrow> 'a serverworld_scheme \<Rightarrow> bool" where
  \<comment> \<open>what holds of the state \<open>v\<close> of a server that is being closed, \<open>w\<close> before\<close>
  "closing w v =
     (closes_ok v \<and> pending_covered {} v \<and> forever_valid v \<and> forever_over v \<and>
      sv_readers v = [] \<and> sv_sockets v = None \<and> sv_clients v = sv_clients w \<and>
      sv_waiters v = sv_waiters w \<and> \<not> sv_serving v \<and> open_socks v = open_socks w - set (server_sockets w))"

lemma cancel_forever_wp:
  assumes "closes_ok u" "pending_covered {} u" "forever_valid u"
  shows "wp cancel_forever
    (\<lambda>_ v. closes_ok v \<and> pending_covered {} v \<and> forever_valid v \<and>
           (\<forall>i. sv_forever v = Some i \<longrightarrow> sv_futures v ! i \<noteq> FutPending) \<and>
           sv_readers v = sv_readers u \<and> sv_sockets v = sv_sockets u \<and> sv_clients v = sv_clients u \<and>
           sv_waiters v = sv_waiters u \<and> sv_serving v = sv_serving u \<and> open_socks v = open_socks u)
    (\<lambda>_ _. False) u" (is "wp _ ?Q _ _")
proof (cases "sv_forever u")
  case None
  with assms show ?thesis by (simp add: cancel_forever_def wps)
next
  case (Some i)
  show ?thesis
  proof (cases "future_done i u")
    case True
    with assms Some show ?thesis by (simp add: cancel_forever_def wps future_done_def)
  next
    case False
    have "?Q () (v\<lparr>sv_forever := None\<rparr>)" if v: "settled {i} u v" for v
    proof -
      have "j \<noteq> i \<and> sv_futures u ! j = FutPending"
        if "j < length (sv_futures u)" "sv_futures v ! j = FutPending" for j
        using v that by (simp add: settled_def)
      then have "pending_covered {} (v\<lparr>sv_forever := None\<rparr>)"
        using assms(2) v Some by (auto simp: pending_covered_def settled_def)
      with assms v show ?thesis
        by (simp add: settled_def closes_ok_def forever_valid_def open_socks_def)
    qed
    with Some False show ?thesis
      unfolding cancel_forever_def wp_bnd wp_gets Some option.case wp_unless wp_block wp_upd
      by (auto intro!: wp_weaken [OF settle_wp])
  qed
qed

lemma server_close_wp:
  assumes w: "server_inv w" and ss: "sv_sockets w = Some ss"
  shows "wp server_close
    (\<lambda>_ v. server_inv v \<and> sv_sockets v = None \<and> sv_readers v = [] \<and> \<not> sv_serving v \<and>
           sv_clients v = sv_clients w \<and> open_socks v = open_socks w - set ss)
    (\<lambda>_ _. False) w" (is "wp _ ?Q _ _")
proof -
  let ?w = "w\<lparr>sv_sockets := None\<rparr>"
  have start: "closes_ok ?w" "set (sv_readers ?w) \<subseteq> set ss"
    using w ss by (simp_all add: server_inv_defs)
  have mid: "closes_ok (u\<lparr>sv_serving := False\<rparr>)" "pending_covered {} (u\<lparr>sv_serving := False\<rparr>)"
    "forever_valid (u\<lparr>sv_serving := False\<rparr>)" if "same_server ?w u" for u
    using that w by (simp_all add: same_server_def server_inv_defs)
  have "closing w v"
    if u: "same_server ?w u" "sv_readers u = []" "open_socks u = open_socks ?w - set ss"
      and v: "closes_ok v \<and> pending_covered {} v \<and> forever_valid v \<and>
           (\<forall>i. sv_forever v = Some i \<longrightarrow> sv_futures v ! i \<noteq> FutPending) \<and>
           sv_readers v = sv_readers (u\<lparr>sv_serving := False\<rparr>) \<and>
           sv_sockets v = sv_sockets (u\<lparr>sv_serving := False\<rparr>) \<and>
           sv_clients v = sv_clients (u\<lparr>sv_serving := False\<rparr>) \<and>
           sv_waiters v = sv_waiters (u\<lparr>sv_serving := False\<rparr>) \<and>
           sv_serving v = sv_serving (u\<lparr>sv_serving := False\<rparr>) \<and>
           open_socks v = open_socks (u\<lparr>sv_serving := False\<rparr>)" for u v
    using u v ss by (simp add: closing_def same_server_def forever_over_def server_sockets_def)
  moreover have "if sv_clients v = [] then wp server_wakeup ?Q (\<lambda>_ _. False) v else ?Q () v"
    if "closing w v" for v
  proof (cases "sv_clients v = []")
    case True
    from that have "closes_ok v" "pending_covered {} v" "forever_valid v" "forever_over v"
      "set (sv_readers v) \<subseteq> set (server_sockets v)" "sv_sockets v = None"
      by (simp_all add: closing_def)
    from wakeup_wp [OF this True] show ?thesis
      unfolding if_P [OF True]
      by (rule wp_weaken) (use that ss in \<open>auto simp: closing_def server_sockets_def\<close>)
  next
    case False
    have "sv_waiters w \<noteq> None" using w ss by (simp add: server_inv_defs)
    with False that ss show ?thesis
      by (simp add: closing_def server_inv_def released_when_done_def server_sockets_def)
  qed
  ultimately show ?thesis
    unfolding server_close_def cancel_forever_def [symmetric] wp_bnd [of "gets sv_sockets"] wp_gets
      ss option.case wp_block wp_upd wp_only_if
    by (intro wp_weaken [OF close_all_wp [OF start]] wp_weaken [OF cancel_forever_wp]; (elim conjE)?)
      (use mid in blast)+
qed

lemma server_close_keeps: "keeps_inv server_close"
proof (rule steps_in_keeping_wp)
  fix w :: "'a serverworld_scheme"
  assume w: "server_inv w"
  show "wp server_close (\<lambda>_. server_inv) (\<lambda>_. server_inv) w"
  proof (cases "sv_sockets w")
    case None
    with w show ?thesis by (simp add: server_close_def wps)
  next
    case (Some ss)
    from server_close_wp [OF w this] show ?thesis by (rule wp_weaken) auto
  qed
qed

lemma new_waiter_inv:
  assumes "server_inv w" and "sv_waiters w = Some ws"
  shows "server_inv (w\<lparr>sv_futures := sv_futures w @ [FutPending],
                       sv_waiters := Some (ws @ [length (sv_futures w)])\<rparr>)"
  using assms by (auto simp: server_inv_defs nth_append less_Suc_eq)

lemma wait_closed_keeps: "keeps_inv wait_closed"
  by (rule steps_in_keeping_wp)
    (auto simp: wait_closed_def wps wp_def [of new_future] new_future_def intro: new_waiter_inv)

lemma end_forever_inv:
  assumes "server_inv w" and "\<And>i. sv_forever w = Some i \<Longrightarrow> future_done i w"
  shows "server_inv (w\<lparr>sv_forever := None\<rparr>)"
proof -
  have "\<exists>ws. sv_waiters w = Some ws \<and> i \<in> set ws"
    if "i < length (sv_futures w)" "sv_futures w ! i = FutPending" for i
  proof -
    have "sv_forever w \<noteq> Some i" using assms(2) that by (auto simp: future_done_def)
    with assms(1) that show ?thesis by (auto simp: server_inv_def pending_covered_def)
  qed
  then have "pending_covered {} (w\<lparr>sv_forever := None\<rparr>)" by (simp add: pending_covered_def)
  with assms(1) show ?thesis
    by (simp add: server_inv_def closes_ok_def forever_valid_def released_when_done_def
        forever_over_def server_sockets_def)
qed

lemma start_forever_inv:
  assumes "server_inv w" and "sv_forever w = None" and "sv_sockets w = Some ss"
  shows "server_inv (w\<lparr>sv_futures := sv_futures w @ [FutPending],
                       sv_forever := Some (length (sv_futures w))\<rparr>)"
  using assms by (auto simp: server_inv_defs nth_append less_Suc_eq)

text \<open>\<open>_start_serving\<close> leaves everything else of the server alone.\<close>

lemma start_serving_frame:
  fixes w :: "'a serverworld_scheme"
  shows "wp start_serving (\<lambda>_ v. sv_forever v = sv_forever w \<and> sv_sockets v = sv_sockets w) (\<lambda>_ _. True) w"
proof -
  let ?I = "\<lambda>v :: 'a serverworld_scheme. sv_forever v = sv_forever w \<and> sv_sockets v = sv_sockets w"
  have one: "wp (block [bnd (gets sv_backlog) (\<lambda>b. sock_listen s b), start_serving_one_listener s])
      (\<lambda>_. ?I) (\<lambda>_. ?I) v" if "?I v" for s v
    using that
    by (auto simp: sock_listen_def start_serving_one_listener_def loop_add_reader_def log_call_def
        wps split: option.splits)
  have "wp (for_each ss (\<lambda>s. block [bnd (gets sv_backlog) (\<lambda>b. sock_listen s b),
                                   start_serving_one_listener s]))
      (\<lambda>_. ?I) (\<lambda>_ _. True) v" if "?I v" for ss v
    by (rule wp_weaken [OF wp_for_each [where I = ?I]]) (use that one in auto)
  then show ?thesis
    unfolding start_serving_def wp_unless wp_block wp_upd wp_bnd [of "gets sv_sockets"] wp_gets
    by (cases "sv_sockets w") (auto simp: wp_raise)
qed

lemma serve_forever_keeps: "keeps_inv serve_forever"
proof (rule steps_in_keeping_wp)
  fix w :: "'a serverworld_scheme"
  assume w: "server_inv w"
  have "wp start_serving (\<lambda>_. server_inv) (\<lambda>_. server_inv) w"
    using w by (intro wp_steps_in [OF start_serving_keeps]) (auto simp: keeping_def)
  from wp_conj [OF this start_serving_frame]
  show "wp serve_forever (\<lambda>_. server_inv) (\<lambda>_. server_inv) w"
    unfolding serve_forever_def wp_cond wp_raise wp_andthen wp_bnd wp_upd wp_ret
    using w by (auto simp: wp_def [of new_future] new_future_def elim!: wp_weaken
        intro: start_forever_inv)
qed

lemma closed_forever_done:
  "server_inv w \<Longrightarrow> sv_sockets w = None \<Longrightarrow> sv_forever w = Some i \<Longrightarrow> future_done i w"
  by (simp add: server_inv_defs future_done_def)

lemma server_close_closes:
  assumes w: "server_inv w"
  shows "wp server_close (\<lambda>_ v. server_inv v \<and> sv_sockets v = None) (\<lambda>_ _. False) w"
proof (cases "sv_sockets w")
  case None
  with w show ?thesis by (simp add: server_close_def wps)
next
  case (Some ss)
  from server_close_wp [OF w this] show ?thesis by (rule wp_weaken) auto
qed

lemma wait_closed_wp:
  "server_inv w \<Longrightarrow> sv_sockets w = None \<Longrightarrow>
   wp wait_closed (\<lambda>_ v. server_inv v \<and> sv_sockets v = None) (\<lambda>_ _. False) w"
  by (auto simp: wait_closed_def wps wp_def [of new_future] new_future_def intro: new_waiter_inv)

lemma serve_forever_end_wp:
  assumes "server_inv w" and "\<And>i. sv_forever w = Some i \<Longrightarrow> future_done i w"
  shows "wp serve_forever_end Q (\<lambda>_. server_inv) w"
  using end_forever_inv [OF assms] by (simp add: serve_forever_end_def wps)

lemma cancelled_keeps:
  assumes w: "server_inv w"
  shows "wp (bnd serve_forever_cancelled (\<lambda>r.
               case r of None \<Rightarrow> serve_forever_end | Some _ \<Rightarrow> ret ()))
           (\<lambda>_. server_inv) (\<lambda>_. server_inv) w"
proof -
  have finish: "wp (case r of None \<Rightarrow> serve_forever_end | Some _ \<Rightarrow> ret ())
      (\<lambda>_. server_inv) (\<lambda>_. server_inv) v" if "server_inv v \<and> sv_sockets v = None"
    for r :: "nat option" and v :: "'a serverworld_scheme"
    using that by (cases r) (auto simp: wps intro: serve_forever_end_wp closed_forever_done)
  show ?thesis
    unfolding serve_forever_cancelled_def wp_bnd wp_try_except wp_andthen
    by (rule wp_weaken [OF server_close_closes [OF w]])
      (auto intro!: wp_weaken [OF wait_closed_wp] finish)
qed

lemma settle_done_inv:
  assumes "server_inv w" and "r \<noteq> FutPending"
  shows "wp (settle_future r i) (\<lambda>_. server_inv) (\<lambda>_ _. False) w"
proof (rule wp_weaken [OF settle_wp [OF assms(2)]])
  fix v
  assume v: "settled {i} w v"
  then have "j \<noteq> i \<and> sv_futures w ! j = FutPending"
    if "j < length (sv_futures w)" "sv_futures v ! j = FutPending" for j
    using that by (simp add: settled_def)
  with assms(1) v show "server_inv v"
    by (simp add: server_inv_defs settled_def) blast
qed

lemma server_do_keeps:
  assumes "keeps_inv factory"
  shows "keeps_inv (server_do factory ev)"
proof (cases ev)
  case EvTask
  have "keeps_inv (case ts of [] \<Rightarrow> ret () | conn # cs \<Rightarrow>
          andthen (upd (\<lambda>w. w\<lparr>sv_tasks := cs\<rparr>)) (accept_connection2 factory conn))" for ts
    by (cases ts; simp only: list.case)
      (intro net_keeps keeps_upd accept_connection2_keeps assms; simp)+
  then show ?thesis unfolding EvTask server_do.simps by (intro net_keeps)
next
  case EvServeCancelled
  show ?thesis
  proof (rule steps_in_keeping_wp)
    fix w :: "'a serverworld_scheme"
    assume w: "server_inv w"
    have "wp (andthen (settle_future FutCancelled i) (bnd serve_forever_cancelled (\<lambda>r.
               case r of None \<Rightarrow> serve_forever_end | Some _ \<Rightarrow> ret ())))
         (\<lambda>_. server_inv) (\<lambda>_. server_inv) w" for i
      unfolding wp_andthen
      by (rule wp_weaken [OF settle_done_inv [OF w]]) (auto intro: cancelled_keeps)
    with w show "wp (server_do factory ev) (\<lambda>_. server_inv) (\<lambda>_. server_inv) w"
      unfolding EvServeCancelled server_do.simps wp_bnd [of "gets sv_forever"] wp_gets
      by (cases "sv_forever w") (simp_all only: option.case wp_ret)
  qed
next
  case EvServeEnd
  show ?thesis
    unfolding EvServeEnd server_do.simps
    by (rule steps_in_keeping_wp)
      (auto simp: wp_only_if intro!: serve_forever_end_wp split: option.splits)
next
  case (EvReady s)
  show ?thesis unfolding EvReady server_do.simps accept_connection_def
    by (intro net_keeps accept_loop_keeps)
qed (simp_all only: server_do.simps close_clients_def abort_clients_def,
    (intro net_keeps start_serving_keeps server_close_keeps detach_keeps wait_closed_keeps
      serve_forever_keeps)+)

section \<open>Properties of the server\<close>

inductive server_reach ::
  "('a serverworld_scheme, nat) prog \<Rightarrow> 'a serverworld_scheme \<Rightarrow> 'a serverworld_scheme \<Rightarrow> bool"
  for factory w0 where
  reach_start: "server_reach factory w0 w0"
| reach_step: "server_reach factory w0 w \<Longrightarrow> server_reach factory w0 (snd (server_do factory ev w))"

lemma server_run_reach:
  "server_reach factory w0 w \<Longrightarrow> server_reach factory w0 (server_run factory evs w)"
  by (induction evs arbitrary: w) (auto intro: reach_step)

lemma reach_inv:
  assumes "keeps_inv factory" and "server_inv w0" and "server_reach factory w0 w"
  shows "server_inv w"
  using assms(3,2)
proof induction
  case (reach_step w ev)
  then show ?case using server_do_keeps [OF assms(1), of ev] by (blast intro: steps_in_keepingD)
qed

text \<open>
  A server that has just been made and not started, in a world where closing a socket does not
  fail.
\<close>

definition fresh_server :: "nat list \<Rightarrow> 'a serverworld_scheme \<Rightarrow> bool" where
  "fresh_server ss w =
     (closes_ok w \<and> sv_sockets w = Some ss \<and> sv_clients w = [] \<and> sv_waiters w = Some [] \<and>
      \<not> sv_serving w \<and> sv_forever w = None \<and> sv_futures w = [] \<and> sv_readers w = [])"

lemma fresh_server_inv: "fresh_server ss w \<Longrightarrow> server_inv w"
  by (simp add: fresh_server_def server_inv_defs)

text \<open>C24: in every reachable state of a server, whatever its clients, its event loop and its
  application do in between, the waiters are released exactly when the server is closed and has
  no client left, so that then no future of \<open>wait_closed\<close> or \<open>serve_forever\<close> is pending any
  more; and a closed server has no reader on a listening socket.
\<close>

theorem server_waiters_released:
  assumes "keeps_inv factory" and "fresh_server ss w0" and "server_reach factory w0 w"
  shows "(sv_waiters w = None) = (sv_sockets w = None \<and> sv_clients w = []) \<and>
    (if sv_sockets w = None \<and> sv_clients w = [] then FutPending \<notin> set (sv_futures w) else True) \<and>
    (if sv_sockets w = None then sv_readers w = [] else True)"
proof -
  have inv: "server_inv w" by (rule reach_inv [OF assms(1) fresh_server_inv [OF assms(2)] assms(3)])
  have "FutPending \<notin> set (sv_futures w)" if "sv_sockets w = None" "sv_clients w = []"
  proof
    assume "FutPending \<in> set (sv_futures w)"
    then obtain i where i: "i < length (sv_futures w)" "sv_futures w ! i = FutPending"
      by (auto simp: in_set_conv_nth)
    have "sv_waiters w = None" using inv that by (simp add: server_inv_defs)
    with inv i have "sv_forever w = Some i" by (auto simp: server_inv_def pending_covered_def)
    with inv i that show False by (simp add: server_inv_def forever_over_def)
  qed
  moreover have "sv_readers w = []" if "sv_sockets w = None"
    using inv that by (simp add: server_inv_def server_sockets_def)
  ultimately show ?thesis using inv by (simp add: server_inv_def released_when_done_def)
qed

definition demo_listener :: pysock where
  "demo_listener =
     \<lparr>so_family = 2, so_type = 1, so_proto = 6, so_blocking = False, so_open = True, so_ssl = False\<rparr>"

definition demo_settings :: ssl_settings where
  "demo_settings = \<lparr>set_handshake = 60, set_shutdown = 30, set_incoming = 20000, set_outgoing = 20000\<rparr>"

definition demo_server :: "(netcall \<times> exn) list \<Rightarrow> nat list \<Rightarrow> int \<Rightarrow> serverworld" where
  "demo_server bad ss backlog =
     networld.extend ((demo_net bad)\<lparr>n_socks := replicate (length ss) demo_listener\<rparr>)
       (serverworld.fields (Some ss) [] (Some []) backlog SslNone demo_settings False None [] [] [] [] [])"

lemmas demo_server_defs = demo_server_def demo_net_def demo_listener_def networld.defs serverworld.defs

lemma demo_server_fresh: "fresh_server ss (demo_server [] ss n)"
  by (simp add: fresh_server_def closes_ok_def demo_server_defs)

lemma server_waiters_released_witness:
  "FutPending \<notin> set (sv_futures (server_run (ret 7)
     [EvStart, EvWaitClosed, EvReady 0, EvTask, EvClose, EvServeEnd, EvDetach 0] (demo_server [] [0] 0)))"
proof -
  let ?w = "server_run (ret 7)
     [EvStart, EvWaitClosed, EvReady 0, EvTask, EvClose, EvServeEnd, EvDetach 0] (demo_server [] [0] 0)"
  have "server_reach (ret 7) (demo_server [] [0] 0) ?w"
    by (rule server_run_reach [OF reach_start])
  from server_waiters_released [OF keep.ret_in demo_server_fresh this]
  have r: "(if sv_sockets ?w = None \<and> sv_clients ?w = [] then FutPending \<notin> set (sv_futures ?w) else True)"
    by blast
  have "sv_sockets ?w = None \<and> sv_clients ?w = []"
    by (simp add: demo_server_defs start_serving_def sock_listen_def start_serving_one_listener_def
        loop_add_reader_def sock_def wait_closed_def new_future_def accept_connection_def
        sock_accept_call_def net_ops net_run accept_connection2_def create_connection_transport_def
        native_transport_def plain_transport_def server_attach_def server_close_def
        loop_remove_reader_def server_detach_def server_wakeup_def settle_future_def
        future_done_def run)
  with r show ?thesis by (simp only: if_True simp_thms)
qed

text \<open>C25: closing a server that is open gives back every listening socket and its reader, cancels
  \<open>serve_forever\<close>, keeps the clients, and leaves a state from which a second close does nothing.
\<close>

theorem server_close_effect:
  assumes "server_inv w" and "sv_sockets w = Some ss"
  shows "case server_close w of
      (Inl e, w') \<Rightarrow> False
    | (Inr _, w') \<Rightarrow>
        sv_sockets w' = None \<and> sv_readers w' = [] \<and> \<not> sv_serving w' \<and>
        sv_clients w' = sv_clients w \<and> open_socks w' = open_socks w - set ss \<and>
        server_inv w' \<and> server_close w' = (Inr (), w')"
proof (cases "server_close w")
  case (Pair r w')
  have "server_close w' = (Inr (), w')" if "sv_sockets w' = None"
    using that by (simp add: server_close_def run)
  with server_close_wp [OF assms] Pair show ?thesis by (auto simp: wp_def split: sum.splits)
qed

lemma server_close_effect_witness:
  "open_socks (snd (server_close (demo_server [] [0, 1] 5))) = {} \<and>
   sv_sockets (snd (server_close (demo_server [] [0, 1] 5))) = None"
proof -
  have "server_inv (demo_server [] [0, 1] 5)" by (rule fresh_server_inv [OF demo_server_fresh])
  moreover have ss: "sv_sockets (demo_server [] [0, 1] 5) = Some [0, 1]" by (simp add: demo_server_defs)
  moreover have "open_socks (demo_server [] [0, 1] 5) = {0, 1}"
    by (auto simp: open_socks_def demo_server_defs numeral_2_eq_2 less_Suc_eq)
  ultimately show ?thesis
    using server_close_effect [of "demo_server [] [0, 1] 5" "[0, 1]"]
    by (auto split: prod.splits sum.splits)
qed

subsection \<open>Accepted connections\<close>

lemma owned_mark_closed [simp]: "owned s (mark_closed t w) = owned s w"
  by (simp add: owned_nth)

lemma owned_clients [simp]: "owned s (w\<lparr>sv_clients := ts\<rparr>) = owned s w"
  by (simp add: owned_def)

lemma open_socks_clients [simp]: "open_socks (w\<lparr>sv_clients := ts\<rparr>) = open_socks w"
  by (simp add: open_socks_def)



lemma server_view_simps [simp]:
  "sv_sockets (log_call c w) = sv_sockets w"
  "sv_sockets (mark_closed t w) = sv_sockets w"
  by (simp_all add: log_call_def mark_closed_def)





lemma accept_loop_wp:
  fixes w :: "'a serverworld_scheme"
  shows "wp (accept_loop n s)
    (\<lambda>_ v. \<exists>cs. sv_tasks v = sv_tasks w @ cs \<and> length cs \<le> n)
    (\<lambda>_ v. \<exists>cs. sv_tasks v = sv_tasks w @ cs \<and> length cs \<le> n) w"
proof (induction n arbitrary: w)
  case 0
  then show ?case by (simp add: wp_def)
next
  case (Suc n)
  let ?ok = "\<lambda>n v. \<exists>cs. sv_tasks v = sv_tasks w @ cs \<and> length cs \<le> n"
  have more: "wp (accept_loop n s) (\<lambda>_. ?ok (Suc n)) (\<lambda>_. ?ok (Suc n)) v"
    if "sv_tasks v = sv_tasks w \<or> (\<exists>c. sv_tasks v = sv_tasks w @ [c])" for v :: "'a serverworld_scheme"
    by (rule wp_weaken [OF Suc.IH]) (use that in auto)
  have same: "sv_tasks (log_call c v) = sv_tasks v" "sv_tasks (sock_update i f v) = sv_tasks v" for c i f and v :: "'a serverworld_scheme"
    by (simp_all add: log_call_def sock_update_def)
  have out: "wp (andthen (accept_out_of_resources s e) (accept_loop n s)) (\<lambda>_. ?ok (Suc n))
      (\<lambda>_. ?ok (Suc n)) v" if "sv_tasks v = sv_tasks w" for e and v :: "'a serverworld_scheme"
    using that by (simp add: accept_out_of_resources_def socket_remove_reader_def wps)
  have handle: "wp (if exn_cls e = OSErr ECONNABORTED then accept_loop n s
            else if would_block e then ret ()
            else if is_oserror e \<and> out_of_resources e then
              andthen (accept_out_of_resources s e) (accept_loop n s)
            else reraise e) (\<lambda>_. ?ok (Suc n)) (\<lambda>_. ?ok (Suc n)) v" if "sv_tasks v = sv_tasks w" for e and v :: "'a serverworld_scheme"
    using more [of v] out [OF that] that by (simp add: wp_ret wp_reraise)
  have accept: "wp (bnd (sock_accept_call s) (\<lambda>conn. andthen (sock_setblocking conn False) (ret conn)))
      (\<lambda>_ v. sv_tasks v = sv_tasks w) (\<lambda>_ v. sv_tasks v = sv_tasks w) w"
    by (simp add: sock_accept_call_def sock_setblocking_def wps same split: option.splits)
  show ?case
    unfolding accept_loop.simps wp_try_else wp_andthen wp_upd
  proof (rule wp_weaken [OF accept], goal_cases)
    case (1 conn v)
    then show ?case by (intro more) auto
  next
    case (2 e v)
    then show ?case by (rule handle)
  qed
qed

text \<open>C27: one readiness event of a listening socket accepts at most \<open>backlog + 1\<close> connections
  before it gives the event loop a turn, and keeps the tasks that are already queued, in order,
  before the new ones.
\<close>

theorem accept_bounded:
  "case accept_connection s w of
     (r, w') \<Rightarrow> \<exists>conns. sv_tasks w' = sv_tasks w @ conns \<and> length conns \<le> nat (sv_backlog w + 1)"
  using accept_loop_wp [of "nat (sv_backlog w + 1)" s w]
  by (auto simp: accept_connection_def wp_def run split: prod.splits sum.splits)


text \<open>When the second of two sockets cannot listen, starting to serve raises, but the first one
  stays open with its reader and the server counts as serving; nothing closes what
  \<open>create_server\<close> has opened, because its clean-up ends before the server is started.
\<close>

theorem start_serving_half_done:
  "case start_serving (demo_server [(NListen 1 5, exn_of (OSErr EADDRINUSE))] [0, 1] 5) of
     (r, w') \<Rightarrow>
       r = Inl (exn_of (OSErr EADDRINUSE)) \<and> sv_readers w' = [0] \<and> sv_serving w' \<and>
       open_socks w' = {0, 1}"
  by (simp add: start_serving_def sock_listen_def start_serving_one_listener_def
      loop_add_reader_def sock_def demo_server_defs net_run run open_socks_def
      less_Suc_eq numeral_2_eq_2 nth_Cons') auto

end
