(* ===== verification/SockProps.thy ===== *)
theory SockProps
  imports SockApi ServerProps
begin

text \<open>
  What the socket coroutines guarantee: \<open>sock_sendall\<close> hands every byte to the kernel exactly
  once and ends when the kernel has taken them all, and an operation that waits is settled once.
\<close>

section \<open>Sending everything\<close>

text \<open>
  \<open>sending base view w\<close>: the kernel has accepted \<open>base\<close> and then the first \<open>sk_sent\<close> bytes of
  \<open>view\<close>, and the operation counts as successful only when that is all.
\<close>

definition sending :: "bytes \<Rightarrow> bytes \<Rightarrow> 'a sockworld_scheme \<Rightarrow> bool" where
  "sending base view w =
     (sk_wire w = base @ take (sk_sent w) view \<and> sk_sent w \<le> length view \<and>
      sk_future w \<noteq> None \<and>
      (\<forall>v. sk_future w = Some (OpResult v) \<longrightarrow> sk_sent w = length view) \<and>
      (sk_future w = Some OpPending \<longrightarrow> sk_sent w < length view))"

lemma wp_sys_send [wps]:
  "wp (sys_send bs) Q E w =
     (case sk_answers w of
        [] \<Rightarrow> E (exn_of (OSErr EAGAIN)) w
      | r # rs \<Rightarrow>
          (case r of
             Inl e \<Rightarrow> E (exn_of e) (w\<lparr>sk_answers := rs\<rparr>)
           | Inr v \<Rightarrow>
               Q (min (nat (answer_int v)) (length bs))
                 (w\<lparr>sk_answers := rs,
                    sk_wire := sk_wire w @ take (min (nat (answer_int v)) (length bs)) bs\<rparr>)))"
  by (simp add: wp_def sys_send_def Let_def split: list.splits sum.splits)

text \<open>One readiness event of an operation that is pending.\<close>

lemma sendall_ready_pending:
  assumes "sk_future w = Some OpPending"
  shows "sock_sendall_ready view w =
    (Inr (),
     case sk_answers w of
       [] \<Rightarrow> w
     | Inl e # rs \<Rightarrow>
         (if would_block (exn_of e) then w\<lparr>sk_answers := rs\<rparr>
          else w\<lparr>sk_answers := rs, sk_future := Some (OpException (exn_of e))\<rparr>)
     | Inr v # rs \<Rightarrow>
         (let rest = drop (sk_sent w) view; n = min (nat (answer_int v)) (length rest) in
          w\<lparr>sk_answers := rs, sk_wire := sk_wire w @ take n rest, sk_sent := sk_sent w + n,
            sk_future := (if sk_sent w + n = length view then Some (OpResult SvNone)
                          else Some OpPending)\<rparr>))"
proof -
  have block: "would_block (exn_of (OSErr EAGAIN))"
    by (simp add: would_block_def exn_of_def)
  show ?thesis
    using assms block
    by (simp add: sock_sendall_ready_def wrap_sock_ready_handler_def sys_send_def op_done_def
        op_set_def run Let_def split: list.splits sum.splits)
qed

lemma sendall_ready_over: "op_done w \<Longrightarrow> sock_sendall_ready view w = (Inr (), w)"
  by (simp add: sock_sendall_ready_def wrap_sock_ready_handler_def run)

lemma sending_accepted:
  assumes "sending base view w" and "sk_future w = Some OpPending" and "n \<le> length view - sk_sent w"
  shows "sending base view
    (w\<lparr>sk_answers := rs, sk_wire := sk_wire w @ take n (drop (sk_sent w) view), sk_sent := sk_sent w + n,
       sk_future := (if sk_sent w + n = length view then Some (OpResult SvNone)
                     else Some OpPending)\<rparr>)"
  using assms by (auto simp: sending_def take_add)

lemma sendall_ready_keeps:
  assumes "sending base view w"
  shows "sending base view (snd (sock_sendall_ready view w))"
proof (cases "op_done w")
  case True
  with assms show ?thesis by (simp add: sendall_ready_over)
next
  case False
  then have pend: "sk_future w = Some OpPending" using assms by (auto simp: op_done_def sending_def)
  have rest: "sending base view (w\<lparr>sk_answers := rs\<rparr>)"
    "sending base view (w\<lparr>sk_answers := rs, sk_future := Some (OpException e)\<rparr>)" for rs e
    using assms by (simp_all add: sending_def)
  show ?thesis
    using assms rest sending_accepted [OF assms pend]
    by (simp add: sendall_ready_pending [OF pend] Let_def split: list.splits sum.splits)
qed

lemma sendall_rounds_keep: "sending base view w \<Longrightarrow> sending base view (sendall_rounds n view w)"
  by (induction n arbitrary: w) (auto intro: sendall_ready_keeps)

text \<open>The first call: what has been sent, and what the coroutine returns.\<close>

lemma checked_op_wp:
  assumes "\<And>v. sk_wire v = sk_wire w \<Longrightarrow> sk_answers v = sk_answers w \<Longrightarrow> wp m Q E v"
    and "\<And>v. sk_wire v = sk_wire w \<Longrightarrow> n_proactor w \<Longrightarrow> Q (Some SvNone) v"
    and "\<And>e v. sk_wire v = sk_wire w \<Longrightarrow> E e v"
  shows "wp (checked_op name s m) Q E w"
  using assms
  by (auto simp: checked_op_def check_non_ssl_socket_def check_nonblocking_socket_def wps
      log_call_def split: option.splits)

definition first_sent :: "bytes \<Rightarrow> bytes \<Rightarrow> sockval option \<Rightarrow> 'a sockworld_scheme \<Rightarrow> bool" where
  "first_sent base view r v =
     (case r of Some _ \<Rightarrow> sk_wire v = base @ view | None \<Rightarrow> sending base view v)"

lemma sock_sendall_wp:
  assumes "buf_bytes data = Inr view" and "py_len data = Inr (int (length view))"
    and "\<not> n_proactor w"
  shows "wp (sock_sendall s data) (first_sent (sk_wire w) view)
    (\<lambda>_ v. \<exists>n. sk_wire v = sk_wire w @ take n view) w"
  unfolding sock_sendall_def
proof (rule checked_op_wp)
  fix v :: "'a sockworld_scheme"
  assume v: "sk_wire v = sk_wire w" "sk_answers v = sk_answers w"
  let ?rest = "\<lambda>sent. bnd (lift_exn (py_len data)) (\<lambda>len.
             if int sent = len then ret (Some SvNone)
             else
               bnd (lift_exn (buf_bytes data)) (\<lambda>view.
                 andthen
                   (block [
                     upd (\<lambda>w. w\<lparr>sk_future := Some OpPending, sk_sent := sent\<rparr>),
                     ensure_fd_no_transport,
                     upd (\<lambda>w. w\<lparr>sk_writer := True\<rparr>)])
                   (ret None)))"
  let ?first = "try_else (bnd (lift_exn (buf_bytes data)) sys_send)
           (\<lambda>e. if would_block e then ret 0 else reraise e) ret"
  have first: "wp ?first
      (\<lambda>sent u. sk_wire u = sk_wire w @ take sent view \<and> sent \<le> length view)
      (\<lambda>_ u. sk_wire u = sk_wire w) v"
    using v assms(1) by (auto simp: wps min_def split: list.splits sum.splits)
  have rest: "wp (?rest sent) (first_sent (sk_wire w) view)
      (\<lambda>_ u. \<exists>n. sk_wire u = sk_wire w @ take n view) u"
    if "sk_wire u = sk_wire w @ take sent view \<and> sent \<le> length view"
    for sent and u :: "'a sockworld_scheme"
    using that assms(1,2)
    by (auto simp: wps ensure_fd_no_transport_def first_sent_def sending_def)
  show "wp (bnd ?first ?rest) (first_sent (sk_wire w) view)
      (\<lambda>_ u. \<exists>n. sk_wire u = sk_wire w @ take n view) v"
    unfolding wp_bnd [of ?first]
  proof (rule wp_weaken [OF first], goal_cases)
    case (1 sent u)
    then show ?case by (rule rest)
  next
    case (2 e u)
    then show ?case by (intro exI [of _ 0]) simp
  qed
next
  fix v
  assume "n_proactor w"
  with assms(3) show "first_sent (sk_wire w) view (Some SvNone) v" by simp
next
  fix e v
  assume "sk_wire v = sk_wire w"
  then show "\<exists>n. sk_wire v = sk_wire w @ take n view" by (intro exI [of _ 0]) simp
qed

definition sent_so_far :: "bytes \<Rightarrow> bytes \<Rightarrow> 'a sockworld_scheme \<Rightarrow> bool" where
  "sent_so_far base view w =
     (sk_wire w = base @ take (sk_sent w) view \<and>
      (if sk_future w = Some (OpResult SvNone) then sk_wire w = base @ view else True))"

lemma sending_so_far: "sending base view w \<Longrightarrow> sent_so_far base view (sendall_rounds n view w)"
  using sendall_rounds_keep [of base view w n] by (auto simp: sending_def sent_so_far_def)

text \<open>C29: \<open>sock_sendall\<close> of a buffer of bytes hands the kernel exactly these bytes, each once and in
  order. If it returns at once, all of them are sent; if it raises, a prefix is; if it waits,
  then after any number of readiness events the kernel has a prefix, and the future succeeds only
  when that is everything.
\<close>

theorem sendall_exact:
  assumes "buf_bytes data = Inr view" and "py_len data = Inr (int (length view))"
    and "\<not> n_proactor w"
  shows "case sock_sendall s data w of
      (Inl _, w') \<Rightarrow> \<exists>n. sk_wire w' = sk_wire w @ take n view
    | (Inr (Some _), w') \<Rightarrow> sk_wire w' = sk_wire w @ view
    | (Inr None, w') \<Rightarrow>
        \<forall>rounds. sent_so_far (sk_wire w) view (sendall_rounds rounds view w')"
  using sock_sendall_wp [OF assms, of s]
  by (auto simp: wp_def first_sent_def intro: sending_so_far
      split: prod.splits sum.splits option.splits)

definition demo_sock :: "(exn_class + sockval) list \<Rightarrow> sockworld" where
  "demo_sock answers =
     networld.extend ((demo_net [])\<lparr>n_socks := [demo_listener]\<rparr>)
       (sockworld.fields answers [] None False False True False 0)"

lemmas demo_sock_defs = demo_sock_def demo_net_def demo_listener_def networld.defs sockworld.defs

lemma sendall_exact_witness:
  "let w = sendall_rounds 2 [1, 2, 3] (snd (sock_sendall 0 (PyBytes [1, 2, 3])
             (demo_sock [Inr (SvInt 1), Inl (OSErr EAGAIN), Inr (SvInt 5)]))) in
   sk_wire w = [1, 2, 3] \<and> sk_future w = Some (OpResult SvNone)"
proof -
  let ?w = "demo_sock [Inr (SvInt 1), Inl (OSErr EAGAIN), Inr (SvInt 5)]"
  have run: "fst (sock_sendall 0 (PyBytes [1, 2, 3]) ?w) = Inr None"
    "sk_future (sendall_rounds 2 [1, 2, 3] (snd (sock_sendall 0 (PyBytes [1, 2, 3]) ?w))) =
       Some (OpResult SvNone)"
    by (simp_all add: sock_sendall_def checked_op_def check_non_ssl_socket_def
        check_nonblocking_socket_def buf_bytes_def sys_send_def ensure_fd_no_transport_def
        sock_sendall_ready_def wrap_sock_ready_handler_def op_done_def op_set_def would_block_def
        exn_of_def sock_def demo_sock_defs numeral_2_eq_2 run)
  have wire: "sk_wire ?w = []" "\<not> n_proactor ?w" by (simp_all add: demo_sock_defs)
  have "buf_bytes (PyBytes [1, 2, 3]) = Inr [1, 2, 3]" "py_len (PyBytes [1, 2, 3]) = Inr (int (length [1, 2, 3 :: byte]))"
    by (simp_all add: buf_bytes_def)
  from sendall_exact [OF this wire(2), of 0] run(1)
  have "sent_so_far [] [1, 2, 3] (sendall_rounds 2 [1, 2, 3] (snd (sock_sendall 0 (PyBytes [1, 2, 3]) ?w)))"
    by (cases "sock_sendall 0 (PyBytes [1, 2, 3]) ?w") (simp add: wire(1))
  then have "if sk_future (sendall_rounds 2 [1, 2, 3] (snd (sock_sendall 0 (PyBytes [1, 2, 3]) ?w))) =
      Some (OpResult SvNone)
    then sk_wire (sendall_rounds 2 [1, 2, 3] (snd (sock_sendall 0 (PyBytes [1, 2, 3]) ?w))) =
      [] @ [1, 2, 3] else True"
    unfolding sent_so_far_def by (rule conjunct2)
  with run(2) show ?thesis by (simp only: Let_def if_True append_Nil simp_thms)
qed

section \<open>Progress\<close>

text \<open>The kernel takes at least one byte at each readiness event.\<close>

definition eager :: "nat \<Rightarrow> 'a sockworld_scheme \<Rightarrow> bool" where
  "eager n w =
     (n \<le> length (sk_answers w) \<and>
      (\<forall>r \<in> set (sk_answers w). case r of Inl _ \<Rightarrow> False | Inr v \<Rightarrow> 0 < answer_int v))"

lemma sendall_progress:
  assumes "sending base view w" and "eager n w" and "length view - sk_sent w \<le> n"
  shows "op_done (sendall_rounds n view w)"
  using assms
proof (induction n arbitrary: w)
  case 0
  then show ?case by (auto simp: sending_def op_done_def)
next
  case (Suc n)
  show ?case
  proof (cases "op_done w")
    case True
    have "sendall_rounds m view w = w" for m
      by (induction m) (simp_all add: sendall_ready_over [OF True])
    with True show ?thesis by simp
  next
    case False
    then have pend: "sk_future w = Some OpPending" and less: "sk_sent w < length view"
      using Suc.prems(1) by (auto simp: op_done_def sending_def)
    obtain v rs where ans: "sk_answers w = Inr v # rs" "0 < answer_int v"
      using Suc.prems(2) by (cases "sk_answers w") (auto simp: eager_def split: sum.splits)
    let ?w = "snd (sock_sendall_ready view w)"
    have "eager n ?w" "length view - sk_sent ?w \<le> n"
      using Suc.prems(2,3) ans less
      by (auto simp: sendall_ready_pending [OF pend] Let_def eager_def)
    then show ?thesis
      using Suc.IH [OF sendall_ready_keeps [OF Suc.prems(1)]] by simp
  qed
qed

text \<open>C30: a \<open>sock_sendall\<close> that waits is finished after at most as many readiness events as there are
  bytes left, if the kernel takes at least one byte at each.
\<close>

theorem sendall_completes:
  assumes "sending base view w" and "eager (length view) w"
  shows "op_done (sendall_rounds (length view) view w) \<and>
    sk_wire (sendall_rounds (length view) view w) =
      base @ take (sk_sent (sendall_rounds (length view) view w)) view"
  using sendall_progress [OF assms] sendall_rounds_keep [OF assms(1), of "length view"]
  by (simp add: sending_def)

lemma sendall_completes_witness:
  "op_done (sendall_rounds 2 [4, 5]
     ((demo_sock [Inr (SvInt 1), Inr (SvInt 1)])\<lparr>sk_future := Some OpPending\<rparr>))"
proof -
  let ?w = "(demo_sock [Inr (SvInt 1), Inr (SvInt 1)])\<lparr>sk_future := Some OpPending\<rparr>"
  have "sending [] [4, 5] ?w" "eager (length [4, 5 :: byte]) ?w"
    by (simp_all add: sending_def eager_def demo_sock_defs)
  from sendall_completes [OF this] show ?thesis by (simp add: numeral_2_eq_2)
qed


end
