(* ===== verification/Endpoints.thy ===== *)
theory Endpoints
  imports Server
begin

text \<open>
  The remaining entry points: datagram endpoints (api_create_datagram_endpoint.py), pipes
  (api_pipe.py), \<open>sendfile\<close> (api_sendfile.py), the upgrade of a connection to TLS
  (api_start_tls.py) and the stream pairs (api_streams.py).

  Where the event loop is Windows' proactor the loop's own method is called with a wrapped
  protocol factory; that method is code of the event loop, and here it constructs the loop's
  transport and waits for it.
\<close>

section \<open>Datagram endpoints\<close>

record datagram_args =
  da_local_addr :: netaddr
  da_remote_addr :: netaddr
  da_family :: int
  da_proto :: int
  da_flags :: int
  da_reuse_port :: bool
  da_allow_broadcast :: bool
  da_sock :: "nat option"

fun addr_true :: "netaddr \<Rightarrow> bool" where
  "addr_true ANone = False"
| "addr_true (APath p) = (p \<noteq> [])"
| "addr_true (ATuple xs) = (xs \<noteq> [])"

text \<open>
  \<open>addr_infos\<close>: a dictionary in insertion order from (family, protocol) to the pair of
  addresses, local and remote. \<open>idx\<close> is \<open>False\<close> for the local one.
\<close>

type_synonym addr_pair = "netaddr option \<times> netaddr option"
type_synonym addr_infos = "((int \<times> int) \<times> addr_pair) list"

definition set_side :: "bool \<Rightarrow> netaddr \<Rightarrow> addr_pair \<Rightarrow> addr_pair" where
  "set_side remote a p = (if remote then (fst p, Some a) else (Some a, snd p))"

fun join_address :: "bool \<Rightarrow> addrinfo \<Rightarrow> addr_infos \<Rightarrow> addr_infos" where
  "join_address remote ai [] =
     [((ai_family ai, ai_proto ai), set_side remote (ai_addr ai) (None, None))]"
| "join_address remote ai ((k, p) # xs) =
     (if k = (ai_family ai, ai_proto ai) then (k, set_side remote (ai_addr ai) p) # xs
      else (k, p) # join_address remote ai xs)"

definition join_side ::
  "datagram_args \<Rightarrow> bool \<Rightarrow> netaddr \<Rightarrow> addr_infos \<Rightarrow> ('a networld_scheme, addr_infos) prog" where
  "join_side a remote addr infos =
     (case addr of
        ANone \<Rightarrow> ret infos
      | APath _ \<Rightarrow> raise TypeErr
      | ATuple xs \<Rightarrow>
          if length xs \<noteq> 2 then raise TypeErr
          else
            bnd (ensure_resolved xs (da_family a) SOCK_DGRAM (da_proto a) (da_flags a)) (\<lambda>ais.
              if ais = [] then
                reraise (exn_msg (OSErr ENO_NONE) ''getaddrinfo() returned empty list'')
              else ret (fold (join_address remote) ais infos)))"

definition both_sides :: "datagram_args \<Rightarrow> addr_infos \<Rightarrow> addr_infos" where
  "both_sides a infos =
     filter (\<lambda>(_, l, r). \<not> (addr_true (da_local_addr a) \<and> l = None \<or>
                             addr_true (da_remote_addr a) \<and> r = None)) infos"

definition as_option :: "netaddr \<Rightarrow> netaddr option" where
  "as_option a = (if a = ANone then None else Some a)"

definition stale_datagram_path :: "netaddr \<Rightarrow> ('a unixserverworld_scheme, unit) prog" where
  "stale_datagram_path a =
     (case a of APath p \<Rightarrow> if p = [] then ret () else remove_stale_socket p | _ \<Rightarrow> ret ())"

definition is_tuple :: "netaddr \<Rightarrow> bool" where
  "is_tuple a = (case a of ATuple _ \<Rightarrow> True | _ \<Rightarrow> False)"

definition address_pairs :: "datagram_args \<Rightarrow> ('a unixserverworld_scheme, addr_infos) prog" where
  "address_pairs a =
     (let laddr = da_local_addr a; raddr = da_remote_addr a in
      if \<not> (addr_true laddr \<or> addr_true raddr) then
        (if da_family a = 0 then raise ValueErr
         else ret [((da_family a, da_proto a), (None, None))])
      else if da_family a = AF_UNIX_NO then
        (if is_tuple laddr \<or> is_tuple raddr then raise TypeErr
         else
           andthen (stale_datagram_path laddr)
             (ret [((da_family a, da_proto a), (as_option laddr, as_option raddr))]))
      else
        bnd (join_side a False laddr []) (\<lambda>infos.
          bnd (join_side a True raddr infos) (\<lambda>infos.
            let pairs = both_sides a infos in
            if pairs = [] then raise ValueErr else ret pairs)))"

text \<open>
  The socket for one pair. What goes wrong after it was made closes it. The result is the
  socket and the remote address of the transport.
\<close>

definition addr_of :: "netaddr option \<Rightarrow> netaddr" where
  "addr_of a = (case a of None \<Rightarrow> ANone | Some x \<Rightarrow> x)"

definition datagram_setup ::
  "datagram_args \<Rightarrow> addr_pair \<Rightarrow> nat \<Rightarrow> ('a networld_scheme, netaddr option) prog" where
  "datagram_setup a p s =
     andthen
       (block [
         (if da_reuse_port a then set_reuseport s else ret ()),
         (if da_allow_broadcast a then sock_setsockopt s SO_BROADCAST else ret ()),
         sock_setblocking s False,
         (if addr_true (da_local_addr a) then sock_bind s (addr_of (fst p)) else ret ())])
       (if addr_true (da_remote_addr a) then
          andthen
            (if da_allow_broadcast a then ret () else loop_sock_connect s (addr_of (snd p)))
            (ret (snd p))
        else ret None)"

text \<open>
  One pair: the socket and the address, or the \<open>OSError\<close> that is collected. A socket whose setup
  failed is closed first; an error of \<open>close\<close> ends the search, because it is raised in the handler.
\<close>

definition collect_oserror :: "exn \<Rightarrow> ('w, exn + 'b) prog" where
  "collect_oserror e = (if is_oserror e then ret (Inl e) else reraise e)"

definition datagram_attempt ::
  "datagram_args \<Rightarrow> (int \<times> int) \<times> addr_pair \<Rightarrow> ('a networld_scheme, exn + nat \<times> netaddr option) prog" where
  "datagram_attempt a kp =
     (case kp of ((family, proto), p) \<Rightarrow>
        bnd (try_except (bnd (sock_new family SOCK_DGRAM proto) (\<lambda>s. ret (Inr s))) collect_oserror)
          (\<lambda>made.
            case made of
              Inl e \<Rightarrow> ret (Inl e)
            | Inr s \<Rightarrow>
                try_except (bnd (datagram_setup a p s) (\<lambda>r. ret (Inr (s, r))))
                  (\<lambda>e. andthen (sock_close s) (collect_oserror e))))"

text \<open>The first pair that works; otherwise \<open>exceptions[0]\<close>.\<close>

fun datagram_first ::
  "datagram_args \<Rightarrow> addr_infos \<Rightarrow> exn list \<Rightarrow> ('a networld_scheme, nat \<times> netaddr option) prog" where
  "datagram_first a [] exceptions = (case exceptions of [] \<Rightarrow> raise IndexErr | e # _ \<Rightarrow> reraise e)"
| "datagram_first a (kp # kps) exceptions =
     bnd (datagram_attempt a kp) (\<lambda>r.
       case r of Inl e \<Rightarrow> datagram_first a kps (exceptions @ [e]) | Inr x \<Rightarrow> ret x)"

definition given_datagram_socket :: "datagram_args \<Rightarrow> nat \<Rightarrow> ('a networld_scheme, nat \<times> netaddr option) prog" where
  "given_datagram_socket a s =
     cond (\<lambda>w. so_type (sock w s) = SOCK_STREAM) (raise ValueErr)
       (if addr_true (da_local_addr a) \<or> addr_true (da_remote_addr a) \<or> da_family a \<noteq> 0 \<or>
           da_proto a \<noteq> 0 \<or> da_flags a \<noteq> 0 \<or> da_reuse_port a \<or> da_allow_broadcast a
        then raise ValueErr
        else andthen (sock_setblocking s False) (ret (s, None)))"

text \<open>The loop's own method, which makes the socket itself.\<close>

definition original_endpoint ::
  "string \<Rightarrow> ('a networld_scheme, nat) prog \<Rightarrow> nat option \<Rightarrow> ('a networld_scheme, nat \<times> nat) prog" where
  "original_endpoint name factory s =
     andthen (net_call (NOriginal name))
       (bnd factory (\<lambda>p.
         bnd (construct (plain_transport KLoop s (PWrap p) False)) (\<lambda>t.
           andthen (wait_and_close_transport_on_exc t)
             (bnd (add_transport (plain_transport KWrapped None (PUser p) False)) (\<lambda>wrapped.
               ret (wrapped, p))))))"

definition create_datagram_endpoint ::
  "('a unixserverworld_scheme, nat) prog \<Rightarrow> datagram_args \<Rightarrow> ('a unixserverworld_scheme, nat \<times> nat) prog" where
  "create_datagram_endpoint protocol_factory a =
     cond n_proactor
       (original_endpoint ''create_datagram_endpoint'' protocol_factory (da_sock a))
       (bnd
         (case da_sock a of
            Some s \<Rightarrow> given_datagram_socket a s
          | None \<Rightarrow> bnd (address_pairs a) (\<lambda>pairs. datagram_first a pairs []))
         (\<lambda>(s, _).
           bnd protocol_factory (\<lambda>p.
             bnd (construct (plain_transport KDatagram (Some s) (PUser p) False)) (\<lambda>t.
               andthen (wait_and_close_transport_on_exc t) (ret (t, p))))))"

section \<open>Pipes\<close>

text \<open>The pipe is an object of the world like a socket, here its index.\<close>

definition connect_pipe ::
  "string \<Rightarrow> tkind \<Rightarrow> ('a networld_scheme, nat) prog \<Rightarrow> nat \<Rightarrow> ('a networld_scheme, nat \<times> nat) prog" where
  "connect_pipe name kind protocol_factory pipe =
     cond n_os_nt (original_endpoint name protocol_factory (Some pipe))
       (bnd protocol_factory (\<lambda>p.
         bnd (construct (plain_transport kind (Some pipe) (PUser p) False)) (\<lambda>t.
           andthen (wait_and_close_transport_on_exc t) (ret (t, p)))))"

definition connect_read_pipe ::
  "('a networld_scheme, nat) prog \<Rightarrow> nat \<Rightarrow> ('a networld_scheme, nat \<times> nat) prog" where
  "connect_read_pipe = connect_pipe ''connect_read_pipe'' KReadPipe"

definition connect_write_pipe ::
  "('a networld_scheme, nat) prog \<Rightarrow> nat \<Rightarrow> ('a networld_scheme, nat \<times> nat) prog" where
  "connect_write_pipe = connect_pipe ''connect_write_pipe'' KWritePipe"

section \<open>Sending a file\<close>

text \<open>
  \<open>native\<close> is the transport's own \<open>sendfile\<close>, which answers with a future or with \<open>None\<close> when
  everything was sent at once; for any other transport the loop's coroutine is awaited.
\<close>

definition sendfile ::
  "bool \<Rightarrow> ('w, nat option) prog \<Rightarrow> (nat \<Rightarrow> ('w, unit) prog) \<Rightarrow> ('w, unit) prog \<Rightarrow> ('w, unit) prog" where
  "sendfile is_aiofn native await_future original =
     (if is_aiofn then
        bnd native (\<lambda>fut. case fut of Some i \<Rightarrow> await_future i | None \<Rightarrow> ret ())
      else original)"

section \<open>Upgrade to TLS\<close>

text \<open>
  The two callbacks that \<open>start_tls\<close> leaves with the event loop; the flag says that the handle
  was cancelled. \<open>wrapped\<close> is the transport below when the argument is one of the wrappers.
  The sizes of the memory BIOs are validated against the module \<open>ssl\<close>, which is true as an
  object, and not against the context.
\<close>

datatype upgrade_callback = UpConnectionMade nat nat | UpResumeReading nat

record upgradeworld = networld +
  up_callbacks :: "(upgrade_callback \<times> bool) list"

definition up_call_soon :: "upgrade_callback \<Rightarrow> ('a upgradeworld_scheme, nat) prog" where
  "up_call_soon c w = (Inr (length (up_callbacks w)), w\<lparr>up_callbacks := up_callbacks w @ [(c, False)]\<rparr>)"

definition up_cancel :: "nat \<Rightarrow> ('a upgradeworld_scheme, unit) prog" where
  "up_cancel h =
     upd (\<lambda>w. w\<lparr>up_callbacks := (up_callbacks w)[h := (fst (up_callbacks w ! h), True)]\<rparr>)"

definition transport_set_protocol :: "nat \<Rightarrow> protocol_ref \<Rightarrow> ('a networld_scheme, unit) prog" where
  "transport_set_protocol t p =
     andthen (net_call (NSetProtocol t))
       (upd (\<lambda>w. w\<lparr>n_transports := (n_transports w)[t := (n_transports w ! t)\<lparr>pt_protocol := p\<rparr>]\<rparr>))"

definition start_tls_settings :: "ssl_options \<Rightarrow> ssl_arg \<Rightarrow> ('w, ssl_settings) prog" where
  "start_tls_settings os ssl =
     bnd (lift_exn (validate_ssl_timeout SslHandshakeTimeout (o_handshake os) ssl)) (\<lambda>h.
     bnd (lift_exn (validate_ssl_timeout SslShutdownTimeout (o_shutdown os) ssl)) (\<lambda>s.
     bnd (lift_exn (validate_bio_size (o_incoming os) (SslBool True))) (\<lambda>i.
     bnd (lift_exn (validate_bio_size (o_outgoing os) (SslBool True))) (\<lambda>out.
       ret \<lparr>set_handshake = h, set_shutdown = s, set_incoming = i, set_outgoing = out\<rparr>))))"

definition start_tls ::
  "nat \<Rightarrow> nat option \<Rightarrow> nat \<Rightarrow> ssl_arg \<Rightarrow> ssl_options \<Rightarrow> pyval \<Rightarrow> bool \<Rightarrow>
     ('a upgradeworld_scheme, nat) prog" where
  "start_tls given wrapped protocol ssl os hostname server_side =
     (let transport = (case wrapped of Some t \<Rightarrow> t | None \<Rightarrow> given) in
      case ssl of
        SslContext _ \<Rightarrow>
          bnd (start_tls_settings os ssl) (\<lambda>settings.
          bnd (construct (tls_transport KSslTransport None (PUser protocol)
                 \<lparr>tls_settings = settings, tls_hostname = hostname, tls_server_side = server_side\<rparr> False))
            (\<lambda>ssl_transport.
          andthen
            (block [
              net_call (NPauseReading transport),
              transport_set_protocol transport (PTls ssl_transport)])
            (bnd (up_call_soon (UpConnectionMade ssl_transport transport)) (\<lambda>conmade.
             bnd (up_call_soon (UpResumeReading transport)) (\<lambda>resume.
               andthen
                 (try_except (net_call (NAwaitWaiter ssl_transport))
                   (\<lambda>e. block [
                     close_transport transport,
                     up_cancel conmade,
                     up_cancel resume,
                     reraise e]))
                 (ret ssl_transport))))))
      | _ \<Rightarrow> raise TypeErr)"

section \<open>Streams\<close>

text \<open>
  Readers with their limits and protocols with their readers; \<open>True\<close> marks a protocol that was
  given the callback of a server. A reader refuses a limit that is not positive, as the
  constructor of the library does. A writer is its transport, protocol and reader.
\<close>

record streamworld = unixserverworld +
  st_readers :: "int list"
  st_protocols :: "(nat \<times> bool) list"

definition DEFAULT_LIMIT :: int where "DEFAULT_LIMIT = 2 ^ 16"

definition stream_protocol :: "int \<Rightarrow> bool \<Rightarrow> ('a streamworld_scheme, nat \<times> nat) prog" where
  "stream_protocol limit server =
     (if limit \<le> 0 then raise ValueErr
      else
        bnd (gets (\<lambda>w. (length (st_protocols w), length (st_readers w)))) (\<lambda>(p, r).
          andthen
            (upd (\<lambda>w. w\<lparr>st_readers := st_readers w @ [limit], st_protocols := st_protocols w @ [(r, server)]\<rparr>))
            (ret (p, r))))"

type_synonym stream_pair = "nat \<times> nat \<times> nat \<times> nat"

definition open_stream ::
  "(('a streamworld_scheme, nat) prog \<Rightarrow> ('a streamworld_scheme, nat \<times> nat) prog) \<Rightarrow> int \<Rightarrow>
     ('a streamworld_scheme, stream_pair) prog" where
  \<comment> \<open>the reader, then the transport, the protocol and the reader of the writer\<close>
  "open_stream connect limit =
     bnd (stream_protocol limit False) (\<lambda>(p, r).
       bnd (connect (ret p)) (\<lambda>(t, _). ret (r, t, p, r)))"

definition open_connection :: "int \<Rightarrow> connection_args \<Rightarrow> ('a streamworld_scheme, stream_pair) prog" where
  "open_connection limit a = open_stream (\<lambda>factory. create_connection factory a) limit"

definition open_unix_connection ::
  "int \<Rightarrow> unix_connection_args \<Rightarrow> ('a streamworld_scheme, stream_pair) prog" where
  "open_unix_connection limit a = open_stream (\<lambda>factory. create_unix_connection factory a) limit"

definition server_stream_factory :: "int \<Rightarrow> ('a streamworld_scheme, nat) prog" where
  "server_stream_factory limit = bnd (stream_protocol limit True) (\<lambda>(p, _). ret p)"

text \<open>The servers call the factory for every connection they accept.\<close>

definition start_server ::
  "int \<Rightarrow> server_args \<Rightarrow> ('a streamworld_scheme, 'a streamworld_scheme made_server) prog" where
  "start_server limit a = create_server (server_stream_factory limit) a"

definition start_unix_server ::
  "int \<Rightarrow> unix_server_args \<Rightarrow>
     ('a streamworld_scheme, ('a streamworld_scheme, nat) prog \<times> 'a streamworld_scheme made_server) prog" where
  "start_unix_server limit a =
     bnd (create_unix_server a) (\<lambda>s. ret (server_stream_factory limit, s))"

end
