(* ===== verification/EndpointProps.thy ===== *)
theory EndpointProps
  imports Endpoints ConnectProps
begin

text \<open>
  The sockets of datagram endpoints: what the search for an address leaves open, and the leak when
  the protocol factory fails.
\<close>

lemma set_reuseport_in: "steps_in same_open (set_reuseport s)"
  unfolding set_reuseport_def sock_setsockopt_def by (intro if_same_open so.order_rules net_call_in)

lemma datagram_setup_in: "steps_in same_open (datagram_setup a p s)"
  unfolding datagram_setup_def sock_setsockopt_def sock_bind_def loop_sock_connect_def
  by (intro if_same_open so.order_rules net_call_in set_reuseport_in sock_setblocking_in)

text \<open>
  \<open>found X r v\<close>: a search that began with the open sockets \<open>X\<close> has opened one, or none.
\<close>

definition found :: "nat set \<Rightarrow> exn + nat \<times> 'b \<Rightarrow> 'a networld_scheme \<Rightarrow> bool" where
  "found X r v =
     (case r of Inl e \<Rightarrow> open_socks v = X | Inr (s, _) \<Rightarrow> open_socks v = insert s X \<and> s \<notin> X)"

lemma close_failed_wp:
  assumes "open_socks w = insert s X" "s \<notin> X"
  shows "wp (andthen (sock_close s) (collect_oserror e)) (found X) (\<lambda>_ v. open_socks v = X) w"
  using assms by (auto simp: sock_close_def collect_oserror_def found_def wps split: option.splits)

lemma datagram_attempt_wp:
  fixes w :: "'a networld_scheme"
  assumes "open_socks w = X"
  shows "wp (datagram_attempt a kp) (found X) (\<lambda>_ v. open_socks v = X) w"
proof -
  obtain family proto p where kp: "kp = ((family, proto), p)" by (metis prod.exhaust)
  have prepare: "wp (try_except (bnd (datagram_setup a p s) (\<lambda>r. ret (Inr (s, r))))
      (\<lambda>e. andthen (sock_close s) (collect_oserror e))) (found X) (\<lambda>_ v. open_socks v = X) v"
    if "open_socks v = insert s X" "s \<notin> X" for s and v :: "'a networld_scheme"
    unfolding wp_try_except wp_bnd wp_ret
    by (rule wp_same_open [OF datagram_setup_in])
       (use that close_failed_wp in \<open>auto simp: found_def\<close>)
  have fail: "wp (collect_oserror e) (\<lambda>made. wp (case made of
              Inl e \<Rightarrow> ret (Inl e)
            | Inr s \<Rightarrow> try_except (bnd (datagram_setup a p s) (\<lambda>r. ret (Inr (s, r))))
                  (\<lambda>e. andthen (sock_close s) (collect_oserror e))) (found X) (\<lambda>_ v. open_socks v = X))
      (\<lambda>_ v. open_socks v = X) v" if "open_socks v = X" for e and v :: "'a networld_scheme"
    using that by (simp add: collect_oserror_def wps found_def)
  show ?thesis
    unfolding datagram_attempt_def kp prod.case wp_bnd wp_try_except [of "bnd _ _" collect_oserror] wp_ret
    by (rule wp_weaken [OF sock_new_wp]) (use assms prepare fail in auto)
qed

lemma datagram_first_wp:
  fixes w :: "'a networld_scheme"
  shows "open_socks w = X \<Longrightarrow>
     wp (datagram_first a kps es) (\<lambda>r. found X (Inr r)) (\<lambda>_ v. open_socks v = X) w"
proof (induction kps arbitrary: w es)
  case Nil
  then show ?case by (simp add: wps split: list.splits)
next
  case (Cons kp kps)
  show ?case
    unfolding datagram_first.simps wp_bnd
  proof (rule wp_weaken [OF datagram_attempt_wp [OF Cons.prems]])
    show "wp (case r of Inl e \<Rightarrow> datagram_first a kps (es @ [e]) | Inr x \<Rightarrow> ret x)
        (\<lambda>r. found X (Inr r)) (\<lambda>_ v. open_socks v = X) v" if "found X r v"
      for r and v :: "'a networld_scheme"
    proof (cases r)
      case (Inl e)
      then have "open_socks v = X" using that by (simp add: found_def)
      from Cons.IH [OF this] show ?thesis by (simp add: Inl)
    next
      case (Inr x)
      with that show ?thesis by (simp add: wps)
    qed
  qed
qed

lemma file_ops_in:
  "steps_in same_open (remove_stale_socket path :: ('a unixserverworld_scheme, unit) prog)"
proof -
  have st: "steps_in same_open ((case f of None \<Rightarrow> raise (OSErr ENOENT) | Some st \<Rightarrow> ret st)
      :: ('a unixserverworld_scheme, nat \<times> bool) prog)" for f by (cases f) (simp_all add: so.raise_in so.ret_in)
  have rm: "steps_in same_open (file_remove path :: ('a unixserverworld_scheme, unit) prog)"
    unfolding file_remove_def
    by (intro so.order_rules net_call_in upd_same_open) (simp add: open_socks_def)
  show ?thesis
    unfolding remove_stale_socket_def file_stat_def
    by (auto intro!: so.order_rules if_same_open net_call_in st rm split: prod.split)
qed

lemma join_side_in: "steps_in same_open (join_side a r x infos)"
  unfolding join_side_def
  by (cases x) (auto intro!: so.order_rules if_same_open ensure_resolved_in)

lemma address_pairs_in:
  "steps_in same_open (address_pairs a :: ('a unixserverworld_scheme, addr_infos) prog)"
proof -
  have stale: "steps_in same_open (stale_datagram_path x :: ('a unixserverworld_scheme, unit) prog)" for x
    unfolding stale_datagram_path_def
    by (cases x) (auto intro!: so.order_rules if_same_open file_ops_in)
  show ?thesis
    unfolding address_pairs_def Let_def
    by (intro so.order_rules if_same_open stale join_side_in)
qed

lemma datagram_search_wp:
  "wp (bnd (address_pairs a) (\<lambda>pairs. datagram_first a pairs []))
     (\<lambda>r. found (open_socks w) (Inr r)) (\<lambda>_ v. open_socks v = open_socks w) w"
  unfolding wp_bnd
  by (rule wp_same_open [OF address_pairs_in]) (auto intro: datagram_first_wp)

text \<open>C39: the search for the socket of a datagram endpoint leaks nothing: whatever the resolver, the
  options, \<open>bind\<close>, \<open>connect\<close> and \<open>close\<close> do, and in whatever order they fail, it ends with exactly
  the sockets open that were open before and, when it succeeds, one new one that it returns.\<close>

theorem datagram_search_no_leak:
  "case bnd (address_pairs a) (\<lambda>pairs. datagram_first a pairs []) w of
     (Inr (s, r), w') \<Rightarrow> open_socks w' = insert s (open_socks w) \<and> s \<notin> open_socks w
   | (Inl e, w') \<Rightarrow> open_socks w' = open_socks w"
  using datagram_search_wp [of a w]
  by (cases "bnd (address_pairs a) (\<lambda>pairs. datagram_first a pairs []) w")
     (auto simp: wp_def found_def split: sum.splits)

section \<open>The leak\<close>

text \<open>
  When the protocol factory raises, the socket that the search has opened stays open: the call ends
  in the very state in which the search left the world, and no transport owns the socket.
\<close>

lemma datagram_endpoint_leaks:
  assumes "\<not> n_proactor w" "da_sock a = None"
    "bnd (address_pairs a) (\<lambda>pairs. datagram_first a pairs []) w = (Inr (s, r), w')"
  shows "create_datagram_endpoint (raise c) a w = (Inl (exn_of c), w')" "s \<in> open_socks w'"
  using datagram_search_wp [of a w] assms(3)
  by (simp_all add: create_datagram_endpoint_def run assms(1,2) wp_def found_def split: sum.splits prod.splits)

end
