(* ===== verification/Patch.thy ===== *)
theory Patch
  imports Writable
begin

text \<open>
  Patching of event loops (api_patch.py) and the wrappers for transports and protocols of the
  event loop (wrapped_transport.py). A loop is its attributes: the methods it has, and the two
  attributes the patch leaves on it. \<open>LoopOwn\<close> is a method of the loop itself, \<open>Fast\<close> one of
  this library bound to the loop.
\<close>

section \<open>Loops\<close>

datatype loop_method = LoopOwn string | Fast string

record pyloop =
  lp_methods :: "string \<Rightarrow> loop_method option"
  lp_originals :: "(string \<Rightarrow> loop_method option) option"
  lp_patched :: "string list option"

definition PATCHABLE_METHODS :: "string list" where
  "PATCHABLE_METHODS =
     [''connect_read_pipe'', ''connect_write_pipe'', ''create_connection'',
      ''create_datagram_endpoint'', ''create_unix_connection'', ''create_server'',
      ''create_unix_server'', ''start_tls'', ''sendfile'', ''sock_accept'', ''sock_connect'',
      ''sock_recv'', ''sock_recv_into'', ''sock_recvfrom'', ''sock_recvfrom_into'',
      ''sock_sendall'', ''sock_sendto'']"

text \<open>The body of the loop over the table; the two dictionaries exist by then.\<close>

definition patch_method :: "string \<Rightarrow> pyloop \<Rightarrow> pyloop" where
  "patch_method name l =
     (case (lp_originals l, lp_patched l) of
        (Some originals, Some patched) \<Rightarrow>
          if name \<in> set patched then l
          else (case lp_methods l name of
                  None \<Rightarrow> l
                | Some original \<Rightarrow>
                    l\<lparr>lp_originals := Some (originals(name \<mapsto> original)),
                      lp_methods := (lp_methods l)(name \<mapsto> Fast name),
                      lp_patched := Some (patched @ [name])\<rparr>)
      | _ \<Rightarrow> l)"

definition patch_loop :: "pyloop \<Rightarrow> pyloop" where
  "patch_loop l =
     (let l = (if lp_originals l = None then l\<lparr>lp_originals := Some Map.empty\<rparr> else l);
          l = (if lp_patched l = None then l\<lparr>lp_patched := Some []\<rparr> else l)
      in fold patch_method PATCHABLE_METHODS l)"

definition get_original_loop_method :: "pyloop \<Rightarrow> string \<Rightarrow> exn_class + loop_method" where
  "get_original_loop_method l name =
     (case (case lp_originals l of None \<Rightarrow> None | Some originals \<Rightarrow> originals name) of
        Some m \<Rightarrow> Inr m
      | None \<Rightarrow> (case lp_methods l name of Some m \<Rightarrow> Inr m | None \<Rightarrow> Inl AttributeErr))"

section \<open>Factories and policies\<close>

text \<open>
  The policy of the interpreter and its current loop. \<open>new_loop\<close> stands for the loops that
  asyncio, or another package, makes.
\<close>

datatype loop_policy = BasePolicy | PatchedPolicy loop_policy

record policyworld =
  pw_policy :: loop_policy
  pw_current :: "pyloop option"

fun new_event_loop :: "loop_policy \<Rightarrow> pyloop \<Rightarrow> pyloop" where
  "new_event_loop BasePolicy new_loop = new_loop"
| "new_event_loop (PatchedPolicy p) new_loop = patch_loop (new_event_loop p new_loop)"

definition loop_factory ::
  "(policyworld, pyloop) prog option \<Rightarrow> pyloop \<Rightarrow> (policyworld, pyloop) prog" where
  "loop_factory base_factory new_loop =
     bnd (case base_factory of
            Some base \<Rightarrow> base
          | None \<Rightarrow> gets (\<lambda>w. new_event_loop (pw_policy w) new_loop)) (\<lambda>l.
       let l' = patch_loop l in
       andthen (upd (\<lambda>w. w\<lparr>pw_current := Some l'\<rparr>)) (ret l'))"

definition install_policy :: "loop_policy option \<Rightarrow> (policyworld, loop_policy) prog" where
  "install_policy base_policy =
     bnd (gets (\<lambda>w. case base_policy of Some p \<Rightarrow> p | None \<Rightarrow> pw_policy w)) (\<lambda>base.
       andthen (upd (\<lambda>w. w\<lparr>pw_policy := PatchedPolicy base\<rparr>)) (ret (PatchedPolicy base)))"

section \<open>Wrapped transports\<close>

text \<open>
  What a transport of the event loop offers. \<open>at_abort\<close> is \<open>None\<close> for a transport without that
  method, and \<open>at_pipe\<close> says whether it knows a pipe. Protocols are numbers; the wrapper of one
  is an \<open>app\<close>.
\<close>

record 'w asyncio_transport =
  at_is_closing :: "('w, bool) prog"
  at_close :: "('w, unit) prog"
  at_abort :: "('w, unit) prog option"
  at_is_reading :: "('w, bool) prog"
  at_pause_reading :: "('w, unit) prog"
  at_resume_reading :: "('w, unit) prog"
  at_set_limits :: "int option \<Rightarrow> int option \<Rightarrow> ('w, unit) prog"
  at_get_limits :: "('w, int \<times> int) prog"
  at_get_size :: "('w, int) prog"
  at_write :: "pybuf \<Rightarrow> ('w, unit) prog"
  at_writelines :: "pybuf list \<Rightarrow> ('w, unit) prog"
  at_sendto :: "pybuf \<Rightarrow> pyaddr \<Rightarrow> ('w, unit) prog"
  at_write_eof :: "('w, unit) prog"
  at_can_write_eof :: "('w, bool) prog"
  at_pipe :: "('w, bool) prog"
  at_set_protocol :: "'w app \<Rightarrow> ('w, unit) prog"
  at_sendfile :: "pyfile \<Rightarrow> pyint_arg \<Rightarrow> pyint_arg \<Rightarrow> ('w, unit) prog"

text \<open>
  The wrapper of a protocol passes every callback on. Only \<open>_WrappedBufferedProtocol\<close> has the
  two callbacks of buffered protocols; it has no \<open>data_received\<close>.
\<close>

datatype wrapper_class = WrapProtocol | WrapBuffered | WrapDatagram

definition wrapped_protocol :: "wrapper_class \<Rightarrow> 'w app \<Rightarrow> 'w app" where
  "wrapped_protocol c a =
     \<lparr>app_buffered = (c = WrapBuffered), app_aiofn = False,
      on_connection_made = on_connection_made a, on_connection_lost = on_connection_lost a,
      on_data_received = (\<lambda>d. if c = WrapProtocol then on_data_received a d else raise AttributeErr),
      on_eof_received = on_eof_received a,
      on_get_buffer = (\<lambda>n. if c = WrapBuffered then on_get_buffer a n else raise AttributeErr),
      on_buffer_updated = (\<lambda>n. if c = WrapBuffered then on_buffer_updated a n else raise AttributeErr),
      on_pause_writing = on_pause_writing a, on_resume_writing = on_resume_writing a,
      on_datagram_received = (\<lambda>d s. if c = WrapDatagram then on_datagram_received a d s else raise AttributeErr),
      on_error_received = (\<lambda>e. if c = WrapDatagram then on_error_received a e else raise AttributeErr),
      on_local_write_buffer_size = raise AttributeErr\<rparr>"

definition wrapped_set_protocol :: "'w asyncio_transport \<Rightarrow> 'w app \<Rightarrow> ('w, unit) prog" where
  "wrapped_set_protocol t a =
     at_set_protocol t (wrapped_protocol (if app_buffered a then WrapBuffered else WrapProtocol) a)"

definition wrapped_write :: "'w asyncio_transport \<Rightarrow> pybuf \<Rightarrow> ('w, unit) prog" where
  "wrapped_write t data =
     bnd (lift_exn (aiofn_validate_and_maybe_copy_buffer data)) (at_write t)"

text \<open>\<open>if data\<close> leaves out what is empty, and \<open>None\<close>; other objects are true and then refused.\<close>

definition data_true :: "pybuf \<Rightarrow> bool" where
  "data_true d = (case py_len d of Inl _ \<Rightarrow> d \<noteq> PyNone | Inr n \<Rightarrow> n \<noteq> 0)"

fun copy_lines :: "pybuf list \<Rightarrow> exn_class + pybuf list" where
  "copy_lines [] = Inr []"
| "copy_lines (d # ds) =
     (if \<not> data_true d then copy_lines ds
      else case aiofn_validate_and_maybe_copy_buffer d of
             Inl e \<Rightarrow> Inl e
           | Inr d' \<Rightarrow> (case copy_lines ds of Inl e \<Rightarrow> Inl e | Inr ds' \<Rightarrow> Inr (d' # ds')))"

definition wrapped_writelines :: "'w asyncio_transport \<Rightarrow> pybuf list \<Rightarrow> ('w, unit) prog" where
  "wrapped_writelines t ds = bnd (lift_exn (copy_lines ds)) (at_writelines t)"

definition wrapped_sendto :: "'w asyncio_transport \<Rightarrow> pybuf \<Rightarrow> pyaddr \<Rightarrow> ('w, unit) prog" where
  "wrapped_sendto t data addr =
     bnd (lift_exn (aiofn_validate_and_maybe_copy_buffer data)) (\<lambda>d. at_sendto t d addr)"

definition wrapped_write_eof :: "'w asyncio_transport \<Rightarrow> ('w, unit) prog" where
  "wrapped_write_eof t =
     andthen (at_write_eof t) (bnd (at_pipe t) (\<lambda>pipe. if pipe then at_close t else ret ()))"

definition wrapped_abort :: "'w asyncio_transport \<Rightarrow> ('w, unit) prog" where
  "wrapped_abort t = (case at_abort t of None \<Rightarrow> at_close t | Some m \<Rightarrow> m)"

definition wrapped_sendfile ::
  "'w asyncio_transport \<Rightarrow> bool \<Rightarrow> pyfile \<Rightarrow> pyint_arg \<Rightarrow> pyint_arg \<Rightarrow> ('w, unit) prog" where
  "wrapped_sendfile t sendfile_compatible file offset cnt =
     (if \<not> sendfile_compatible then raise NotImplementedErr else at_sendfile t file offset cnt)"

end
