(* ===== verification/PatchProps.thy ===== *)
theory PatchProps
  imports Patch
begin

text \<open>
  What patching a loop does: once is enough, the loop's own methods stay reachable, and a wrapped
  transport is given immutable copies of exactly what was written.
\<close>

section \<open>Patching\<close>

definition prepared :: "pyloop \<Rightarrow> pyloop" where
  "prepared l =
     l\<lparr>lp_originals := Some (case lp_originals l of None \<Rightarrow> Map.empty | Some m \<Rightarrow> m),
       lp_patched := Some (case lp_patched l of None \<Rightarrow> [] | Some p \<Rightarrow> p)\<rparr>"

lemma patch_loop_prepared: "patch_loop l = fold patch_method PATCHABLE_METHODS (prepared l)"
  by (cases l; cases "lp_originals l"; cases "lp_patched l")
     (simp_all add: patch_loop_def prepared_def Let_def)

text \<open>A patched loop: which methods are replaced, and where the originals are.\<close>

definition provided :: "string set \<Rightarrow> pyloop \<Rightarrow> string set" where
  "provided ns l = {n \<in> ns. lp_methods l n \<noteq> None}"

definition patched_by :: "string set \<Rightarrow> pyloop \<Rightarrow> pyloop \<Rightarrow> bool" where
  "patched_by ns l v =
     (lp_originals v = Some (\<lambda>n. if n \<in> provided ns l then lp_methods l n else None) \<and>
      (\<exists>patched. lp_patched v = Some patched \<and> set patched = provided ns l) \<and>
      lp_methods v = (\<lambda>n. if n \<in> provided ns l then Some (Fast n) else lp_methods l n))"

lemma patch_method_step:
  assumes "patched_by ns l v"
  shows "patched_by (insert n ns) l (patch_method n v)"
proof (cases "n \<in> provided ns l \<or> lp_methods l n = None")
  case True
  then have "provided (insert n ns) l = provided ns l" by (auto simp: provided_def)
  moreover have "patch_method n v = v"
    using assms True by (auto simp: patched_by_def patch_method_def provided_def)
  ultimately show ?thesis using assms by (simp add: patched_by_def)
next
  case False
  then obtain m where m: "lp_methods l n = Some m" "n \<notin> provided ns l" by auto
  then have p: "provided (insert n ns) l = insert n (provided ns l)" by (auto simp: provided_def)
  from assms m show ?thesis
    unfolding patched_by_def p by (auto simp: patch_method_def fun_eq_iff)
qed

lemma patch_all: "patched_by ns l v \<Longrightarrow> patched_by (ns \<union> set names) l (fold patch_method names v)"
proof (induction names arbitrary: ns v)
  case (Cons n names)
  from Cons.IH [OF patch_method_step [OF Cons.prems, of n]] show ?case by simp
qed simp

lemma patch_nothing: "patched_by ns l v \<Longrightarrow> set names \<subseteq> ns \<Longrightarrow> fold patch_method names v = v"
proof (induction names)
  case (Cons n names)
  then have "patch_method n v = v"
    by (auto simp: patched_by_def patch_method_def provided_def)
  with Cons show ?case by simp
qed simp

definition unpatched :: "pyloop \<Rightarrow> bool" where
  "unpatched l = (lp_originals l = None \<and> lp_patched l = None)"

lemma patch_fresh: "unpatched l \<Longrightarrow> patched_by (set PATCHABLE_METHODS) l (patch_loop l)"
  using patch_all [of "{}" l "prepared l" PATCHABLE_METHODS]
  by (simp add: patch_loop_prepared unpatched_def patched_by_def prepared_def provided_def)

lemma patch_again: "patched_by (set PATCHABLE_METHODS) l v \<Longrightarrow> patch_loop v = v"
  using patch_nothing [of "set PATCHABLE_METHODS" l v PATCHABLE_METHODS]
  by (cases v) (auto simp: patch_loop_prepared prepared_def patched_by_def)

fun patched_times :: "nat \<Rightarrow> pyloop \<Rightarrow> pyloop" where
  "patched_times 0 l = l"
| "patched_times (Suc n) l = patch_loop (patched_times n l)"

lemma patched_times_once: "unpatched l \<Longrightarrow> patched_times (Suc n) l = patch_loop l"
  by (induction n) (simp_all add: patch_again [OF patch_fresh])

section \<open>The loop of an application\<close>

definition demo_loop :: pyloop where
  "demo_loop = \<lparr>lp_methods = [''create_connection'' \<mapsto> LoopOwn ''create_connection'',
     ''run_forever'' \<mapsto> LoopOwn ''run_forever''], lp_originals = None, lp_patched = None\<rparr>"

text \<open>C38: patching is idempotent and loses nothing. However often a loop is patched (by
  \<open>patch_loop\<close>, a factory and a policy on top of each other) it is the loop patched once: exactly
  the methods it provides are replaced, each by the one of the same name, and the fallback
  always finds the loop's own method and never the replacement.\<close>

theorem patch_loop_once:
  assumes "unpatched l"
  shows "patched_times (Suc k) l = patch_loop l \<and>
         get_original_loop_method (patched_times k l) name = get_original_loop_method l name \<and>
         lp_methods (patch_loop l) name =
           (if name \<in> set PATCHABLE_METHODS \<and> lp_methods l name \<noteq> None then Some (Fast name)
            else lp_methods l name)"
proof -
  have m: "lp_methods (patch_loop l) name =
           (if name \<in> set PATCHABLE_METHODS \<and> lp_methods l name \<noteq> None then Some (Fast name)
            else lp_methods l name)"
    using patch_fresh [OF assms] by (simp add: patched_by_def provided_def)
  have "get_original_loop_method (patch_loop l) name = get_original_loop_method l name"
    using patch_fresh [OF assms] assms
    by (auto simp: get_original_loop_method_def patched_by_def provided_def unpatched_def split: option.splits)
  then have "get_original_loop_method (patched_times k l) name = get_original_loop_method l name"
    using patched_times_once [OF assms] by (cases k) simp_all
  with m patched_times_once [OF assms] show ?thesis by simp
qed

theorem patch_loop_once_witness:
  "patched_times 3 demo_loop = patch_loop demo_loop \<and>
   get_original_loop_method (patched_times 2 demo_loop) ''create_connection'' =
     Inr (LoopOwn ''create_connection'') \<and>
   lp_methods (patch_loop demo_loop) ''create_connection'' = Some (Fast ''create_connection'') \<and>
   lp_methods (patch_loop demo_loop) ''run_forever'' = Some (LoopOwn ''run_forever'')"
proof -
  have u: "unpatched demo_loop" by (simp add: unpatched_def demo_loop_def)
  show ?thesis
    using patch_loop_once [OF u, of 2 "''create_connection''"] patch_loop_once [OF u, of 2 "''run_forever''"]
    by (simp add: numeral_3_eq_3 numeral_2_eq_2 get_original_loop_method_def demo_loop_def PATCHABLE_METHODS_def)
qed

lemma factory_patches:
  "unpatched new_loop \<Longrightarrow> pw_policy w = PatchedPolicy BasePolicy \<Longrightarrow>
     fst (loop_factory None new_loop w) = Inr (patch_loop new_loop)"
  by (simp add: loop_factory_def run Let_def patch_again [OF patch_fresh])

section \<open>Wrapped transports\<close>

text \<open>What reaches the loop's transport has the content that was written, and cannot change later.\<close>

lemma validated_copy:
  assumes "aiofn_validate_and_maybe_copy_buffer d = Inr d'"
  shows "immutable_buf d' \<and> buf_content d' = buf_content d"
  using assms maybe_copy_immutable [of d d'] maybe_copy_content [of d d']
  by (simp add: aiofn_validate_and_maybe_copy_buffer_def split: sum.splits)

lemma copied_lines:
  "copy_lines ds = Inr ds' \<Longrightarrow>
     list_all immutable_buf ds' \<and> map buf_content ds' = map buf_content (filter data_true ds)"
proof (induction ds arbitrary: ds')
  case (Cons d ds)
  then show ?case
    using validated_copy [of d] by (auto split: if_splits sum.splits)
qed simp

end
