(* ===== verification/OpensslCompat.thy ===== *)
theory OpensslCompat
  imports MemBio "HOL-Library.Sublist"
begin

text \<open>
  Binding to the OpenSSL that Python itself uses: where its two libraries are (openssl_compat.py,
  utils_posix.pyx, utils_win.pyx), and the table of function pointers that is filled from
  them once (openssl_compat.c, on a POSIX build). The dynamic linker is a record of functions.
  The text that \<open>set_last_error\<close> prints is left out.
\<close>

section \<open>The dynamic linker\<close>

text \<open>
  \<open>ld_loaded\<close> is \<open>dlopen\<close> with \<open>RTLD_NOLOAD\<close>, \<open>ld_load\<close> without it, \<open>ld_error\<close> what \<open>dlerror\<close> says
  after it failed, \<open>ld_sym\<close> is \<open>dlsym\<close>, \<open>ld_owner\<close> the file that \<open>dladdr\<close> names, and
  \<open>ld_norm\<close> is \<open>os.path.normpath\<close>.
\<close>

record linker =
  ld_loaded :: "string \<Rightarrow> nat option"
  ld_load :: "string \<Rightarrow> nat option"
  ld_error :: "string \<Rightarrow> string option"
  ld_sym :: "nat \<Rightarrow> string \<Rightarrow> nat option"
  ld_owner :: "nat \<Rightarrow> string option"
  ld_norm :: "string \<Rightarrow> string"

section \<open>The table of function pointers\<close>

text \<open>
  \<open>oc_bound\<close> holds the pointers \<open>aiofn_...\<close> by the name of the symbol. \<open>oc_done\<close> is the state of
  \<open>pthread_once\<close>.
\<close>

record openssl_binding =
  oc_ssl_lib :: "nat option"
  oc_crypto_lib :: "nat option"
  oc_bound :: "string \<Rightarrow> nat option"
  oc_error :: "string option"
  oc_done :: bool
  oc_result :: bool

definition unbound :: openssl_binding where
  "unbound = \<lparr>oc_ssl_lib = None, oc_crypto_lib = None, oc_bound = (\<lambda>_. None), oc_error = None,
     oc_done = False, oc_result = False\<rparr>"

definition set_last_error :: "string \<Rightarrow> (openssl_binding, unit) prog" where
  \<comment> \<open>a buffer of 1024 characters\<close>
  "set_last_error text = upd (\<lambda>w. w\<lparr>oc_error := Some (take 1023 text)\<rparr>)"

definition symbol_in :: "linker \<Rightarrow> nat option \<Rightarrow> string \<Rightarrow> nat option" where
  "symbol_in ld lib name = (case lib of None \<Rightarrow> None | Some h \<Rightarrow> ld_sym ld h name)"

definition resolve_symbol :: "linker \<Rightarrow> string \<Rightarrow> openssl_binding \<Rightarrow> nat option" where
  "resolve_symbol ld name w =
     (case symbol_in ld (oc_ssl_lib w) name of
        Some p \<Rightarrow> Some p
      | None \<Rightarrow> symbol_in ld (oc_crypto_lib w) name)"

definition open_library :: "linker \<Rightarrow> string option \<Rightarrow> string \<Rightarrow> (openssl_binding, nat option) prog" where
  "open_library ld path kind =
     (if path = None \<or> path = Some []
      then andthen (set_last_error (''empty '' @ kind @ '' library path'')) (ret None)
      else
        (case ld_loaded ld (the path) of
           Some lib \<Rightarrow> ret (Some lib)
         | None \<Rightarrow>
             (case ld_load ld (the path) of
                Some lib \<Rightarrow> ret (Some lib)
              | None \<Rightarrow>
                  andthen
                    (set_last_error
                      (''dlopen '' @ kind @ '' failed for '' @ [CHR 0x27] @ the path @ [CHR 0x27] @ '': '' @
                       (case ld_error ld (the path) of Some err \<Rightarrow> err | None \<Rightarrow> ''unknown'')))
                    (ret None))))"

text \<open>
  A symbol that must exist, one that need not, and the certificate of the peer, which OpenSSL 3
  renamed.
\<close>

datatype openssl_symbol = Required string | Optional string | PeerCertificate

definition bind_pointer :: "string \<Rightarrow> nat option \<Rightarrow> (openssl_binding, unit) prog" where
  "bind_pointer name p = upd (\<lambda>w. w\<lparr>oc_bound := (oc_bound w)(name := p)\<rparr>)"

definition bind_symbol :: "linker \<Rightarrow> openssl_symbol \<Rightarrow> (openssl_binding, bool) prog" where
  \<comment> \<open>whether the initialization goes on\<close>
  "bind_symbol ld s =
     (case s of
        Required name \<Rightarrow>
          bnd (gets (resolve_symbol ld name)) (\<lambda>p.
            andthen (bind_pointer name p)
              (if p = None then andthen (set_last_error (''missing symbol: '' @ name)) (ret False)
               else ret True))
      | Optional name \<Rightarrow>
          bnd (gets (resolve_symbol ld name)) (\<lambda>p. andthen (bind_pointer name p) (ret True))
      | PeerCertificate \<Rightarrow>
          bnd (gets (\<lambda>w. case resolve_symbol ld ''SSL_get1_peer_certificate'' w of
                Some p \<Rightarrow> Some p
              | None \<Rightarrow> resolve_symbol ld ''SSL_get_peer_certificate'' w)) (\<lambda>p.
            andthen (bind_pointer ''SSL_get_peer_certificate'' p)
              (if p = None
               then andthen
                 (set_last_error ''missing symbol: SSL_get1_peer_certificate/SSL_get_peer_certificate'')
                 (ret False)
               else ret True)))"

fun bind_symbols :: "linker \<Rightarrow> openssl_symbol list \<Rightarrow> (openssl_binding, bool) prog" where
  "bind_symbols ld [] = ret True"
| "bind_symbols ld (s # ss) =
     bnd (bind_symbol ld s) (\<lambda>ok. if ok then bind_symbols ld ss else ret False)"

definition openssl_symbols :: "openssl_symbol list" where
  "openssl_symbols =
     map Required
       [''BIO_new'', ''BIO_free'', ''BIO_ctrl'', ''BIO_set_flags'', ''BIO_clear_flags'', ''BIO_set_data'',
        ''BIO_get_data'', ''BIO_set_init'', ''BIO_set_shutdown'', ''BIO_meth_new'',
        ''BIO_meth_set_write'', ''BIO_meth_set_read'', ''BIO_meth_set_puts'', ''BIO_meth_set_gets'',
        ''BIO_meth_set_ctrl'', ''BIO_meth_set_create'', ''BIO_meth_set_destroy'', ''BIO_meth_free'',
        ''SSL_new'', ''SSL_free'', ''SSL_set_bio'', ''SSL_set_fd'', ''SSL_get_rbio'', ''SSL_get_wbio'',
        ''SSL_set_accept_state'', ''SSL_set_connect_state'', ''SSL_ctrl'', ''SSL_clear_options''] @
     [Optional ''SSL_set_options''] @
     map Required
       [''SSL_get_error'', ''SSL_pending'', ''SSL_renegotiate'', ''SSL_do_handshake'', ''SSL_read'',
        ''SSL_write''] @
     [Optional ''SSL_sendfile''] @
     map Required
       [''SSL_shutdown'', ''SSL_set_read_ahead'', ''SSL_get_verify_result'', ''SSL_get_version'',
        ''SSL_get_finished'', ''SSL_get_peer_finished'', ''SSL_session_reused'',
        ''SSL_get_peer_cert_chain'', ''SSL_get0_verified_chain'', ''SSL_get_ciphers'',
        ''SSL_get_client_ciphers'', ''SSL_get0_alpn_selected'', ''SSL_get_current_cipher'',
        ''SSL_CIPHER_get_name'', ''SSL_CIPHER_get_version'', ''SSL_CIPHER_get_bits'', ''SSL_get0_param'',
        ''SSL_CTX_get0_param'', ''X509_VERIFY_PARAM_get_hostflags'',
        ''X509_VERIFY_PARAM_set_hostflags'', ''X509_VERIFY_PARAM_set1_host'',
        ''X509_VERIFY_PARAM_set1_ip'', ''X509_verify_cert_error_string'', ''X509_free'', ''i2d_X509'',
        ''OPENSSL_sk_num'', ''OPENSSL_sk_value''] @
     [PeerCertificate] @
     map Required
       [''ERR_peek_last_error'', ''ERR_clear_error'', ''ERR_lib_error_string'',
        ''ERR_reason_error_string'', ''ERR_print_errors_cb'', ''ASN1_OCTET_STRING_free'',
        ''ASN1_STRING_get0_data'', ''ASN1_STRING_length'', ''a2i_IPADDRESS'']"

definition init_openssl_compat_impl ::
  "linker \<Rightarrow> string option \<Rightarrow> string option \<Rightarrow> (openssl_binding, bool) prog" where
  "init_openssl_compat_impl ld ssl_lib_path crypto_lib_path =
     andthen (upd (\<lambda>w. w\<lparr>oc_error := None\<rparr>))
       (bnd (open_library ld ssl_lib_path ''ssl'') (\<lambda>ssl.
          andthen (upd (\<lambda>w. w\<lparr>oc_ssl_lib := ssl\<rparr>))
            (if ssl = None then ret False
             else
               bnd (open_library ld crypto_lib_path ''crypto'') (\<lambda>crypto.
                 andthen (upd (\<lambda>w. w\<lparr>oc_crypto_lib := crypto\<rparr>))
                   (if crypto = None then ret False else bind_symbols ld openssl_symbols)))))"

text \<open>\<open>once_ok\<close> is whether \<open>pthread_once\<close> succeeds.\<close>

definition init_openssl_compat ::
  "linker \<Rightarrow> bool \<Rightarrow> string option \<Rightarrow> string option \<Rightarrow> (openssl_binding, bool) prog" where
  "init_openssl_compat ld once_ok ssl_lib_path crypto_lib_path =
     (if \<not> once_ok then andthen (set_last_error ''pthread_once failed'') (ret False)
      else
        andthen
          (unless oc_done
            (bnd (init_openssl_compat_impl ld ssl_lib_path crypto_lib_path)
              (\<lambda>r. upd (\<lambda>w. w\<lparr>oc_result := r, oc_done := True\<rparr>))))
          (gets oc_result))"

text \<open>"_init_openssl": what importing the engine does.\<close>

definition init_openssl :: "linker \<Rightarrow> bool \<Rightarrow> (string \<times> string) option \<Rightarrow> (openssl_binding, unit) prog" where
  "init_openssl ld once_ok libs =
     (case libs of
        None \<Rightarrow> raise AssertErr
      | Some (libssl, libcrypto) \<Rightarrow>
          bnd (init_openssl_compat ld once_ok (Some libssl) (Some libcrypto)) (\<lambda>ok.
            if ok then ret ()
            else bnd (gets oc_error) (\<lambda>missing_lib. case missing_lib of
                Some missing \<Rightarrow>
                  reraise (exn_msg ImportErr
                    (''aiofastnet: failed to initialize OpenSSL compatibility layer; missing symbol: '' @
                     missing @ ''; ssl_lib='' @ libssl @ '', crypto_lib='' @ libcrypto))
              | None \<Rightarrow>
                  reraise (exn_msg ImportErr
                    ''aiofastnet: failed to initialize OpenSSL compatibility layer''))))"

section \<open>Wrappers of the control call\<close>

text \<open>
  \<open>ctrl cmd larg\<close> is \<open>BIO_ctrl\<close> or \<open>SSL_ctrl\<close> on one object; a C \<open>long\<close> that is cast to \<open>int\<close> keeps
  its low 32 bits.
\<close>

definition long_to_int :: "int \<Rightarrow> int" where
  "long_to_int n = signed_take_bit 31 n"

definition aiofn_BIO_pending :: "(bio_cmd \<Rightarrow> int \<Rightarrow> int) \<Rightarrow> int" where
  "aiofn_BIO_pending ctrl = (let n = ctrl CTRL_PENDING 0 in if n < 0 then -1 else long_to_int n)"

definition aiofn_BIO_reset :: "(bio_cmd \<Rightarrow> int \<Rightarrow> int) \<Rightarrow> int" where
  "aiofn_BIO_reset ctrl = long_to_int (ctrl CTRL_RESET 0)"

definition aiofn_SSL_set_options_available :: "openssl_binding \<Rightarrow> bool" where
  "aiofn_SSL_set_options_available w = (oc_bound w ''SSL_set_options'' \<noteq> None)"

definition aiofn_SSL_set_options ::
  "(nat \<Rightarrow> 64 word \<Rightarrow> 64 word) \<Rightarrow> openssl_binding \<Rightarrow> 64 word \<Rightarrow> 64 word" where
  \<comment> \<open>\<open>call p\<close> is the function at the address \<open>p\<close>\<close>
  "aiofn_SSL_set_options call w options =
     (case oc_bound w ''SSL_set_options'' of Some p \<Rightarrow> call p options | None \<Rightarrow> 0)"

unbundle bit_operations_syntax

definition aiofn_ERR_GET_LIB :: "64 word \<Rightarrow> nat" where
  "aiofn_ERR_GET_LIB e = unat (drop_bit 23 e AND 0xFF)"

section \<open>Where the libraries are: POSIX\<close>

text \<open>
  The state is the list of handles that are open. An \<open>OSError\<close> that is made from a text only has
  no number; it is \<open>OSErr 0\<close>.
\<close>

definition library_of :: "linker \<Rightarrow> nat \<Rightarrow> string \<Rightarrow> (nat list, string) prog" where
  "library_of ld h name =
     (case ld_sym ld h name of
        None \<Rightarrow> raise (OSErr 0)
      | Some addr \<Rightarrow>
          (case ld_owner ld addr of None \<Rightarrow> raise (OSErr 0) | Some f \<Rightarrow> ret (ld_norm ld f)))"

definition posix_library_paths :: "linker \<Rightarrow> string \<Rightarrow> (nat list, string \<times> string) prog" where
  "posix_library_paths ld ssl_module_path =
     (case ld_load ld ssl_module_path of
        None \<Rightarrow> raise (OSErr 0)
      | Some h \<Rightarrow>
          andthen (upd (\<lambda>hs. h # hs))
            (try_finally
              (bnd (library_of ld h ''SSL_new'') (\<lambda>libssl.
                bnd (library_of ld h ''BIO_new'') (\<lambda>libcrypto. ret (libssl, libcrypto))))
              (upd (remove1 h))))"

definition find_openssl_library_paths ::
  "linker \<Rightarrow> string option \<Rightarrow> (nat list, (string \<times> string) option) prog" where
  "find_openssl_library_paths ld ssl_module_path =
     (case ssl_module_path of
        None \<Rightarrow> ret None
      | Some path \<Rightarrow>
          bnd
            (try_except (posix_library_paths ld path)
              (\<lambda>e. if is_oserror e then raise ImportErr else reraise e))
            (\<lambda>paths. ret (Some paths)))"

text \<open>\<open>check_hostname\<close> of the context that a transport makes for itself.\<close>

definition transport_context_checks_hostname :: "string option \<Rightarrow> bool" where
  "transport_context_checks_hostname server_hostname =
     (server_hostname \<noteq> None \<and> server_hostname \<noteq> Some [])"

section \<open>Where the libraries are: Windows\<close>

text \<open>
  One answer of \<open>EnumProcessModules\<close>: whether there was memory for the list, the error of the call
  if it failed, how many bytes it needed, and the file names of the modules it listed, or the error of
  \<open>GetModuleFileNameW\<close>. A handle has eight bytes. The list of modules may grow between two
  calls, so the loop goes on until one fits; a process that has no further answer is \<open>OutOfFuel\<close>.
\<close>

record modules_answer =
  ma_memory :: bool
  ma_error :: "int option"
  ma_needed :: "32 word"
  ma_names :: "(int + string) list"

fun module_names :: "(int + string) list \<Rightarrow> exn_class + string list" where
  "module_names [] = Inr []"
| "module_names (Inl err # ns) = Inl (OSErr err)"
| "module_names (Inr n # ns) =
     (case module_names ns of Inl c \<Rightarrow> Inl c | Inr paths \<Rightarrow> Inr (n # paths))"

fun loaded_library_paths :: "modules_answer list \<Rightarrow> 32 word \<Rightarrow> exn_class + string list" where
  "loaded_library_paths [] n = Inl OutOfFuel"
| "loaded_library_paths (a # answers) n =
     (if \<not> ma_memory a then Inl MemoryErr
      else
        (case ma_error a of
           Some err \<Rightarrow> Inl (OSErr err)
         | None \<Rightarrow>
             if ma_needed a \<le> n * 8 then module_names (take (unat (ma_needed a div 8)) (ma_names a))
             else
               loaded_library_paths answers
                 (if ma_needed a mod 8 \<noteq> 0 then ma_needed a div 8 + 1 else ma_needed a div 8)))"

definition lower_char :: "char \<Rightarrow> char" where
  \<comment> \<open>the letters of ASCII; no other letter becomes one that the search looks for\<close>
  "lower_char c = (let n = of_char c :: nat in if 65 \<le> n \<and> n \<le> 90 then char_of (n + 32) else c)"

definition contains :: "string \<Rightarrow> string \<Rightarrow> bool" where
  "contains sub s = list_ex (prefix sub) (suffixes s)"

definition consider_library ::
  "(string \<Rightarrow> string) \<Rightarrow> string \<Rightarrow> string option \<times> string option \<Rightarrow> string option \<times> string option" where
  "consider_library norm dl found =
     (case found of (libssl, libcrypto) \<Rightarrow>
        if dl = [] then found
        else
          let dl_lower = map lower_char dl in
          if contains ''libssl'' dl_lower then
            (if libssl = None \<or> contains ''ython'' dl_lower then (Some (norm dl), libcrypto) else found)
          else if contains ''libcrypto'' dl_lower then
            (if libcrypto = None \<or> contains ''ython'' dl_lower then (libssl, Some (norm dl)) else found)
          else found)"

definition windows_library_paths ::
  "(string \<Rightarrow> string) \<Rightarrow> modules_answer list \<Rightarrow> exn_class + string \<times> string" where
  "windows_library_paths norm answers =
     (case loaded_library_paths answers 1024 of
        Inl c \<Rightarrow> Inl c
      | Inr dls \<Rightarrow>
          (case fold (consider_library norm) dls (None, None) of
             (Some libssl, Some libcrypto) \<Rightarrow> Inr (libssl, libcrypto)
           | _ \<Rightarrow> Inl (OSErr 0)))"


section \<open>What the binding promises\<close>

text \<open>The pointer that a symbol fills, where it is looked up, and whether it may be missing.\<close>

fun slot_of :: "openssl_symbol \<Rightarrow> string" where
  "slot_of (Required name) = name"
| "slot_of (Optional name) = name"
| "slot_of PeerCertificate = ''SSL_get_peer_certificate''"

fun names_of :: "openssl_symbol \<Rightarrow> string list" where
  "names_of (Required name) = [name]"
| "names_of (Optional name) = [name]"
| "names_of PeerCertificate = [''SSL_get1_peer_certificate'', ''SSL_get_peer_certificate'']"

definition is_optional :: "openssl_symbol \<Rightarrow> bool" where
  "is_optional s = (case s of Optional _ \<Rightarrow> True | _ \<Rightarrow> False)"

text \<open>
  The first answer for the names of a symbol, each name in the first library and then in the
  second.
\<close>

definition address_of :: "linker \<Rightarrow> nat \<Rightarrow> nat \<Rightarrow> openssl_symbol \<Rightarrow> nat option" where
  "address_of ld ssl crypto s =
     (case List.map_filter (\<lambda>(name, h). ld_sym ld h name) (List.product (names_of s) [ssl, crypto]) of
        [] \<Rightarrow> None
      | p # _ \<Rightarrow> Some p)"

definition usable :: "linker \<Rightarrow> nat \<Rightarrow> nat \<Rightarrow> openssl_symbol \<Rightarrow> bool" where
  "usable ld ssl crypto s = (is_optional s \<or> address_of ld ssl crypto s \<noteq> None)"

definition opened :: "linker \<Rightarrow> string \<Rightarrow> nat option" where
  "opened ld path =
     (if path = [] then None else case ld_loaded ld path of Some h \<Rightarrow> Some h | None \<Rightarrow> ld_load ld path)"

lemma slots_distinct: "distinct (map slot_of openssl_symbols)"
  by (simp add: openssl_symbols_def)

lemma resolve_is_address:
  assumes "oc_ssl_lib w = Some ssl" "oc_crypto_lib w = Some crypto"
  shows "resolve_symbol ld name w = address_of ld ssl crypto (Required name)"
    and "resolve_symbol ld name w = address_of ld ssl crypto (Optional name)"
    and "(case resolve_symbol ld ''SSL_get1_peer_certificate'' w of
            Some p \<Rightarrow> Some p
          | None \<Rightarrow> resolve_symbol ld ''SSL_get_peer_certificate'' w) =
         address_of ld ssl crypto PeerCertificate"
  using assms
  by (auto simp: resolve_symbol_def symbol_in_def address_of_def List.map_filter_simps
      split: option.splits)

lemma bind_symbol_result:
  assumes "oc_ssl_lib w = Some ssl" "oc_crypto_lib w = Some crypto"
  shows "\<exists>err. bind_symbol ld s w =
    (Inr (usable ld ssl crypto s),
     w\<lparr>oc_bound := (oc_bound w)(slot_of s := address_of ld ssl crypto s), oc_error := err\<rparr>) \<and>
    (usable ld ssl crypto s \<longrightarrow> err = oc_error w) \<and> (\<not> usable ld ssl crypto s \<longrightarrow> err \<noteq> None)"
  using resolve_is_address [OF assms]
  by (cases s)
    (auto simp: bind_symbol_def bind_pointer_def set_last_error_def usable_def is_optional_def run
      intro!: exI)

lemma bind_symbols_result:
  assumes "oc_ssl_lib w = Some ssl" "oc_crypto_lib w = Some crypto"
  shows "\<exists>b err. bind_symbols ld ss w =
      (Inr (list_all (usable ld ssl crypto) ss), w\<lparr>oc_bound := b, oc_error := err\<rparr>) \<and>
    (list_all (usable ld ssl crypto) ss \<longrightarrow> err = oc_error w \<and>
       b = fold (\<lambda>s f. f(slot_of s := address_of ld ssl crypto s)) ss (oc_bound w)) \<and>
    (\<not> list_all (usable ld ssl crypto) ss \<longrightarrow> err \<noteq> None)"
  using assms
proof (induction ss arbitrary: w)
  case Nil
  show ?case by (rule exI [of _ "oc_bound w"], rule exI [of _ "oc_error w"]) (simp add: run)
next
  case (Cons s ss)
  obtain err where one: "bind_symbol ld s w =
      (Inr (usable ld ssl crypto s),
       w\<lparr>oc_bound := (oc_bound w)(slot_of s := address_of ld ssl crypto s), oc_error := err\<rparr>)"
    "usable ld ssl crypto s \<Longrightarrow> err = oc_error w" "\<not> usable ld ssl crypto s \<Longrightarrow> err \<noteq> None"
    using bind_symbol_result [OF Cons.prems] by blast
  let ?w = "w\<lparr>oc_bound := (oc_bound w)(slot_of s := address_of ld ssl crypto s), oc_error := err\<rparr>"
  show ?case
  proof (cases "usable ld ssl crypto s")
    case True
    have "oc_ssl_lib ?w = Some ssl" "oc_crypto_lib ?w = Some crypto"
      using Cons.prems by simp_all
    from Cons.IH [OF this] True one show ?thesis by (auto simp: run)
  next
    case False
    with one show ?thesis by (auto simp: run intro!: exI)
  qed
qed

lemma fold_slots:
  "distinct (map slot_of ss) \<Longrightarrow> s \<in> set ss \<Longrightarrow>
   fold (\<lambda>s f. f(slot_of s := a s)) ss f (slot_of s) = a s"
proof (induction ss arbitrary: f)
  case (Cons x xs)
  have other: "slot_of x \<notin> slot_of ` set ys \<Longrightarrow>
    fold (\<lambda>s f. f(slot_of s := a s)) ys g (slot_of x) = g (slot_of x)" for ys g
    by (induction ys arbitrary: g) auto
  show ?case using Cons other [of xs] by (auto simp del: fun_upd_apply simp: fun_upd_same)
qed simp

lemma open_library_result:
  "\<exists>err. open_library ld (Some path) kind w = (Inr (opened ld path), w\<lparr>oc_error := err\<rparr>) \<and>
    (opened ld path \<noteq> None \<longrightarrow> err = oc_error w) \<and> (opened ld path = None \<longrightarrow> err \<noteq> None)"
  by (auto simp: open_library_def opened_def set_last_error_def run split: option.splits
      intro!: exI)

lemma init_impl_result:
  obtains w where
    "init_openssl_compat_impl ld (Some sp) (Some cp) unbound =
       (Inr (\<exists>ssl crypto. opened ld sp = Some ssl \<and> opened ld cp = Some crypto \<and>
              list_all (usable ld ssl crypto) openssl_symbols), w)"
    "\<And>ssl crypto s. opened ld sp = Some ssl \<Longrightarrow> opened ld cp = Some crypto \<Longrightarrow>
       list_all (usable ld ssl crypto) openssl_symbols \<Longrightarrow>
       oc_error w = None \<and>
       (s \<in> set openssl_symbols \<longrightarrow> oc_bound w (slot_of s) = address_of ld ssl crypto s)"
    "\<And>ssl crypto. opened ld sp = None \<or> opened ld cp = None \<or>
       (opened ld sp = Some ssl \<and> opened ld cp = Some crypto \<and>
        \<not> list_all (usable ld ssl crypto) openssl_symbols) \<Longrightarrow> oc_error w \<noteq> None"
proof (cases "opened ld sp")
  case None
  obtain err where "open_library ld (Some sp) ''ssl'' (unbound\<lparr>oc_error := None\<rparr>) =
      (Inr None, unbound\<lparr>oc_error := err\<rparr>)" "err \<noteq> None"
    using open_library_result [of ld sp "''ssl''" "unbound\<lparr>oc_error := None\<rparr>"] None by auto
  with None show ?thesis by (intro that) (auto simp: init_openssl_compat_impl_def run)
next
  case ssl: (Some ssl)
  have first: "open_library ld (Some sp) ''ssl'' (unbound\<lparr>oc_error := None\<rparr>) =
      (Inr (Some ssl), unbound\<lparr>oc_error := None\<rparr>)"
    using open_library_result [of ld sp "''ssl''" "unbound\<lparr>oc_error := None\<rparr>"] ssl by auto
  let ?w = "unbound\<lparr>oc_error := None, oc_ssl_lib := Some ssl\<rparr>"
  obtain err where second: "open_library ld (Some cp) ''crypto'' ?w =
      (Inr (opened ld cp), ?w\<lparr>oc_error := err\<rparr>)"
    "opened ld cp = None \<Longrightarrow> err \<noteq> None" "opened ld cp \<noteq> None \<Longrightarrow> err = None"
    using open_library_result [of ld cp "''crypto''" ?w] by auto
  show ?thesis
  proof (cases "opened ld cp")
    case None
    with first second ssl show ?thesis
      by (intro that) (auto simp: init_openssl_compat_impl_def run)
  next
    case (Some crypto)
    let ?v = "unbound\<lparr>oc_ssl_lib := Some ssl, oc_error := None, oc_crypto_lib := Some crypto\<rparr>"
    obtain b err' where "bind_symbols ld openssl_symbols ?v =
        (Inr (list_all (usable ld ssl crypto) openssl_symbols), ?v\<lparr>oc_bound := b, oc_error := err'\<rparr>)"
      "list_all (usable ld ssl crypto) openssl_symbols \<Longrightarrow> err' = None \<and>
         b = fold (\<lambda>s f. f(slot_of s := address_of ld ssl crypto s)) openssl_symbols (oc_bound ?v)"
      "\<not> list_all (usable ld ssl crypto) openssl_symbols \<Longrightarrow> err' \<noteq> None"
      using bind_symbols_result [of ?v ssl crypto ld openssl_symbols] by auto
    with first second ssl Some fold_slots [OF slots_distinct] show ?thesis
      by (intro that) (auto simp: init_openssl_compat_impl_def run)
  qed
qed

lemma init_once:
  "fst (init_openssl_compat ld True sp cp w) = Inr ok \<Longrightarrow>
   init_openssl_compat ld' True sp' cp' (snd (init_openssl_compat ld True sp cp w)) =
     (Inr ok, snd (init_openssl_compat ld True sp cp w))"
  by (auto simp: init_openssl_compat_def run split: prod.splits sum.splits)

text \<open>C40: The first initialization succeeds exactly when both libraries open and every required
  symbol is found. Then each pointer is the first answer for its symbol, in libssl and then in
  libcrypto, \<open>SSL_get_peer_certificate\<close> under its new name first, and no error is recorded;
  otherwise an error is. Every later initialization gives the result of the first and changes
  nothing, whatever libraries it names.
\<close>

theorem openssl_bound_once:
  assumes "init_openssl_compat ld True (Some sp) (Some cp) unbound = (Inr ok, w)"
  shows "(ok \<longleftrightarrow> (\<exists>ssl crypto. opened ld sp = Some ssl \<and> opened ld cp = Some crypto \<and>
            list_all (usable ld ssl crypto) openssl_symbols)) \<and>
         (ok \<longrightarrow> oc_error w = None \<and>
            list_all (\<lambda>s. oc_bound w (slot_of s) =
              address_of ld (the (opened ld sp)) (the (opened ld cp)) s) openssl_symbols) \<and>
         (\<not> ok \<longrightarrow> oc_error w \<noteq> None) \<and>
         (\<forall>ld' sp' cp'. init_openssl_compat ld' True sp' cp' w = (Inr ok, w))"
proof -
  obtain v where v:
    "init_openssl_compat_impl ld (Some sp) (Some cp) unbound =
       (Inr (\<exists>ssl crypto. opened ld sp = Some ssl \<and> opened ld cp = Some crypto \<and>
              list_all (usable ld ssl crypto) openssl_symbols), v)"
    "\<And>ssl crypto s. opened ld sp = Some ssl \<Longrightarrow> opened ld cp = Some crypto \<Longrightarrow>
       list_all (usable ld ssl crypto) openssl_symbols \<Longrightarrow>
       oc_error v = None \<and>
       (s \<in> set openssl_symbols \<longrightarrow> oc_bound v (slot_of s) = address_of ld ssl crypto s)"
    "\<And>ssl crypto. opened ld sp = None \<or> opened ld cp = None \<or>
       (opened ld sp = Some ssl \<and> opened ld cp = Some crypto \<and>
        \<not> list_all (usable ld ssl crypto) openssl_symbols) \<Longrightarrow> oc_error v \<noteq> None"
    by (rule init_impl_result [of ld sp cp]) blast
  have w: "w = v\<lparr>oc_result := ok, oc_done := True\<rparr>"
    and ok: "ok \<longleftrightarrow> (\<exists>ssl crypto. opened ld sp = Some ssl \<and> opened ld cp = Some crypto \<and>
              list_all (usable ld ssl crypto) openssl_symbols)"
    using assms v(1) by (auto simp: init_openssl_compat_def unbound_def run)
  have "oc_error w = None \<and> list_all (\<lambda>s. oc_bound w (slot_of s) =
      address_of ld (the (opened ld sp)) (the (opened ld cp)) s) openssl_symbols" if ok
    using that ok w v(2) by (auto simp: list_all_iff)
  moreover have "oc_error w \<noteq> None" if "\<not> ok"
    using that ok w v(3) by (cases "opened ld sp"; cases "opened ld cp") auto
  moreover have "init_openssl_compat ld' True sp' cp' w = (Inr ok, w)" for ld' sp' cp'
    using init_once [of ld "Some sp" "Some cp" unbound ok] assms by simp
  ultimately show ?thesis using ok by blast
qed

text \<open>A linker that finds every symbol but \<open>SSL_sendfile\<close>, each in libcrypto.\<close>

definition old_linker :: linker where
  "old_linker = \<lparr>ld_loaded = (\<lambda>path. if path = ''libssl.so'' then Some 1 else None),
     ld_load = (\<lambda>_. Some 2), ld_error = (\<lambda>_. None),
     ld_sym = (\<lambda>h name. if h = 2 \<and> name \<noteq> ''SSL_sendfile'' then Some (length name) else None),
     ld_owner = (\<lambda>_. Some ''libssl.so''), ld_norm = (\<lambda>path. path)\<rparr>"

theorem openssl_bound_once_witness:
  "let w = snd (init_openssl_compat old_linker True (Some ''libssl.so'') (Some ''libcrypto.so'') unbound)
   in oc_bound w ''SSL_sendfile'' = None \<and> oc_bound w ''SSL_read'' = Some 8 \<and> oc_error w = None"
proof -
  let ?r = "init_openssl_compat old_linker True (Some ''libssl.so'') (Some ''libcrypto.so'') unbound"
  have o: "opened old_linker ''libssl.so'' = Some 1" "opened old_linker ''libcrypto.so'' = Some 2"
    by (simp_all add: opened_def old_linker_def)
  have u: "list_all (usable old_linker 1 2) openssl_symbols"
    by (simp add: openssl_symbols_def usable_def is_optional_def address_of_def old_linker_def
        List.map_filter_simps)
  obtain ok where ok: "fst ?r = Inr ok"
    by (rule init_impl_result [of old_linker "''libssl.so''" "''libcrypto.so''"])
      (auto simp: init_openssl_compat_def unbound_def run)
  from openssl_bound_once [of old_linker "''libssl.so''" "''libcrypto.so''" ok "snd ?r"] ok
  have t: "oc_error (snd ?r) = None \<and>
      list_all (\<lambda>s. oc_bound (snd ?r) (slot_of s) = address_of old_linker 1 2 s) openssl_symbols"
    using o u by (auto simp: prod_eq_iff)
  moreover have "Optional ''SSL_sendfile'' \<in> set openssl_symbols"
    "Required ''SSL_read'' \<in> set openssl_symbols"
    by (simp_all add: openssl_symbols_def)
  ultimately have "oc_bound (snd ?r) ''SSL_sendfile'' = address_of old_linker 1 2 (Optional ''SSL_sendfile'')"
    "oc_bound (snd ?r) ''SSL_read'' = address_of old_linker 1 2 (Required ''SSL_read'')"
    by (auto simp: list_all_iff)
  with t show ?thesis
    by (simp add: Let_def address_of_def old_linker_def List.map_filter_simps)
qed


section \<open>What the search for the libraries promises\<close>

lemma posix_search_balanced:
  \<comment> \<open>The handle of the extension module is closed on every path, and only \<open>ImportError\<close> escapes.\<close>
  "snd (find_openssl_library_paths ld path hs) = hs"
  "fst (find_openssl_library_paths ld path hs) = Inl e \<Longrightarrow> exn_cls e = ImportErr"
  by (auto simp: find_openssl_library_paths_def posix_library_paths_def library_of_def run
      is_oserror_def exn_of_def split: option.splits)

lemma posix_search_result:
  "ld_load ld path = Some h \<Longrightarrow> ld_sym ld h ''SSL_new'' = Some a \<Longrightarrow> ld_owner ld a = Some s \<Longrightarrow>
   ld_sym ld h ''BIO_new'' = Some b \<Longrightarrow> ld_owner ld b = Some c \<Longrightarrow>
   find_openssl_library_paths ld (Some path) hs = (Inr (Some (ld_norm ld s, ld_norm ld c)), hs)"
  by (simp add: find_openssl_library_paths_def posix_library_paths_def library_of_def run)

text \<open>
  On Windows: of the loaded files whose name contains libssl, the last one with "ython" in its
  name, or the first one if there is none; a file is taken for libcrypto only if it is not taken
  for libssl.
\<close>

definition is_libssl :: "string \<Rightarrow> bool" where
  "is_libssl dl = contains ''libssl'' (map lower_char dl)"

definition is_libcrypto :: "string \<Rightarrow> bool" where
  "is_libcrypto dl = (contains ''libcrypto'' (map lower_char dl) \<and> \<not> is_libssl dl)"

definition preferred :: "string list \<Rightarrow> string option" where
  "preferred dls =
     (case filter (\<lambda>dl. contains ''ython'' (map lower_char dl)) dls of
        [] \<Rightarrow> (case dls of [] \<Rightarrow> None | dl # _ \<Rightarrow> Some dl)
      | ps \<Rightarrow> Some (last ps))"

lemma contains_nil [simp]: "contains (c # cs) [] = False"
  by (simp add: contains_def)

lemma preferred_snoc:
  "preferred (dls @ [dl]) =
     (if preferred dls = None \<or> contains ''ython'' (map lower_char dl) then Some dl else preferred dls)"
  by (auto simp: preferred_def split: list.splits)

lemma windows_choice:
  "fold (consider_library norm) dls (None, None) =
     (map_option norm (preferred (filter is_libssl dls)),
      map_option norm (preferred (filter is_libcrypto dls)))"
proof (induction dls rule: rev_induct)
  case Nil
  show ?case by (simp add: preferred_def)
next
  case (snoc dl dls)
  have "consider_library norm dl (map_option norm s, map_option norm c) =
      (map_option norm (if is_libssl dl \<and> (s = None \<or> contains ''ython'' (map lower_char dl)) then Some dl else s),
       map_option norm (if is_libcrypto dl \<and> (c = None \<or> contains ''ython'' (map lower_char dl)) then Some dl else c))"
    for s c
    by (cases dl) (auto simp: consider_library_def Let_def is_libssl_def is_libcrypto_def)
  with snoc show ?case by (simp add: preferred_snoc)
qed

end
