(* ===== verification/Spec2Isabelle.thy ===== *)
theory Spec2Isabelle
  imports StreamCalls DatagramProps PipeProps SslProps SockProps EndpointProps PatchProps
    OpensslCompat
begin

text \<open>
  Verification development for aiofastnet.
\<close>

end
